(* ===== verification/Gate_Prelude.thy ===== *)
theory Gate_Prelude
  imports
    Main
    "HOL-Library.Char_ord"
    "HOL-Library.List_Lexorder"
    "HOL-Library.Product_Lexorder"
    "HOL-Library.Sublist"
begin

text \<open>
  Shared vocabulary of the development.

  \<^item> C++ exceptions. A pure computation that may throw is a value of \<open>exn + 'a\<close>
    (\<open>Inl\<close> is the exception), sequenced by \<open>bindE\<close> and \<open>foldE\<close>. A
    computation that mutates a state passed by reference and may throw half-way is an
    \<open>outcome\<close>, or its like with another type of thrown value: the exception, if any, paired with the state as the exception left
    it, sequenced by \<open>seqO\<close> and \<open>foldO\<close>.
  \<^item> \<open>std::set\<close>. A set ordered by \<open>operator<\<close> is the list of its elements in
    iteration order. \<open>operator<\<close> is given by a key into a linear order, the tuple
    \<open>std::tie\<close> compares; insertion does nothing when an equivalent element is
    present, as \<open>std::set::insert\<close> does.
  \<^item> Strings are byte lists, compared byte-wise unsigned as \<open>std::string\<close> is.
\<close>

section \<open>Exceptions\<close>

text \<open>
  The exception types the sources throw or distinguish when they catch. \<open>EngineError\<close>
  stands for every other exception of DuckDB, by its \<open>ExceptionType\<close>.
\<close>

datatype exception_type =
    ET_PARSER | ET_INVALID_INPUT | ET_PERMISSION | ET_BINDER | ET_CATALOG
  | ET_PARAMETER_NOT_RESOLVED | ET_INTERRUPT | ET_INTERNAL | ET_FATAL | ET_OUT_OF_MEMORY
  | ET_OTHER string

datatype exn =
    InvalidArgument string
  | RuntimeError string
  | BadAlloc
  | EngineError exception_type string "int option"

abbreviation PermissionException :: "string \<Rightarrow> exn" where
  "PermissionException m \<equiv> EngineError ET_PERMISSION m None"

abbreviation BinderException :: "string \<Rightarrow> exn" where
  "BinderException m \<equiv> EngineError ET_BINDER m None"

abbreviation InvalidInputException :: "string \<Rightarrow> exn" where
  "InvalidInputException m \<equiv> EngineError ET_INVALID_INPUT m None"

abbreviation InternalException :: "string \<Rightarrow> exn" where
  "InternalException m \<equiv> EngineError ET_INTERNAL m None"

definition bindE :: "'e + 'a \<Rightarrow> ('a \<Rightarrow> 'e + 'b) \<Rightarrow> 'e + 'b" where
  "bindE m f = (case m of Inl e \<Rightarrow> Inl e | Inr x \<Rightarrow> f x)"

fun foldE :: "('a \<Rightarrow> 's \<Rightarrow> 'e + 's) \<Rightarrow> 'a list \<Rightarrow> 's \<Rightarrow> 'e + 's" where
  "foldE f [] s = Inr s"
| "foldE f (x # xs) s = bindE (f x s) (foldE f xs)"

fun mapE :: "('a \<Rightarrow> 'e + 'b) \<Rightarrow> 'a list \<Rightarrow> 'e + 'b list" where
  "mapE f [] = Inr []"
| "mapE f (x # xs) = bindE (f x) (\<lambda>y. bindE (mapE f xs) (\<lambda>ys. Inr (y # ys)))"

type_synonym 's outcome = "exn option \<times> 's"

definition seqO :: "'e option \<times> 's \<Rightarrow> ('s \<Rightarrow> 'e option \<times> 's) \<Rightarrow> 'e option \<times> 's" where
  "seqO r f = (case fst r of None \<Rightarrow> f (snd r) | Some e \<Rightarrow> r)"

fun foldO :: "('a \<Rightarrow> 's \<Rightarrow> 'e option \<times> 's) \<Rightarrow> 'a list \<Rightarrow> 's \<Rightarrow> 'e option \<times> 's" where
  "foldO f [] s = (None, s)"
| "foldO f (x # xs) s = seqO (f x s) (foldO f xs)"

section \<open>Ordered sets\<close>

definition std_insert :: "('a \<Rightarrow> 'k::linorder) \<Rightarrow> 'a \<Rightarrow> 'a list \<Rightarrow> 'a list" where
  "std_insert key x s = insort_insert_key key x s"

definition std_insert_all :: "('a \<Rightarrow> 'k::linorder) \<Rightarrow> 'a list \<Rightarrow> 'a list \<Rightarrow> 'a list" where
  "std_insert_all key xs s = fold (std_insert key) xs s"

definition std_ordered :: "('a \<Rightarrow> 'k::linorder) \<Rightarrow> 'a list \<Rightarrow> bool" where
  "std_ordered key s = sorted_wrt (<) (map key s)"

definition std_find :: "('a \<Rightarrow> 'k) \<Rightarrow> 'k \<Rightarrow> 'a list \<Rightarrow> 'a option" where
  "std_find key k s = find (\<lambda>x. key x = k) s"

text \<open>\<open>std::map\<close> with an ordered key: the association list in iteration order.\<close>

fun std_put :: "'k::linorder \<Rightarrow> 'v \<Rightarrow> ('k \<times> 'v) list \<Rightarrow> ('k \<times> 'v) list" where
  "std_put k v [] = [(k, v)]"
| "std_put k v ((k', v') # m) =
     (if k < k' then (k, v) # (k', v') # m
      else if k = k' then (k, v) # m
      else (k', v') # std_put k v m)"

abbreviation ins :: "'a::linorder \<Rightarrow> 'a list \<Rightarrow> 'a list" where
  "ins x s \<equiv> std_insert (\<lambda>x. x) x s"

abbreviation ins_all :: "'a::linorder list \<Rightarrow> 'a list \<Rightarrow> 'a list" where
  "ins_all xs s \<equiv> std_insert_all (\<lambda>x. x) xs s"

section \<open>Proof collections\<close>

named_theorems gate_simps \<open>unfolding rules of the small predicates of the model\<close>
named_theorems gate_wf \<open>preservation of the well-formedness invariants\<close>

subsection \<open>Exceptions\<close>

lemma bindE_simps [simp]:
  "bindE (Inl e) f = Inl e"
  "bindE (Inr x) f = f x"
  by (simp_all add: bindE_def)

lemma bindE_eq_Inr: "bindE m f = Inr y \<longleftrightarrow> (\<exists>x. m = Inr x \<and> f x = Inr y)"
  by (cases m) auto

lemma bindE_eq_Inl: "bindE m f = Inl e \<longleftrightarrow> m = Inl e \<or> (\<exists>x. m = Inr x \<and> f x = Inl e)"
  by (cases m) auto

lemma foldE_append: "foldE f (xs @ ys) s = bindE (foldE f xs s) (foldE f ys)"
proof (induction xs arbitrary: s)
  case (Cons x xs)
  show ?case by (cases "f x s") (simp_all add: Cons.IH)
qed simp

lemma foldE_invariant:
  assumes "foldE f xs s = Inr s'" and "P s"
    and "\<And>x s s'. x \<in> set xs \<Longrightarrow> f x s = Inr s' \<Longrightarrow> P s \<Longrightarrow> P s'"
  shows "P s'"
  using assms
proof (induction xs arbitrary: s)
  case (Cons x xs)
  from Cons.prems(1) obtain t where t: "f x s = Inr t" "foldE f xs t = Inr s'"
    by (auto simp: bindE_eq_Inr)
  from t(1) Cons.prems(2,3) have "P t" by auto
  with t(2) Cons.prems(3) show ?case by (auto intro: Cons.IH)
qed simp

lemma foldE_total:
  assumes "\<And>x s. x \<in> set xs \<Longrightarrow> f x s = Inr (g x s)"
  shows "foldE f xs s = Inr (fold g xs s)"
  using assms by (induction xs arbitrary: s) simp_all

lemma mapE_eq_Inr_length: "mapE f xs = Inr ys \<Longrightarrow> length ys = length xs"
  by (induction xs arbitrary: ys) (auto simp: bindE_eq_Inr)

lemma mapE_eq_Inr_iff:
  "mapE f xs = Inr ys \<longleftrightarrow> list_all2 (\<lambda>x y. f x = Inr y) xs ys"
proof (induction xs arbitrary: ys)
  case (Cons x xs)
  show ?case by (cases ys) (auto simp: bindE_eq_Inr Cons.IH)
qed auto

lemma mapE_map:
  assumes "\<And>x. x \<in> set xs \<Longrightarrow> f x = Inr (g x)"
  shows "mapE f xs = Inr (map g xs)"
  using assms by (induction xs) simp_all

lemma seqO_simps [simp]:
  "seqO (None, s) f = f s"
  "seqO (Some e, s) f = (Some e, s)"
  by (simp_all add: seqO_def)

lemma seqO_eq_None: "seqO r f = (None, t) \<longleftrightarrow> (\<exists>s. r = (None, s) \<and> f s = (None, t))"
  by (cases r) (auto simp: seqO_def split: option.splits)

lemma foldO_append: "foldO f (xs @ ys) s = seqO (foldO f xs s) (foldO f ys)"
proof (induction xs arbitrary: s)
  case (Cons x xs)
  show ?case by (cases "f x s"; cases "fst (f x s)") (simp_all add: Cons.IH)
qed simp

text \<open>
  The rule for a run of mutating steps: what every step keeps, whether it returns or
  throws, the whole run keeps.
\<close>

lemma foldO_invariant:
  assumes "P s"
    and "\<And>x s. x \<in> set xs \<Longrightarrow> P s \<Longrightarrow> P (snd (f x s))"
  shows "P (snd (foldO f xs s))"
  using assms
proof (induction xs arbitrary: s)
  case (Cons x xs)
  from Cons.prems have "P (snd (f x s))" by simp
  then show ?case
    using Cons.prems(2) Cons.IH by (cases "f x s"; cases "fst (f x s)") auto
qed simp

lemma foldO_None_member:
  assumes "foldO f xs s = (None, t)" and "x \<in> set xs"
  obtains s0 s1 where "f x s0 = (None, s1)"
  using assms
proof (induction xs arbitrary: s)
  case (Cons y ys)
  from Cons.prems(2) obtain u where u: "f y s = (None, u)" "foldO f ys u = (None, t)"
    by (auto simp: seqO_eq_None)
  show ?case
  proof (cases "x = y")
    case True
    with u(1) show ?thesis using Cons.prems(1) by blast
  next
    case False
    with Cons.prems(3) have "x \<in> set ys" by simp
    with u(2) show ?thesis using Cons.IH Cons.prems(1) by blast
  qed
qed simp

text \<open>
  A relation between the state before and after that every step respects, whether it returns or
  throws: runs of steps respect it too.
\<close>

locale step_order =
  fixes le :: "'s \<Rightarrow> 's \<Rightarrow> bool"
  assumes le_refl: "le s s"
    and le_trans: "le s t \<Longrightarrow> le t u \<Longrightarrow> le s u"
begin

lemma seqO_le:
  assumes "le s (snd r)" and "\<And>t. r = (None, t) \<Longrightarrow> le t (snd (f t))"
  shows "le s (snd (seqO r f))"
proof (cases r)
  case (Pair e t)
  then show ?thesis using assms le_trans by (cases e) auto
qed

lemma foldO_le:
  assumes "\<And>x s. x \<in> set xs \<Longrightarrow> le s (snd (f x s))"
  shows "le s (snd (foldO f xs s))"
  using assms
proof (induction xs arbitrary: s)
  case (Cons x xs)
  have "le s (snd (f x s))" using Cons.prems by simp
  then show ?case using Cons.prems Cons.IH by (auto intro!: seqO_le)
qed (simp add: le_refl)

lemma fold_le:
  assumes "\<And>x s. x \<in> set xs \<Longrightarrow> le s (f x s)"
  shows "le s (fold f xs s)"
  using assms
proof (induction xs arbitrary: s)
  case (Cons x xs)
  have "le s (f x s)" using Cons.prems by simp
  moreover have "le (f x s) (fold f xs (f x s))" using Cons.prems by (intro Cons.IH) simp
  ultimately show ?case using le_trans by simp
qed (simp add: le_refl)

end

subsection \<open>Ordered sets\<close>

lemma std_insert_code:
  "std_insert key x s = (if key x \<in> key ` set s then s else insort_key key x s)"
  by (simp add: std_insert_def insort_insert_key_def)

lemma key_set_std_insert [simp]:
  "key ` set (std_insert key x s) = insert (key x) (key ` set s)"
  by (auto simp: std_insert_code set_insort_key)

lemma set_std_insert_subset: "set (std_insert key x s) \<subseteq> insert x (set s)"
  by (auto simp: std_insert_code set_insort_key)

lemma set_std_insert_mono: "set s \<subseteq> set (std_insert key x s)"
  by (auto simp: std_insert_code set_insort_key)

lemma std_insert_not_Nil [simp]: "std_insert key x s \<noteq> []"
  by (auto simp: std_insert_code dest: arg_cong [of _ _ length])

lemma std_ordered_iff: "std_ordered key s \<longleftrightarrow> sorted (map key s) \<and> distinct (map key s)"
  by (simp add: std_ordered_def strict_sorted_iff)

lemma std_ordered_Nil [simp, intro]: "std_ordered key []"
  by (simp add: std_ordered_def)

lemma std_ordered_insert [intro, gate_wf]:
  assumes "std_ordered key s" shows "std_ordered key (std_insert key x s)"
proof (cases "key x \<in> key ` set s")
  case True
  with assms show ?thesis by (simp add: std_insert_code)
next
  case False
  with False assms show ?thesis
    by (simp add: std_insert_code std_ordered_iff sorted_insort_key distinct_insort_key)
qed

lemma std_ordered_insert_all [intro, gate_wf]:
  "std_ordered key s \<Longrightarrow> std_ordered key (std_insert_all key xs s)"
  by (induction xs arbitrary: s) (auto simp: std_insert_all_def)

lemma key_set_std_insert_all [simp]:
  "key ` set (std_insert_all key xs s) = key ` set xs \<union> key ` set s"
  by (induction xs arbitrary: s) (auto simp: std_insert_all_def)

text \<open>Appending in iteration order: inserting a key above all others puts it last.\<close>

lemma std_insert_greatest:
  assumes "\<forall>y\<in>set s. key y < key x"
  shows "std_insert key x s = s @ [x]"
proof -
  have "key x \<notin> key ` set s" using assms by auto
  moreover have "insort_key key x s = s @ [x]"
    using assms by (induction s) auto
  ultimately show ?thesis by (simp add: std_insert_code)
qed

text \<open>Re-inserting an ordered set element by element rebuilds it: a decoded set is the encoded one.\<close>

lemma std_insert_all_ordered:
  assumes "std_ordered key (s @ xs)"
  shows "std_insert_all key xs s = s @ xs"
  using assms
proof (induction xs arbitrary: s)
  case (Cons x xs)
  then have "\<forall>y\<in>set s. key y < key x"
    by (auto simp: std_ordered_def sorted_wrt_append)
  then have "std_insert key x s = s @ [x]" by (rule std_insert_greatest)
  with Cons show ?case by (simp add: std_insert_all_def)
qed (simp add: std_insert_all_def)

lemma std_insert_all_rebuild: "std_ordered key xs \<Longrightarrow> std_insert_all key xs [] = xs"
  using std_insert_all_ordered [of key "[]" xs] by simp

lemma std_find_Some: "std_find key k s = Some x \<Longrightarrow> x \<in> set s \<and> key x = k"
  by (auto simp: std_find_def find_Some_iff)

lemma std_find_None: "std_find key k s = None \<longleftrightarrow> k \<notin> key ` set s"
  by (auto simp: std_find_def find_None_iff)

lemma map_of_std_put [simp]: "map_of (std_put k v m) = (map_of m)(k \<mapsto> v)"
  by (induction m) (auto simp: fun_upd_twist)

lemma fst_set_std_put [simp]: "fst ` set (std_put k v m) = insert k (fst ` set m)"
proof (induction m)
  case (Cons p m)
  then show ?case by (cases p) (simp add: insert_commute)
qed simp

lemma std_put_not_Nil [simp]: "std_put k v m \<noteq> []"
  by (cases m) (auto split: if_splits)

lemma std_ordered_put [intro, gate_wf]:
  "std_ordered fst m \<Longrightarrow> std_ordered fst (std_put k v m)"
proof (induction m)
  case (Cons p m)
  obtain k' v' where p: "p = (k', v')" by (cases p)
  from Cons.prems have rest: "std_ordered fst m" and above: "\<forall>x\<in>fst ` set m. k' < x"
    by (auto simp: std_ordered_def p)
  from above have above': "\<forall>x\<in>insert k (fst ` set m). k' < k \<longrightarrow> k' < x" by auto
  show ?case
  proof (cases "k' < k")
    case True
    with Cons.IH [OF rest] above' show ?thesis
      using fst_set_std_put [of k v m]
      by (auto simp: std_ordered_def p)
  next
    case False
    with Cons.prems show ?thesis by (auto simp: std_ordered_def p)
  qed
qed (simp add: std_ordered_def)

text \<open>
  A set whose \<open>operator<\<close> compares every field: equivalence is equality, and the list
  is determined by its elements.
\<close>

locale std_set =
  fixes key :: "'a \<Rightarrow> 'k::linorder"
  assumes key_inj: "key x = key y \<Longrightarrow> x = y"
begin

lemma inj_key: "inj key"
  by (rule injI) (rule key_inj)

lemma set_insert: "set (std_insert key x s) = insert x (set s)"
  by (auto simp: std_insert_code set_insort_key dest: key_inj)

lemma set_insert_all: "set (std_insert_all key xs s) = set xs \<union> set s"
  by (induction xs arbitrary: s) (auto simp: std_insert_all_def set_insert)

lemma ordered_unique:
  assumes "std_ordered key s" and "std_ordered key t" and "set s = set t"
  shows "s = t"
proof -
  from assms have "map key s = map key t"
    by (intro sorted_distinct_set_unique) (simp_all add: std_ordered_iff)
  then show ?thesis by (simp add: inj_map_eq_map [OF inj_key])
qed

lemma insert_all_swap:
  assumes "std_ordered key s" and "set xs = set ys"
  shows "std_insert_all key xs s = std_insert_all key ys s"
  using assms by (intro ordered_unique) (auto simp: set_insert_all)

end

interpretation names: std_set "\<lambda>x. x :: 'a::linorder"
  by unfold_locales

end
