(* ===== verification/Name_Path.thy ===== *)
theory Name_Path
  imports Gate_Prelude
begin

text \<open>
  Identifiers and schema paths: \<open>Lower\<close>, \<open>FoldPath\<close> and the namespace matcher every
  table and function rule shares (\<open>src/src/validator.cpp\<close>, \<open>src/src/include/name_path.hpp\<close>).
  A rule component is stored case-folded; an actual component is as the engine spells it.
\<close>

type_synonym NamePath = "string list"

definition lower_char :: "char \<Rightarrow> char" where
  "lower_char c =
     (let n = of_char c :: nat in if 65 \<le> n \<and> n \<le> 90 then char_of (n + 32) else c)"

definition Lower :: "string \<Rightarrow> string" where
  "Lower s = map lower_char s"

definition FoldPath :: "NamePath \<Rightarrow> NamePath" where
  "FoldPath path = map Lower path"

text \<open>One component of a rule's schema path against one actual component.\<close>

definition component_matches :: "bool \<Rightarrow> string \<Rightarrow> string \<Rightarrow> bool" where
  "component_matches exact_schema part actual \<longleftrightarrow>
     \<not> (actual = [] \<or> (part \<noteq> Lower actual \<and> (exact_schema \<or> part \<noteq> ''*'')))"

definition NamespaceMatches ::
    "string \<Rightarrow> NamePath \<Rightarrow> string \<Rightarrow> NamePath \<Rightarrow> bool \<Rightarrow> bool" where
  "NamespaceMatches catalog schema_path actual_catalog actual_schema_path exact_schema \<longleftrightarrow>
     (if actual_catalog = [] \<or> actual_schema_path = [] \<or>
         length schema_path \<noteq> length actual_schema_path then False
      else if catalog \<noteq> [] \<and> catalog \<noteq> ''*'' \<and> catalog \<noteq> Lower actual_catalog then False
      else list_all2 (component_matches exact_schema) schema_path actual_schema_path)"

section \<open>Case folding\<close>

lemma lower_char_idem [simp]: "lower_char (lower_char c) = lower_char c"
  by (simp add: lower_char_def Let_def)

lemma Lower_idem [simp]: "Lower (Lower s) = Lower s"
  by (simp add: Lower_def)

lemma Lower_Nil [simp]: "Lower [] = []" "Lower s = [] \<longleftrightarrow> s = []" "[] = Lower s \<longleftrightarrow> s = []"
  by (auto simp: Lower_def)

lemma Lower_append: "Lower (s @ t) = Lower s @ Lower t"
  by (simp add: Lower_def)

lemma length_Lower [simp]: "length (Lower s) = length s"
  by (simp add: Lower_def)

lemma lower_char_star [simp]: "lower_char c = CHR ''*'' \<longleftrightarrow> c = CHR ''*''"
proof -
  have "lower_char c = CHR ''*'' \<longleftrightarrow> (of_char (lower_char c) :: nat) = of_char (CHR ''*'')"
    by (simp only: of_char_eq_iff)
  also have "\<dots> \<longleftrightarrow> (of_char c :: nat) = of_char (CHR ''*'')"
    by (simp add: lower_char_def Let_def)
  finally show ?thesis by (simp only: of_char_eq_iff)
qed

lemma Lower_star [simp]: "Lower s = ''*'' \<longleftrightarrow> s = ''*''"
  by (auto simp: Lower_def)

lemma lower_char_NUL: "lower_char c = CHR 0x00 \<longleftrightarrow> c = CHR 0x00"
proof -
  have "lower_char c = CHR 0x00 \<longleftrightarrow> (of_char (lower_char c) :: nat) = of_char (CHR 0x00)"
    by (simp only: of_char_eq_iff)
  also have "\<dots> \<longleftrightarrow> (of_char c :: nat) = of_char (CHR 0x00)"
    by (simp add: lower_char_def Let_def)
  finally show ?thesis by (simp only: of_char_eq_iff)
qed

lemma NUL_in_Lower [simp]: "CHR 0x00 \<in> set (Lower s) \<longleftrightarrow> CHR 0x00 \<in> set s"
  by (simp add: Lower_def image_iff) (metis lower_char_NUL)

lemma FoldPath_idem [simp]: "FoldPath (FoldPath p) = FoldPath p"
  by (simp add: FoldPath_def)

lemma FoldPath_Nil [simp]: "FoldPath [] = []" "FoldPath p = [] \<longleftrightarrow> p = []"
  by (auto simp: FoldPath_def)

lemma FoldPath_Cons [simp]: "FoldPath (x # p) = Lower x # FoldPath p"
  by (simp add: FoldPath_def)

lemma length_FoldPath [simp]: "length (FoldPath p) = length p"
  by (simp add: FoldPath_def)

section \<open>Matching\<close>

lemma component_matches_fold:
  "component_matches exact part (Lower actual) = component_matches exact part actual"
  by (simp add: component_matches_def)

lemma list_all2_FoldPath:
  "list_all2 (component_matches exact) path (FoldPath actual) =
   list_all2 (component_matches exact) path actual"
  by (simp add: FoldPath_def list_all2_map2 component_matches_fold)

text \<open>Matching sees only the case-folded identity.\<close>

lemma NamespaceMatches_fold:
  "NamespaceMatches catalog path (Lower acat) (FoldPath apath) exact =
   NamespaceMatches catalog path acat apath exact"
  by (simp add: NamespaceMatches_def list_all2_FoldPath)

text \<open>An exact match is a match: the wildcard-free reading only narrows.\<close>

lemma NamespaceMatches_exact:
  "NamespaceMatches catalog path acat apath True \<Longrightarrow>
   NamespaceMatches catalog path acat apath exact"
  by (auto simp: NamespaceMatches_def component_matches_def elim!: list_all2_mono split: if_splits)

lemma NamespaceMatchesD:
  assumes "NamespaceMatches catalog path acat apath exact"
  shows "acat \<noteq> []" and "apath \<noteq> []" and "length path = length apath"
    and "catalog = [] \<or> catalog = ''*'' \<or> catalog = Lower acat"
    and "list_all2 (component_matches exact) path apath"
  using assms by (auto simp: NamespaceMatches_def split: if_splits)

lemma list_all2_component_self:
  "\<forall>part\<in>set path. part \<noteq> [] \<Longrightarrow>
   list_all2 (component_matches exact) (FoldPath path) path"
  by (induction path) (auto simp: component_matches_def)

text \<open>A stored identity matches itself whenever no part of it is empty.\<close>

lemma NamespaceMatches_self:
  assumes "acat \<noteq> []" and "apath \<noteq> []" and "\<forall>part\<in>set apath. part \<noteq> []"
  shows "NamespaceMatches (Lower acat) (FoldPath apath) acat apath exact"
  using assms by (simp add: NamespaceMatches_def list_all2_component_self)

text \<open>On a path without empty components the matcher is the pointwise denotation.\<close>

lemma component_matches_folded:
  assumes "actual \<noteq> []"
  shows "component_matches exact part (Lower actual) \<longleftrightarrow> part = Lower actual \<or> (\<not> exact \<and> part = ''*'')"
  unfolding component_matches_def using assms by auto

lemma list_all2_component:
  assumes "list_all (\<lambda>part. part \<noteq> []) path"
  shows "list_all2 (component_matches exact) rule (FoldPath path) \<longleftrightarrow>
    list_all2 (\<lambda>part actual. part = actual \<or> (\<not> exact \<and> part = ''*'')) rule (FoldPath path)"
  unfolding FoldPath_def list_all2_map2
  using assms by (intro list.rel_cong) (simp_all add: list_all_iff component_matches_folded)

lemma NamespaceMatches_denotes:
  assumes "c \<noteq> []" "p \<noteq> []" "list_all (\<lambda>part. part \<noteq> []) p"
  shows "NamespaceMatches cat path (Lower c) (FoldPath p) exact \<longleftrightarrow>
    (cat = [] \<or> cat = ''*'' \<or> cat = Lower c) \<and>
    list_all2 (\<lambda>part actual. part = actual \<or> (\<not> exact \<and> part = ''*'')) path (FoldPath p)"
proof (cases "length path = length p")
  case True
  have "NamespaceMatches cat path (Lower c) (FoldPath p) exact \<longleftrightarrow>
    (cat = [] \<or> cat = ''*'' \<or> cat = Lower c) \<and> list_all2 (component_matches exact) path (FoldPath p)"
    unfolding NamespaceMatches_def using assms True by (simp del: de_Morgan_disj)
  then show ?thesis unfolding list_all2_component [OF assms(3)] .
next
  case False
  then show ?thesis by (auto simp: NamespaceMatches_def dest: list_all2_lengthD)
qed

end
