(* ===== verification/Policy_Data.thy ===== *)
theory Policy_Data
  imports Name_Path
begin

text \<open>
  The data model of \<open>src/src/include/validator.hpp\<close>: rules, policies, layers, identities,
  violations, results, and the two records that carry what the text walk and the private
  bind learn. Every \<open>std::set\<close> is an ordered list; the key functions are the tuples the
  structs' \<open>operator<\<close> compare. \<open>Identity\<close> leaves \<open>internal\<close> out of its key, so
  a set of identities keeps the flag of the first one inserted.
\<close>

type_synonym Names = "string list"
type_synonym WrittenNames = "NamePath list"

abbreviation MAX_STATEMENTS :: nat where "MAX_STATEMENTS \<equiv> 1"
abbreviation MAX_AST_BYTES :: nat where "MAX_AST_BYTES \<equiv> 8388608"
abbreviation MAX_AST_NODES :: nat where "MAX_AST_NODES \<equiv> 100000"
abbreviation MAX_AST_DEPTH :: nat where "MAX_AST_DEPTH \<equiv> 512"

record Limits =
  l_bytes :: nat
  l_nodes :: nat
  l_depth :: nat

definition default_limits :: Limits where
  "default_limits = \<lparr>l_bytes = MAX_AST_BYTES, l_nodes = MAX_AST_NODES, l_depth = MAX_AST_DEPTH\<rparr>"

section \<open>Rules and policies\<close>

record Table =
  t_catalog :: string
  t_schema_path :: NamePath
  t_table :: string

definition Table_key :: "Table \<Rightarrow> string \<times> NamePath \<times> string" where
  "Table_key t = (t_catalog t, t_schema_path t, t_table t)"

record FunctionGrant =
  g_catalog :: string
  g_schema_path :: NamePath
  g_name :: string
  g_type :: string

definition FunctionGrant_key :: "FunctionGrant \<Rightarrow> string \<times> NamePath \<times> string \<times> string" where
  "FunctionGrant_key g = (g_catalog g, g_schema_path g, g_name g, g_type g)"

record Policy =
  defaults :: bool
  tables :: bool
  allowed_functions :: "FunctionGrant list"
  blocked_functions :: "FunctionGrant list"
  allowed_tables :: "Table list"
  blocked_tables :: "Table list"

definition default_policy :: Policy where
  "default_policy = \<lparr>defaults = True, tables = False, allowed_functions = [],
     blocked_functions = [], allowed_tables = [], blocked_tables = []\<rparr>"

record Layers =
  ceiling_layer :: Policy
  request_layer :: Policy

definition Layers_Each ::
    "(Policy \<Rightarrow> 's \<Rightarrow> 's outcome) \<Rightarrow> Layers \<Rightarrow> 's \<Rightarrow> 's outcome" where
  "Layers_Each fn l s = seqO (fn (ceiling_layer l) s) (fn (request_layer l))"

definition Layers_All :: "(Policy \<Rightarrow> bool) \<Rightarrow> Layers \<Rightarrow> bool" where
  "Layers_All predicate l \<longleftrightarrow> predicate (ceiling_layer l) \<and> predicate (request_layer l)"

section \<open>Decisions\<close>

abbreviation codes_OK :: string where "codes_OK \<equiv> ''ok''"
abbreviation codes_FORBIDDEN :: string where "codes_FORBIDDEN \<equiv> ''forbidden''"
abbreviation codes_UNSUPPORTED :: string where "codes_UNSUPPORTED \<equiv> ''unsupported''"
abbreviation codes_INVALID_INPUT :: string where "codes_INVALID_INPUT \<equiv> ''invalid_input''"
abbreviation codes_PARSER :: string where "codes_PARSER \<equiv> ''parser''"
abbreviation codes_BINDING :: string where "codes_BINDING \<equiv> ''binding''"

abbreviation rules_STATEMENT :: string where "rules_STATEMENT \<equiv> ''statement''"
abbreviation rules_LIMIT :: string where "rules_LIMIT \<equiv> ''limit''"
abbreviation rules_FUNCTION :: string where "rules_FUNCTION \<equiv> ''function''"
abbreviation rules_TABLE :: string where "rules_TABLE \<equiv> ''table''"
abbreviation rules_INTERNAL_OBJECT :: string where "rules_INTERNAL_OBJECT \<equiv> ''internal_object''"
abbreviation rules_BIND_TIME_EXPRESSION :: string where
  "rules_BIND_TIME_EXPRESSION \<equiv> ''bind_time_expression''"
abbreviation rules_DYNAMIC_SQL :: string where "rules_DYNAMIC_SQL \<equiv> ''dynamic_sql''"
abbreviation rules_REPLACEMENT_SCAN :: string where "rules_REPLACEMENT_SCAN \<equiv> ''replacement_scan''"
abbreviation rules_UNSUPPORTED_STRUCTURE :: string where
  "rules_UNSUPPORTED_STRUCTURE \<equiv> ''unsupported_structure''"

record Violation =
  v_rule :: string
  v_message :: string
  v_catalog :: string
  v_schema_path :: NamePath
  v_table :: string
  v_function_name :: string
  v_position :: int
  v_function_type :: string
  v_object_type :: string

definition Violation_key ::
    "Violation \<Rightarrow> string \<times> string \<times> string \<times> NamePath \<times> string \<times> string \<times> int \<times> string \<times> string" where
  "Violation_key v = (v_rule v, v_message v, v_catalog v, v_schema_path v, v_table v,
     v_function_name v, v_position v, v_function_type v, v_object_type v)"

text \<open>The two-argument constructor: every other member at its default.\<close>

definition violation :: "string \<Rightarrow> string \<Rightarrow> Violation" where
  "violation r m = \<lparr>v_rule = r, v_message = m, v_catalog = [], v_schema_path = [], v_table = [],
     v_function_name = [], v_position = -1, v_function_type = [], v_object_type = []\<rparr>"

record Identity =
  i_catalog :: string
  i_schema_path :: NamePath
  i_name :: string
  i_type :: string
  i_internal :: "bool option"

definition Identity_key :: "Identity \<Rightarrow> string \<times> NamePath \<times> string \<times> string" where
  "Identity_key i = (i_catalog i, i_schema_path i, i_name i, i_type i)"

definition identity :: "string \<Rightarrow> NamePath \<Rightarrow> string \<Rightarrow> string \<Rightarrow> bool option \<Rightarrow> Identity" where
  "identity c p n t i =
     \<lparr>i_catalog = c, i_schema_path = p, i_name = n, i_type = t, i_internal = i\<rparr>"

definition no_identity :: Identity where
  "no_identity = identity [] [] [] [] None"

record Result =
  r_allowed :: bool
  r_code :: string
  r_error_type :: string
  r_error_message :: string
  r_violations :: "Violation list"
  r_position :: int
  r_objects :: "Identity list"
  r_functions :: "Identity list"
  r_caller_objects :: "Identity list"
  r_caller_functions :: "Identity list"

definition empty_result :: Result where
  "empty_result = \<lparr>r_allowed = False, r_code = [], r_error_type = [], r_error_message = [],
     r_violations = [], r_position = -1, r_objects = [], r_functions = [], r_caller_objects = [],
     r_caller_functions = []\<rparr>"

definition Result_RecordFunction :: "Identity \<Rightarrow> bool \<Rightarrow> Result \<Rightarrow> Result" where
  "Result_RecordFunction i caller r =
     (let r1 = r\<lparr>r_functions := std_insert Identity_key i (r_functions r)\<rparr>
      in if caller
         then r1\<lparr>r_caller_functions := std_insert Identity_key i (r_caller_functions r1)\<rparr>
         else r1)"

definition add_violation :: "Violation \<Rightarrow> Result \<Rightarrow> Result" where
  "add_violation v r = r\<lparr>r_violations := std_insert Violation_key v (r_violations r)\<rparr>"

abbreviation UNSUPPORTED_STATEMENT :: string where
  "UNSUPPORTED_STATEMENT \<equiv> ''only supported read statements are permitted''"

abbreviation PARAMETERS_REQUIRED :: string where
  "PARAMETERS_REQUIRED \<equiv>
     ''Validation requires a complete bound plan; parameter values or types may be needed''"

definition UnsupportedStatement :: Result where
  "UnsupportedStatement = empty_result\<lparr>r_code := codes_UNSUPPORTED,
     r_violations := [violation rules_STATEMENT UNSUPPORTED_STATEMENT]\<rparr>"

definition NotAdmitted :: Result where
  "NotAdmitted = empty_result\<lparr>r_code := codes_FORBIDDEN,
     r_violations := [violation rules_STATEMENT ''not admitted at the binding boundary'']\<rparr>"

definition FixedLimitExceeded :: "string \<Rightarrow> Result" where
  "FixedLimitExceeded message = empty_result\<lparr>r_code := codes_FORBIDDEN,
     r_violations := [violation rules_LIMIT message]\<rparr>"

definition InvalidInput :: "string \<Rightarrow> Result" where
  "InvalidInput message = empty_result\<lparr>r_code := codes_INVALID_INPUT, r_error_message := message\<rparr>"

section \<open>What the walk and the private bind learn\<close>

record BindingPolicy =
  caller_parameters :: "(string \<times> int) list"
  synthesized_functions :: Names
  system_functions :: Names
  literal_constructors :: Names
  runtime_table_functions :: Names
  caller_dispatchers :: Names
  dispatcher_targets :: Names
  dispatcher_targets_by_name :: "(string \<times> Names) list"
  unsupported_dispatchers :: Names
  unsupported_quantiles :: Names
  caller_functions :: Names
  intrinsic_windows :: "(string \<times> Names) list"
  caller_collates :: bool
  caller_collation_names :: Names
  caller_table_names :: WrittenNames

definition empty_binding :: BindingPolicy where
  "empty_binding = \<lparr>caller_parameters = [], synthesized_functions = [], system_functions = [],
     literal_constructors = [], runtime_table_functions = [], caller_dispatchers = [],
     dispatcher_targets = [], dispatcher_targets_by_name = [], unsupported_dispatchers = [],
     unsupported_quantiles = [], caller_functions = [], intrinsic_windows = [],
     caller_collates = False, caller_collation_names = [], caller_table_names = []\<rparr>"

record Provenance =
  collation_functions :: Names
  function_entries :: "Identity list"
  caller_implementations :: "Identity list"
  trusted_implementations :: "Identity list"
  replacement_functions :: Names
  authorized_dispatchers :: Names
  caller_lookups :: Names
  caller_expansions :: Names
  caller_expansion_targets :: Names
  trusted_names :: Names
  trusted_table_names :: WrittenNames
  caller_objects :: "Table list"
  trusted_objects :: "Table list"
  validated_scans :: "((string \<times> NamePath \<times> string) \<times> nat) list"
  validated_function_scans :: "(string \<times> nat) list"
  unattributed :: bool

definition empty_provenance :: Provenance where
  "empty_provenance = \<lparr>collation_functions = [], function_entries = [], caller_implementations = [],
     trusted_implementations = [], replacement_functions = [], authorized_dispatchers = [],
     caller_lookups = [], caller_expansions = [], caller_expansion_targets = [], trusted_names = [],
     trusted_table_names = [], caller_objects = [], trusted_objects = [], validated_scans = [],
     validated_function_scans = [], unattributed = False\<rparr>"

section \<open>Ordered containers of the model\<close>

interpretation table_set: std_set Table_key
  by unfold_locales (simp add: Table_key_def)

interpretation grant_set: std_set FunctionGrant_key
  by unfold_locales (simp add: FunctionGrant_key_def)

interpretation violation_set: std_set Violation_key
  by unfold_locales (simp add: Violation_key_def)

lemmas set_inserts [simp] =
  table_set.set_insert grant_set.set_insert violation_set.set_insert names.set_insert
  table_set.set_insert_all grant_set.set_insert_all violation_set.set_insert_all
  names.set_insert_all

lemma Layers_All_D:
  "Layers_All P l \<Longrightarrow> P (ceiling_layer l)" "Layers_All P l \<Longrightarrow> P (request_layer l)"
  by (simp_all add: Layers_All_def)

lemma add_violation_simps [simp]:
  "r_violations (add_violation v r) \<noteq> []"
  "set (r_violations (add_violation v r)) = insert v (set (r_violations r))"
  "r_allowed (add_violation v r) = r_allowed r"
  "r_code (add_violation v r) = r_code r"
  "r_error_type (add_violation v r) = r_error_type r"
  "r_error_message (add_violation v r) = r_error_message r"
  "r_position (add_violation v r) = r_position r"
  "r_objects (add_violation v r) = r_objects r"
  "r_functions (add_violation v r) = r_functions r"
  "r_caller_objects (add_violation v r) = r_caller_objects r"
  "r_caller_functions (add_violation v r) = r_caller_functions r"
  by (simp_all add: add_violation_def)

lemma Result_RecordFunction_simps [simp]:
  "r_violations (Result_RecordFunction i caller r) = r_violations r"
  "r_allowed (Result_RecordFunction i caller r) = r_allowed r"
  "r_code (Result_RecordFunction i caller r) = r_code r"
  "r_objects (Result_RecordFunction i caller r) = r_objects r"
  "r_caller_objects (Result_RecordFunction i caller r) = r_caller_objects r"
  "Identity_key ` set (r_functions (Result_RecordFunction i caller r)) =
   insert (Identity_key i) (Identity_key ` set (r_functions r))"
  "Identity_key ` set (r_caller_functions (Result_RecordFunction i caller r)) =
   (if caller then insert (Identity_key i) else id) (Identity_key ` set (r_caller_functions r))"
  by (simp_all add: Result_RecordFunction_def Let_def)

end
