(* ===== verification/Function_Policy.thy ===== *)
theory Function_Policy
  imports Policy_Data
begin

text \<open>
  Table and function policy: the matchers of \<open>src/src/validator.cpp\<close> and the fixed lists
  of \<open>src/src/include/function_policy.hpp\<close>. The reviewed default identities come from a
  generated inventory and are the parameter \<open>inventory\<close> of the definitions that read it.
\<close>

section \<open>Tables\<close>

definition ObjectKey :: "string \<Rightarrow> NamePath \<Rightarrow> string \<Rightarrow> Table" where
  "ObjectKey catalog schema_path table =
     \<lparr>t_catalog = Lower catalog, t_schema_path = FoldPath schema_path, t_table = Lower table\<rparr>"

definition table_rule_matches :: "bool \<Rightarrow> Table \<Rightarrow> Table \<Rightarrow> bool" where
  "table_rule_matches internal key rule \<longleftrightarrow>
     \<not> (\<not> NamespaceMatches (t_catalog rule) (t_schema_path rule) (t_catalog key)
            (t_schema_path key) internal \<or>
        (t_table rule \<noteq> t_table key \<and> (internal \<or> t_table rule \<noteq> ''*'')))"

definition TableMatches :: "Table list \<Rightarrow> Table \<Rightarrow> bool \<Rightarrow> bool" where
  "TableMatches rules key internal \<longleftrightarrow>
     (if internal \<and> (''*'' \<in> set (t_schema_path key) \<or> t_table key = ''*'') then False
      else if key \<in> set rules then True
      else list_ex (table_rule_matches internal key) rules)"

definition TableBlocked :: "Policy \<Rightarrow> string \<Rightarrow> NamePath \<Rightarrow> string \<Rightarrow> bool" where
  "TableBlocked policy catalog schema_path table \<longleftrightarrow>
     TableMatches (blocked_tables policy) (ObjectKey catalog schema_path table) False"

definition TableAllowed :: "Policy \<Rightarrow> string \<Rightarrow> NamePath \<Rightarrow> string \<Rightarrow> bool \<Rightarrow> bool" where
  "TableAllowed policy catalog schema_path table internal \<longleftrightarrow>
     (let key = ObjectKey catalog schema_path table
      in \<not> TableMatches (blocked_tables policy) key False \<and>
         ((\<not> tables policy \<and> \<not> internal) \<or> TableMatches (allowed_tables policy) key internal))"

section \<open>Fixed function lists\<close>

definition NeverBindFunctions :: Names where
  "NeverBindFunctions =
     [''checkpoint'', ''currval'', ''disable_logging'', ''duckdb_approx_database_count'',
      ''duckdb_columns'', ''duckdb_connection_count'', ''duckdb_constraints'',
      ''duckdb_coordinate_systems'', ''duckdb_databases'', ''duckdb_dependencies'',
      ''duckdb_extensions'', ''duckdb_external_file_cache'', ''duckdb_functions'',
      ''duckdb_indexes'', ''duckdb_log_contexts'', ''duckdb_logs'', ''duckdb_logs_parsed'',
      ''duckdb_memory'', ''duckdb_prepared_statements'', ''duckdb_profiling_settings'',
      ''duckdb_schemas'', ''duckdb_secret_types'', ''duckdb_secrets'', ''duckdb_sequences'',
      ''duckdb_settings'', ''duckdb_table_sample'', ''duckdb_tables'', ''duckdb_temporary_files'',
      ''duckdb_types'', ''duckdb_variables'', ''duckdb_views'', ''enable_logging'',
      ''force_checkpoint'', ''gatekeeper_configure'', ''gatekeeper_enforce'',
      ''json_execute_serialized_sql'', ''json_serialize_plan'', ''nextval'', ''pragma_collations'',
      ''pragma_database_size'', ''pragma_metadata_info'', ''pragma_show'', ''pragma_storage_info'',
      ''pragma_table_info'', ''pragma_table_sample'', ''quack_query'', ''quack_query_by_name'',
      ''query'', ''query_table'', ''read_duckdb'', ''seq_scan'', ''truncate_duckdb_logs'',
      ''which_secret'', ''write_log'']"

definition DispatchingAggregators :: Names where
  "DispatchingAggregators =
     [''aggregate'', ''array_aggr'', ''array_aggregate'', ''list_aggr'', ''list_aggregate'']"

definition ListLambdaFunctions :: Names where
  "ListLambdaFunctions =
     [''list_transform'', ''array_transform'', ''list_apply'', ''array_apply'', ''apply'',
      ''list_filter'', ''array_filter'', ''filter'', ''list_reduce'', ''array_reduce'', ''reduce'']"

definition ControlPlaneFunctions :: Names where
  "ControlPlaneFunctions =
     [''disable_logging'', ''enable_logging'', ''gatekeeper_configure'', ''gatekeeper_enforce'',
      ''truncate_duckdb_logs'', ''write_log'']"

definition WindowImplementationName :: "string \<Rightarrow> string" where
  "WindowImplementationName nm =
     (let name = Lower nm
      in if name = ''rank_dense'' then ''dense_rank''
         else if name = ''first'' \<or> name = ''last'' then name @ ''_value''
         else name)"

definition NeverBind :: "string \<Rightarrow> bool" where
  "NeverBind name \<longleftrightarrow> Lower name \<in> set NeverBindFunctions"

definition ControlPlane :: "string \<Rightarrow> bool" where
  "ControlPlane name \<longleftrightarrow> Lower name \<in> set ControlPlaneFunctions"

definition CollationFunction :: "string \<Rightarrow> bool" where
  "CollationFunction name \<longleftrightarrow>
     (let lower = Lower name
      in lower = ''lower'' \<or> lower = ''strip_accents'' \<or> lower = ''nfc_normalize'' \<or>
         take 12 lower = ''icu_collate_'')"

section \<open>Functions\<close>

definition function_kinds :: Names where
  "function_kinds = [''scalar'', ''aggregate'', ''table'', ''macro'', ''table_macro'', ''window'']"

definition SupportedFunctionKind :: "string \<Rightarrow> bool" where
  "SupportedFunctionKind kind \<longleftrightarrow> kind \<in> set function_kinds"

definition SystemIdentity :: "Identity \<Rightarrow> bool" where
  "SystemIdentity i \<longleftrightarrow>
     i_name i \<noteq> [] \<and> Lower (i_catalog i) = ''system'' \<and> FoldPath (i_schema_path i) = [''main'']"

definition FunctionImplementations :: "Identity \<Rightarrow> nat \<Rightarrow> Names" where
  "FunctionImplementations source engine_major =
     (let names = [Lower (i_name source)]
      in if \<not> SystemIdentity source \<or> i_internal source \<noteq> Some True then names
         else
           (let names1 =
              (if i_type source = ''aggregate'' then
                 (let a = (if i_name source = ''min'' then ins ''arg_min'' names else names);
                      b = (if i_name source = ''max'' then ins ''arg_max'' a else a)
                  in if i_name source = ''quantile'' then ins ''quantile_disc'' b else b)
               else names)
            in if i_type source = ''scalar'' \<and>
                  (i_name source = ''date_part'' \<or> i_name source = ''datepart'') then
                 (let names2 = ins ''julian'' (ins ''epoch'' names1)
                  in if 2 \<le> engine_major then
                       ins_all [''year'', ''month'', ''day'', ''decade'', ''century'',
                         ''millennium'', ''microsecond'', ''millisecond'', ''second'', ''minute'',
                         ''hour'', ''dayofweek'', ''isodow'', ''week'', ''isoyear'', ''quarter'',
                         ''dayofyear'', ''yearweek'', ''era'', ''timezone'', ''timezone_hour'',
                         ''timezone_minute''] names2
                     else names2)
               else names1))"

definition FunctionMatches :: "FunctionGrant \<Rightarrow> Identity \<Rightarrow> bool \<Rightarrow> bool" where
  "FunctionMatches rule i exact_schema \<longleftrightarrow>
     (if exact_schema \<and> ''*'' \<in> set (g_schema_path rule) then False
      else (g_type rule = [] \<or> g_type rule = i_type i) \<and> g_name rule = Lower (i_name i) \<and>
        NamespaceMatches (g_catalog rule) (g_schema_path rule) (i_catalog i) (i_schema_path i)
          exact_schema)"

definition FunctionBlocked :: "Policy \<Rightarrow> Identity \<Rightarrow> bool" where
  "FunctionBlocked policy i \<longleftrightarrow>
     list_ex (\<lambda>rule. FunctionMatches rule i False) (blocked_functions policy)"

definition FunctionDenied :: "Policy \<Rightarrow> Identity \<Rightarrow> bool" where
  "FunctionDenied policy i \<longleftrightarrow> NeverBind (i_name i) \<or> FunctionBlocked policy i"

definition BlockCovers :: "FunctionGrant \<Rightarrow> FunctionGrant \<Rightarrow> bool" where
  "BlockCovers block candidate \<longleftrightarrow>
     (if g_catalog block \<noteq> [] \<and> g_catalog block \<noteq> ''*'' \<and> g_catalog block \<noteq> g_catalog candidate
      then False
      else if length (g_schema_path block) \<noteq> length (g_schema_path candidate) then False
      else if \<not> list_all2 (\<lambda>b c. \<not> (b \<noteq> ''*'' \<and> b \<noteq> c)) (g_schema_path block) (g_schema_path candidate)
      then False
      else (g_type block = [] \<or> g_type block = g_type candidate) \<and> g_name block = g_name candidate)"

definition rule_survives :: "Policy \<Rightarrow> string \<Rightarrow> FunctionGrant \<Rightarrow> bool" where
  "rule_survives policy name rule \<longleftrightarrow>
     (if g_name rule \<noteq> Lower name then False
      else list_ex (\<lambda>kind.
             \<not> (g_type rule \<noteq> [] \<and> g_type rule \<noteq> kind) \<and>
             \<not> list_ex (\<lambda>block. BlockCovers block
                   \<lparr>g_catalog = g_catalog rule, g_schema_path = g_schema_path rule,
                    g_name = Lower name, g_type = kind\<rparr>) (blocked_functions policy))
           function_kinds)"

definition FunctionEligible :: "FunctionGrant list \<Rightarrow> Policy \<Rightarrow> string \<Rightarrow> bool" where
  "FunctionEligible inventory policy name \<longleftrightarrow>
     (if NeverBind name then False
      else if defaults policy \<and> list_ex (rule_survives policy name) inventory then True
      else list_ex (rule_survives policy name) (allowed_functions policy))"

definition FunctionAllowed :: "FunctionGrant list \<Rightarrow> Policy \<Rightarrow> Identity \<Rightarrow> bool" where
  "FunctionAllowed inventory policy i \<longleftrightarrow>
     (if i_name i = [] \<or> i_catalog i = [] \<or> i_schema_path i = [] \<or>
         \<not> SupportedFunctionKind (i_type i) \<or> FunctionDenied policy i then False
      else if list_ex (\<lambda>part. part = []) (i_schema_path i) then False
      else if defaults policy \<and> i_internal i = Some True \<and>
         \<lparr>g_catalog = Lower (i_catalog i), g_schema_path = FoldPath (i_schema_path i),
          g_name = Lower (i_name i), g_type = i_type i\<rparr> \<in> set inventory then True
      else list_ex (\<lambda>rule. FunctionMatches rule i
             (case i_internal i of None \<Rightarrow> True | Some b \<Rightarrow> b)) (allowed_functions policy))"

definition FunctionKey :: "Identity \<Rightarrow> Identity" where
  "FunctionKey i = i\<lparr>i_catalog := Lower (i_catalog i), i_schema_path := FoldPath (i_schema_path i),
     i_name := Lower (i_name i), i_type := Lower (i_type i)\<rparr>"

section \<open>Well-formed rules and policies\<close>

text \<open>
  What option decoding guarantees of a stored rule: components nonempty, NUL-free and
  case-folded, the empty catalog and the empty kind meaning \<open>any\<close>; and of a stored
  policy: ordered sets, and no allowed table unless table restriction is on.
\<close>

definition wf_identifier :: "string \<Rightarrow> bool" where
  "wf_identifier s \<longleftrightarrow> s \<noteq> [] \<and> CHR 0x00 \<notin> set s \<and> Lower s = s"

definition wf_path :: "NamePath \<Rightarrow> bool" where
  "wf_path p \<longleftrightarrow> p \<noteq> [] \<and> list_all wf_identifier p"

definition wf_table :: "Table \<Rightarrow> bool" where
  "wf_table t \<longleftrightarrow> (t_catalog t = [] \<or> wf_identifier (t_catalog t)) \<and> wf_path (t_schema_path t) \<and>
     wf_identifier (t_table t)"

definition wf_grant :: "FunctionGrant \<Rightarrow> bool" where
  "wf_grant g \<longleftrightarrow> (g_catalog g = [] \<or> wf_identifier (g_catalog g)) \<and> wf_path (g_schema_path g) \<and>
     wf_identifier (g_name g) \<and> (g_type g = [] \<or> SupportedFunctionKind (g_type g))"

definition wf_policy :: "Policy \<Rightarrow> bool" where
  "wf_policy p \<longleftrightarrow>
     list_all wf_grant (allowed_functions p) \<and> std_ordered FunctionGrant_key (allowed_functions p) \<and>
     list_all wf_grant (blocked_functions p) \<and> std_ordered FunctionGrant_key (blocked_functions p) \<and>
     list_all wf_table (allowed_tables p) \<and> std_ordered Table_key (allowed_tables p) \<and>
     list_all wf_table (blocked_tables p) \<and> std_ordered Table_key (blocked_tables p) \<and>
     (\<not> tables p \<longrightarrow> allowed_tables p = [])"

text \<open>
  What the constructor of the embedded inventory checks of every default identity: a
  concrete catalog, a concrete schema path, a supported kind, all case-folded.
\<close>

definition wf_default :: "FunctionGrant \<Rightarrow> bool" where
  "wf_default g \<longleftrightarrow> wf_identifier (g_catalog g) \<and> g_catalog g \<noteq> ''*'' \<and> wf_path (g_schema_path g) \<and>
     ''*'' \<notin> set (g_schema_path g) \<and> wf_identifier (g_name g) \<and> SupportedFunctionKind (g_type g)"

definition wf_inventory :: "FunctionGrant list \<Rightarrow> bool" where
  "wf_inventory inventory \<longleftrightarrow> list_all wf_default inventory"


section \<open>Abstract rule semantics\<close>

text \<open>
  A table rule denotes a set of resolved, case-folded objects: the catalog is fixed or
  free, each schema component and the table are fixed or \<open>'*'\<close>, the depth is fixed.
  The exact reading, used for internal objects, fixes every schema component and the table.
\<close>

definition catalog_denotes :: "string \<Rightarrow> string \<Rightarrow> bool" where
  "catalog_denotes rule actual \<longleftrightarrow> rule = [] \<or> rule = ''*'' \<or> rule = actual"

definition table_denotes :: "bool \<Rightarrow> Table \<Rightarrow> Table set" where
  "table_denotes exact rule = {key. catalog_denotes (t_catalog rule) (t_catalog key) \<and>
     (if exact then t_schema_path rule = t_schema_path key \<and> t_table rule = t_table key
      else list_all2 (\<lambda>part actual. part = actual \<or> part = ''*'') (t_schema_path rule) (t_schema_path key) \<and>
        (t_table rule = t_table key \<or> t_table rule = ''*''))}"

text \<open>An object DuckDB resolved: catalog, schema path and every component present.\<close>

definition resolved_object :: "string \<Rightarrow> NamePath \<Rightarrow> string \<Rightarrow> bool" where
  "resolved_object catalog schema_path table \<longleftrightarrow>
     catalog \<noteq> [] \<and> schema_path \<noteq> [] \<and> list_all (\<lambda>part. part \<noteq> []) schema_path \<and> table \<noteq> []"

text \<open>A policy is narrower when it grants from fewer rules and blocks with more.\<close>

definition narrower_tables :: "Policy \<Rightarrow> Policy \<Rightarrow> bool" where
  "narrower_tables p q \<longleftrightarrow> set (blocked_tables q) \<subseteq> set (blocked_tables p) \<and>
     set (allowed_tables p) \<subseteq> set (allowed_tables q) \<and> (tables q \<longrightarrow> tables p)"

definition narrower_functions :: "Policy \<Rightarrow> Policy \<Rightarrow> bool" where
  "narrower_functions p q \<longleftrightarrow> set (blocked_functions q) \<subseteq> set (blocked_functions p) \<and>
     set (allowed_functions p) \<subseteq> set (allowed_functions q) \<and> (defaults p \<longrightarrow> defaults q)"

section \<open>Table decisions\<close>

lemma ObjectKey_sel [simp]:
  "t_catalog (ObjectKey c p t) = Lower c"
  "t_schema_path (ObjectKey c p t) = FoldPath p"
  "t_table (ObjectKey c p t) = Lower t"
  by (simp_all add: ObjectKey_def)

lemma ObjectKey_fold [simp]: "ObjectKey (Lower c) (FoldPath p) (Lower t) = ObjectKey c p t"
  by (simp add: ObjectKey_def)

lemma list_all_FoldPath: "list_all (\<lambda>part. part \<noteq> []) (FoldPath p) = list_all (\<lambda>part. part \<noteq> []) p"
  by (simp add: FoldPath_def list_all_iff)

lemma list_all2_eq_iff: "list_all2 (\<lambda>x y. x = y) xs ys \<longleftrightarrow> xs = ys"
  by (simp add: list.rel_eq)

lemma table_rule_matches_iff:
  assumes "resolved_object c p t"
  shows "table_rule_matches internal (ObjectKey c p t) rule \<longleftrightarrow>
    ObjectKey c p t \<in> table_denotes internal rule"
proof -
  from assms have r: "c \<noteq> []" "p \<noteq> []" "list_all (\<lambda>part. part \<noteq> []) p"
    by (simp_all add: resolved_object_def)
  show ?thesis
    unfolding table_rule_matches_def table_denotes_def catalog_denotes_def ObjectKey_sel
      NamespaceMatches_denotes [OF r] mem_Collect_eq
    by (cases internal) (simp_all add: list_all2_eq_iff, blast+)
qed

lemma table_denotes_self: "key \<in> table_denotes internal key"
  by (simp add: table_denotes_def catalog_denotes_def list_all2_same)

lemma TableMatches_iff:
  assumes "resolved_object c p t"
  shows "TableMatches rules (ObjectKey c p t) internal \<longleftrightarrow>
    \<not> (internal \<and> (''*'' \<in> set (FoldPath p) \<or> t = ''*'')) \<and>
    (\<exists>rule\<in>set rules. ObjectKey c p t \<in> table_denotes internal rule)"
  using table_rule_matches_iff [OF assms] table_denotes_self [of "ObjectKey c p t" internal]
  by (auto simp: TableMatches_def list_ex_iff)

lemma TableMatches_mono:
  "set rules \<subseteq> set rules' \<Longrightarrow> TableMatches rules key internal \<Longrightarrow> TableMatches rules' key internal"
  by (auto simp: TableMatches_def list_ex_iff split: if_splits)

lemma TableAllowed_not_blocked: "TableBlocked p c s t \<Longrightarrow> \<not> TableAllowed p c s t internal"
  by (simp add: TableBlocked_def TableAllowed_def Let_def)

lemma TableAllowed_narrower:
  assumes "narrower_tables p q" and "TableAllowed p c s t internal"
  shows "TableAllowed q c s t internal"
  using assms TableMatches_mono
  unfolding narrower_tables_def TableAllowed_def Let_def by blast

section \<open>Function decisions\<close>

lemma ControlPlane_NeverBind: "ControlPlane name \<Longrightarrow> NeverBind name"
  unfolding ControlPlane_def NeverBind_def ControlPlaneFunctions_def NeverBindFunctions_def
  by (elim set_mp [rotated]) simp

lemma FunctionDenied_not_allowed: "FunctionDenied p i \<Longrightarrow> \<not> FunctionAllowed inventory p i"
  by (simp add: FunctionAllowed_def)

lemma FunctionBlocked_mono:
  "set (blocked_functions q) \<subseteq> set (blocked_functions p) \<Longrightarrow> FunctionBlocked q i \<Longrightarrow> FunctionBlocked p i"
  by (auto simp: FunctionBlocked_def list_ex_iff)

lemma FunctionAllowed_narrower:
  assumes "narrower_functions p q" and "FunctionAllowed inventory p i"
  shows "FunctionAllowed inventory q i"
proof -
  from assms have "\<not> FunctionDenied q i"
    by (auto simp: FunctionAllowed_def FunctionDenied_def narrower_functions_def
        dest: FunctionBlocked_mono split: if_splits)
  with assms show ?thesis
    unfolding FunctionAllowed_def narrower_functions_def list_ex_iff by (auto split: if_splits)
qed

lemma wf_path_star_free_exact:
  assumes "wf_path p" shows "FoldPath p = p"
  using assms by (auto simp: wf_path_def wf_identifier_def FoldPath_def list_all_iff intro: map_idI)

text \<open>Coverage of a candidate namespace is blocking of every identity the candidate's rule matches.\<close>

lemma BlockCovers_blocks:
  assumes cover: "BlockCovers block \<lparr>g_catalog = g_catalog rule, g_schema_path = g_schema_path rule,
      g_name = Lower (i_name i), g_type = i_type i\<rparr>"
    and match: "NamespaceMatches (g_catalog rule) (g_schema_path rule) (i_catalog i) (i_schema_path i) exact"
  shows "FunctionMatches block i False"
proof -
  let ?path = "g_schema_path rule"
  from cover have parts: "list_all2 (\<lambda>b c. b = ''*'' \<or> b = c) (g_schema_path block) ?path"
    and cat: "g_catalog block = [] \<or> g_catalog block = ''*'' \<or> g_catalog block = g_catalog rule"
    and rest: "g_type block = [] \<or> g_type block = i_type i" "g_name block = Lower (i_name i)"
    by (auto simp: BlockCovers_def elim: list_all2_mono split: if_splits)
  note ns = NamespaceMatchesD [OF match]
  have "list_all2 (component_matches False) (g_schema_path block) (i_schema_path i)"
    by (rule list_all2_trans [OF _ parts ns(5)]) (auto simp: component_matches_def)
  moreover have "length (g_schema_path block) = length (i_schema_path i)"
    using list_all2_lengthD [OF parts] ns(3) by simp
  ultimately show ?thesis
    using ns cat rest by (auto simp: FunctionMatches_def NamespaceMatches_def)
qed

lemma rule_survivesI:
  assumes "g_name rule = Lower (i_name i)" and "g_type rule = [] \<or> g_type rule = i_type i"
    and "SupportedFunctionKind (i_type i)" and "\<not> FunctionBlocked p i"
    and match: "NamespaceMatches (g_catalog rule) (g_schema_path rule) (i_catalog i) (i_schema_path i) exact"
  shows "rule_survives p (i_name i) rule"
proof -
  have "\<not> BlockCovers block \<lparr>g_catalog = g_catalog rule, g_schema_path = g_schema_path rule,
      g_name = Lower (i_name i), g_type = i_type i\<rparr>" if "block \<in> set (blocked_functions p)" for block
    using BlockCovers_blocks [OF _ match] that assms(4) by (auto simp: FunctionBlocked_def list_ex_iff)
  with assms(1-3) show ?thesis
    by (auto simp: rule_survives_def SupportedFunctionKind_def list_ex_iff)
qed

lemma FunctionAllowed_eligible:
  assumes "FunctionAllowed inventory p i"
  shows "FunctionEligible inventory p (i_name i)"
proof -
  from assms have base: "i_catalog i \<noteq> []" "i_schema_path i \<noteq> []" "SupportedFunctionKind (i_type i)"
      "\<not> NeverBind (i_name i)" "\<not> FunctionBlocked p i" "\<forall>part\<in>set (i_schema_path i). part \<noteq> []"
    by (auto simp: FunctionAllowed_def FunctionDenied_def list_ex_iff split: if_splits)
  let ?id = "\<lparr>g_catalog = Lower (i_catalog i), g_schema_path = FoldPath (i_schema_path i),
      g_name = Lower (i_name i), g_type = i_type i\<rparr>"
  from assms consider (dflt) "defaults p" "?id \<in> set inventory"
    | (grant) rule exact where "rule \<in> set (allowed_functions p)" "FunctionMatches rule i exact"
    by (auto simp: FunctionAllowed_def list_ex_iff split: if_splits)
  then show ?thesis
  proof cases
    case dflt
    have "rule_survives p (i_name i) ?id"
      using base NamespaceMatches_self [OF base(1,2,6)] by (intro rule_survivesI) simp_all
    with dflt base(4) show ?thesis by (auto simp: FunctionEligible_def list_ex_iff)
  next
    case grant
    from grant(2) have "rule_survives p (i_name i) rule"
      using base by (intro rule_survivesI) (auto simp: FunctionMatches_def split: if_splits)
    with grant(1) base(4) show ?thesis by (auto simp: FunctionEligible_def list_ex_iff)
  qed
qed

lemma FunctionEligible_fold:
  assumes "Lower n = Lower m"
  shows "FunctionEligible inventory p n = FunctionEligible inventory p m"
proof -
  have "rule_survives p n = rule_survives p m" by (rule ext) (simp add: rule_survives_def assms)
  then show ?thesis by (simp add: FunctionEligible_def NeverBind_def assms)
qed

text \<open>
  The other direction. A surviving rule has an instance no block matches: wildcards are
  filled with a name that occurs in no block.
\<close>

definition fresh_name :: "string list \<Rightarrow> string" where
  "fresh_name ss = replicate (Suc (sum_list (map length ss))) (CHR ''a'')"

definition block_names :: "Policy \<Rightarrow> string list" where
  "block_names p = concat (map (\<lambda>g. g_catalog g # g_schema_path g) (blocked_functions p))"

definition rule_instance :: "string \<Rightarrow> FunctionGrant \<Rightarrow> string \<Rightarrow> bool option \<Rightarrow> Identity" where
  "rule_instance fresh rule kind internal = identity
     (if g_catalog rule = [] \<or> g_catalog rule = ''*'' then fresh else g_catalog rule)
     (map (\<lambda>part. if part = ''*'' then fresh else part) (g_schema_path rule))
     (g_name rule) kind internal"

lemma rule_instance_sel [simp]:
  "i_catalog (rule_instance fresh rule kind internal) =
     (if g_catalog rule = [] \<or> g_catalog rule = ''*'' then fresh else g_catalog rule)"
  "i_schema_path (rule_instance fresh rule kind internal) =
     map (\<lambda>part. if part = ''*'' then fresh else part) (g_schema_path rule)"
  "i_name (rule_instance fresh rule kind internal) = g_name rule"
  "i_type (rule_instance fresh rule kind internal) = kind"
  "i_internal (rule_instance fresh rule kind internal) = internal"
  by (simp_all add: rule_instance_def identity_def)

lemma fresh_name_notin: "fresh_name ss \<notin> set ss"
proof
  assume "fresh_name ss \<in> set ss"
  then have "length (fresh_name ss) \<le> sum_list (map length ss)"
    by (intro member_le_sum_list) auto
  then show False by (simp add: fresh_name_def)
qed

lemma fresh_name_nonempty [simp]: "fresh_name ss \<noteq> []" "[] \<noteq> fresh_name ss"
  unfolding fresh_name_def replicate_Suc by (rule list.distinct)+

lemma fresh_name_not_star [simp]: "fresh_name ss \<noteq> ''*''"
  unfolding fresh_name_def replicate_Suc list.inject by simp

lemma Lower_fresh_name [simp]: "Lower (fresh_name ss) = fresh_name ss"
proof -
  have a: "lower_char (CHR ''a'') = CHR ''a''" by (simp add: lower_char_def)
  show ?thesis unfolding fresh_name_def Lower_def map_replicate a ..
qed

lemma wf_identifierD:
  "wf_identifier s \<Longrightarrow> s \<noteq> []" "wf_identifier s \<Longrightarrow> Lower s = s"
  "wf_identifier s \<Longrightarrow> CHR 0x00 \<notin> set s"
  by (simp_all add: wf_identifier_def)

lemma wf_pathD:
  "wf_path p \<Longrightarrow> p \<noteq> []" "wf_path p \<Longrightarrow> part \<in> set p \<Longrightarrow> wf_identifier part"
  by (simp_all add: wf_path_def list_all_iff)

lemma wf_grantD:
  assumes "wf_grant g"
  shows "g_name g \<noteq> []" and "Lower (g_name g) = g_name g" and "g_schema_path g \<noteq> []"
    and "part \<in> set (g_schema_path g) \<Longrightarrow> part \<noteq> [] \<and> Lower part = part"
    and "Lower (g_catalog g) = g_catalog g"
proof -
  from assms have g: "wf_identifier (g_name g)" "wf_path (g_schema_path g)"
    "g_catalog g = [] \<or> wf_identifier (g_catalog g)"
    by (simp_all add: wf_grant_def)
  show "g_name g \<noteq> []" "Lower (g_name g) = g_name g" using g(1) by (auto dest: wf_identifierD)
  show "g_schema_path g \<noteq> []" using g(2) by (rule wf_pathD)
  show "part \<in> set (g_schema_path g) \<Longrightarrow> part \<noteq> [] \<and> Lower part = part"
    using wf_pathD(2) [OF g(2), of part] wf_identifierD by blast
  show "Lower (g_catalog g) = g_catalog g" using g(3) wf_identifierD(2) by fastforce
qed

lemma wf_default_grant: "wf_default g \<Longrightarrow> wf_grant g"
  by (auto simp: wf_default_def wf_grant_def)

lemma rule_instance_unblocked:
  assumes wf: "wf_grant rule" and block: "block \<in> set (blocked_functions p)"
    and nocover: "\<not> BlockCovers block \<lparr>g_catalog = g_catalog rule, g_schema_path = g_schema_path rule,
      g_name = Lower (g_name rule), g_type = kind\<rparr>"
  shows "\<not> FunctionMatches block (rule_instance (fresh_name (block_names p)) rule kind internal) False"
proof
  let ?f = "fresh_name (block_names p)"
  let ?path = "g_schema_path rule"
  assume m: "FunctionMatches block (rule_instance ?f rule kind internal) False"
  have "set (g_catalog block # g_schema_path block) \<subseteq> set (block_names p)"
    using block by (auto simp: block_names_def)
  with fresh_name_notin [of "block_names p"]
  have fc: "g_catalog block \<noteq> ?f" and fp: "\<forall>part\<in>set (g_schema_path block). part \<noteq> ?f"
    by auto
  from m have ns: "NamespaceMatches (g_catalog block) (g_schema_path block)
      (i_catalog (rule_instance ?f rule kind internal))
      (i_schema_path (rule_instance ?f rule kind internal)) False"
    and name: "g_type block = [] \<or> g_type block = kind" "g_name block = Lower (g_name rule)"
    by (auto simp: FunctionMatches_def)
  from NamespaceMatchesD(4) [OF ns]
  have cat: "g_catalog block = [] \<or> g_catalog block = ''*'' \<or> g_catalog block = g_catalog rule"
    using fc wf_grantD(5) [OF wf] by (auto split: if_splits)
  have "list_all2 (\<lambda>b c. \<not> (b \<noteq> ''*'' \<and> b \<noteq> c)) (g_schema_path block) ?path"
    unfolding list_all2_conv_all_nth
  proof (intro conjI allI impI)
    from NamespaceMatchesD(3) [OF ns] show len: "length (g_schema_path block) = length ?path" by simp
    fix k assume k: "k < length (g_schema_path block)"
    with NamespaceMatchesD(5) [OF ns] len have "component_matches False (g_schema_path block ! k)
        (if ?path ! k = ''*'' then ?f else ?path ! k)"
      by (auto simp: list_all2_conv_all_nth)
    moreover have "g_schema_path block ! k \<noteq> ?f" using fp k by simp
    moreover have "Lower (?path ! k) = ?path ! k" using wf_grantD(4) [OF wf] k len by simp
    ultimately show "\<not> (g_schema_path block ! k \<noteq> ''*'' \<and> g_schema_path block ! k \<noteq> ?path ! k)"
      by (auto simp: component_matches_def split: if_splits)
  qed
  with cat name have "BlockCovers block \<lparr>g_catalog = g_catalog rule, g_schema_path = ?path,
      g_name = Lower (g_name rule), g_type = kind\<rparr>"
    by (auto simp: BlockCovers_def dest: list_all2_lengthD)
  with nocover show False ..
qed

lemma rule_instance_matches:
  assumes "wf_grant rule" and "g_type rule = [] \<or> g_type rule = kind"
    and "fresh \<noteq> []" and "exact \<Longrightarrow> ''*'' \<notin> set (g_schema_path rule)"
  shows "FunctionMatches rule (rule_instance fresh rule kind internal) exact"
proof -
  have "list_all2 (component_matches exact) (g_schema_path rule)
      (map (\<lambda>part. if part = ''*'' then fresh else part) (g_schema_path rule))"
    using wf_grantD(4) [OF assms(1)] assms(3,4)
    by (auto simp: list_all2_map2 component_matches_def intro!: list.rel_refl_strong)
  then show ?thesis
    using assms wf_grantD [OF assms(1)] by (auto simp: FunctionMatches_def NamespaceMatches_def)
qed

lemma rule_survivesE:
  assumes "rule_survives p name rule"
  obtains kind where "g_name rule = Lower name" "kind \<in> set function_kinds"
    "g_type rule = [] \<or> g_type rule = kind"
    "\<And>block. block \<in> set (blocked_functions p) \<Longrightarrow> \<not> BlockCovers block
       \<lparr>g_catalog = g_catalog rule, g_schema_path = g_schema_path rule, g_name = Lower name, g_type = kind\<rparr>"
  using assms by (auto simp: rule_survives_def list_ex_iff split: if_splits)

text \<open>The instance of a surviving rule passes every refusal of \<open>FunctionAllowed\<close>.\<close>

lemma rule_instance_not_refused:
  assumes wf: "wf_grant rule" and surv: "rule_survives p name rule" and nb: "\<not> NeverBind name"
  obtains kind where "SupportedFunctionKind kind" "g_name rule = Lower name"
    "g_type rule = [] \<or> g_type rule = kind"
    "\<And>internal. \<not> FunctionDenied p (rule_instance (fresh_name (block_names p)) rule kind internal)"
proof -
  from surv obtain kind where k: "g_name rule = Lower name" "kind \<in> set function_kinds"
    "g_type rule = [] \<or> g_type rule = kind"
    "\<And>block. block \<in> set (blocked_functions p) \<Longrightarrow> \<not> BlockCovers block
       \<lparr>g_catalog = g_catalog rule, g_schema_path = g_schema_path rule, g_name = Lower name, g_type = kind\<rparr>"
    by (rule rule_survivesE) blast
  have "\<not> FunctionBlocked p (rule_instance (fresh_name (block_names p)) rule kind internal)" for internal
    using rule_instance_unblocked [OF wf] k(1,4) by (auto simp: FunctionBlocked_def list_ex_iff)
  moreover have "\<not> NeverBind (g_name rule)" using nb k(1) by (simp add: NeverBind_def)
  ultimately show ?thesis
    using that k by (simp add: FunctionDenied_def SupportedFunctionKind_def)
qed

lemma FunctionEligible_instance:
  assumes wfp: "wf_policy p" and wfi: "wf_inventory inventory" and el: "FunctionEligible inventory p name"
  shows "\<exists>i. Lower (i_name i) = Lower name \<and> FunctionAllowed inventory p i"
proof -
  let ?f = "fresh_name (block_names p)"
  from el have nb: "\<not> NeverBind name" by (auto simp: FunctionEligible_def split: if_splits)
  from el consider (dflt) rule where "defaults p" "rule \<in> set inventory" "rule_survives p name rule"
    | (grant) rule where "rule \<in> set (allowed_functions p)" "rule_survives p name rule"
    by (auto simp: FunctionEligible_def list_ex_iff split: if_splits)
  then show ?thesis
  proof cases
    case dflt
    with wfi have wd: "wf_default rule" by (simp add: wf_inventory_def list_all_iff)
    note wf = wf_default_grant [OF wd]
    from rule_instance_not_refused [OF wf dflt(3) nb] obtain kind where
      k: "SupportedFunctionKind kind" "g_name rule = Lower name" "g_type rule = [] \<or> g_type rule = kind"
        "\<And>internal. \<not> FunctionDenied p (rule_instance ?f rule kind internal)" by blast
    from k(3) wd have kind: "g_type rule = kind"
      by (auto simp: wf_default_def SupportedFunctionKind_def function_kinds_def)
    let ?i = "rule_instance ?f rule kind (Some True)"
    from wd have "i_catalog ?i = g_catalog rule" "i_schema_path ?i = g_schema_path rule"
      by (auto simp: wf_default_def wf_identifier_def intro!: map_idI)
    moreover have "FoldPath (g_schema_path rule) = g_schema_path rule"
      using wd by (intro wf_path_star_free_exact) (simp add: wf_default_def)
    moreover have "\<forall>part\<in>set (g_schema_path rule). part \<noteq> []" using wf_grantD(4) [OF wf] by blast
    moreover have "\<lparr>g_catalog = g_catalog rule, g_schema_path = g_schema_path rule,
        g_name = g_name rule, g_type = kind\<rparr> = rule" using kind by simp
    moreover have "g_catalog rule \<noteq> []" using wd by (simp add: wf_default_def wf_identifier_def)
    ultimately have "FunctionAllowed inventory p ?i"
      using dflt(1,2) k(1,4) wf_grantD(1-3,5) [OF wf]
      by (simp add: FunctionAllowed_def list_ex_iff del: rule_instance_sel(1,2))
    with k(2) show ?thesis by (intro exI [of _ ?i]) simp
  next
    case grant
    with wfp have wf: "wf_grant rule" by (simp add: wf_policy_def list_all_iff)
    from rule_instance_not_refused [OF wf grant(2) nb] obtain kind where
      k: "SupportedFunctionKind kind" "g_name rule = Lower name" "g_type rule = [] \<or> g_type rule = kind"
        "\<And>internal. \<not> FunctionDenied p (rule_instance ?f rule kind internal)" by blast
    let ?i = "rule_instance ?f rule kind (Some False)"
    have "FunctionMatches rule ?i False" by (rule rule_instance_matches [OF wf k(3)]) simp_all
    moreover have "\<forall>part\<in>set (i_schema_path ?i). part \<noteq> []" using wf_grantD(4) [OF wf] by auto
    ultimately have "FunctionAllowed inventory p ?i"
      using grant(1) k wf_grantD [OF wf] by (auto simp: FunctionAllowed_def list_ex_iff)
    with k(2) show ?thesis by (intro exI [of _ ?i]) simp
  qed
qed

section \<open>The access-rule interface\<close>

text \<open>
  What both kinds of rules promise the layers above them: a denial wins over every grant,
  and a policy that is rule-wise narrower never grants more. Everything the layered check
  relies on follows once, here.
\<close>

locale access_rules =
  fixes granted :: "Policy \<Rightarrow> 'o \<Rightarrow> bool"
    and denied :: "Policy \<Rightarrow> 'o \<Rightarrow> bool"
    and narrower :: "Policy \<Rightarrow> Policy \<Rightarrow> bool"
  assumes deny_wins: "denied p x \<Longrightarrow> \<not> granted p x"
    and narrower_grants: "narrower p q \<Longrightarrow> granted p x \<Longrightarrow> granted q x"
begin

lemma layered_not_denied:
  "Layers_All (\<lambda>p. granted p x) l \<Longrightarrow> \<not> denied (ceiling_layer l) x \<and> \<not> denied (request_layer l) x"
  using deny_wins by (auto simp: Layers_All_def)

lemma layered_under_ceiling:
  "{x. Layers_All (\<lambda>p. granted p x) l} \<subseteq> {x. granted (ceiling_layer l) x}"
  by (auto simp: Layers_All_def)

lemma layered_narrower:
  "narrower (request_layer l) (ceiling_layer l) \<Longrightarrow> Layers_All (\<lambda>p. granted p x) l = granted (request_layer l) x"
  using narrower_grants by (auto simp: Layers_All_def)

lemma layered_same: "ceiling_layer l = request_layer l \<Longrightarrow> Layers_All (\<lambda>p. granted p x) l = granted (request_layer l) x"
  by (simp add: Layers_All_def)

end

interpretation table_rules: access_rules
  "\<lambda>p (c, s, t, internal). TableAllowed p c s t internal"
  "\<lambda>p (c, s, t, internal). TableBlocked p c s t"
  narrower_tables
  by unfold_locales (auto dest: TableAllowed_not_blocked intro: TableAllowed_narrower)

interpretation function_rules: access_rules
  "FunctionAllowed inventory" FunctionDenied narrower_functions for inventory
  by unfold_locales (auto dest: FunctionDenied_not_allowed intro: FunctionAllowed_narrower)

section \<open>Properties\<close>

text \<open>A policy of the shape the documentation's quick start configures.\<close>

definition sample_policy :: Policy where
  "sample_policy = \<lparr>defaults = True, tables = True,
     allowed_functions = [\<lparr>g_catalog = [], g_schema_path = [''*''], g_name = ''score'', g_type = []\<rparr>],
     blocked_functions = [\<lparr>g_catalog = ''system'', g_schema_path = [''main''], g_name = ''md5'',
       g_type = ''scalar''\<rparr>],
     allowed_tables = [\<lparr>t_catalog = ''memory'', t_schema_path = [''reporting''], t_table = ''*''\<rparr>],
     blocked_tables = [\<lparr>t_catalog = [], t_schema_path = [''reporting''], t_table = ''salaries''\<rparr>]\<rparr>"

definition sample_inventory :: "FunctionGrant list" where
  "sample_inventory =
     [\<lparr>g_catalog = ''system'', g_schema_path = [''main''], g_name = ''md5'', g_type = ''scalar''\<rparr>,
      \<lparr>g_catalog = ''system'', g_schema_path = [''main''], g_name = ''sum'', g_type = ''aggregate''\<rparr>]"

lemma sample_policy_wf: "wf_policy sample_policy"
  by code_simp

lemma sample_inventory_wf: "wf_inventory sample_inventory"
  by code_simp

text \<open>C11. Table authorization is exactly the denotation of its rules: a resolved object is
  admitted iff no block denotes it and either tables are unrestricted and the object is not
  internal, or some grant denotes it, where internal objects accept only the exact reading
  and never a resolved name \<open>'*'\<close>.\<close>

theorem TableAllowed_denotation:
  assumes "resolved_object c s t"
  shows "TableAllowed p c s t internal \<longleftrightarrow>
    (\<forall>rule\<in>set (blocked_tables p). ObjectKey c s t \<notin> table_denotes False rule) \<and>
    (\<not> tables p \<and> \<not> internal \<or>
     \<not> (internal \<and> (''*'' \<in> set (FoldPath s) \<or> t = ''*'')) \<and>
     (\<exists>rule\<in>set (allowed_tables p). ObjectKey c s t \<in> table_denotes internal rule))"
  using TableMatches_iff [OF assms] unfolding TableAllowed_def Let_def by auto

theorem TableAllowed_denotation_witness:
  "resolved_object ''memory'' [''Reporting''] ''orders'' \<and>
   (TableAllowed sample_policy ''memory'' [''Reporting''] ''orders'' False \<longleftrightarrow>
    (\<forall>rule\<in>set (blocked_tables sample_policy).
       ObjectKey ''memory'' [''Reporting''] ''orders'' \<notin> table_denotes False rule) \<and>
    (\<not> tables sample_policy \<and> \<not> False \<or>
     \<not> (False \<and> (''*'' \<in> set (FoldPath [''Reporting'']) \<or> ''orders'' = ''*'')) \<and>
     (\<exists>rule\<in>set (allowed_tables sample_policy).
       ObjectKey ''memory'' [''Reporting''] ''orders'' \<in> table_denotes False rule)))"
proof -
  have h: "resolved_object ''memory'' [''Reporting''] ''orders''" by code_simp
  show ?thesis using h TableAllowed_denotation [OF h] by blast
qed

text \<open>C39. The set-index shortcut of \<open>TableMatches\<close> changes no decision on a resolved object:
  looking the key up first and scanning the wildcard rules afterwards decides as the plain
  scan of every rule does.\<close>

theorem TableMatches_index_equiv:
  assumes "resolved_object c s t" and "internal \<Longrightarrow> ''*'' \<notin> set (FoldPath s) \<and> t \<noteq> ''*''"
  shows "TableMatches rules (ObjectKey c s t) internal =
    list_ex (table_rule_matches internal (ObjectKey c s t)) rules"
  using TableMatches_iff [OF assms(1)] table_rule_matches_iff [OF assms(1)] assms(2)
  by (auto simp: list_ex_iff)

theorem TableMatches_index_equiv_witness:
  "resolved_object ''memory'' [''main''] ''t'' \<and> ''*'' \<notin> set (FoldPath [''main'']) \<and> ''t'' \<noteq> ''*'' \<and>
   TableMatches (allowed_tables sample_policy) (ObjectKey ''memory'' [''main''] ''t'') True =
   list_ex (table_rule_matches True (ObjectKey ''memory'' [''main''] ''t'')) (allowed_tables sample_policy)"
proof -
  have h: "resolved_object ''memory'' [''main''] ''t''" by code_simp
  have i: "''*'' \<notin> set (FoldPath [''main'']) \<and> ''t'' \<noteq> ''*''" by code_simp
  show ?thesis using h i TableMatches_index_equiv [OF h i] by blast
qed

text \<open>C13. An internal object is readable only through a grant that spells its schema path and
  table exactly; neither the unrestricted default nor a wildcard grant reaches it.\<close>

theorem internal_object_needs_exact_grant:
  assumes "TableAllowed p c s t True"
  shows "\<exists>rule\<in>set (allowed_tables p). t_schema_path rule = FoldPath s \<and> t_table rule = Lower t \<and>
    ''*'' \<notin> set (t_schema_path rule) \<and> t_table rule \<noteq> ''*'' \<and>
    catalog_denotes (t_catalog rule) (Lower c)"
proof -
  let ?key = "ObjectKey c s t"
  from assms have m: "TableMatches (allowed_tables p) ?key True"
    by (simp add: TableAllowed_def Let_def)
  then have star: "''*'' \<notin> set (FoldPath s)" "Lower t \<noteq> ''*''"
    by (auto simp: TableMatches_def split: if_splits)
  from m consider "?key \<in> set (allowed_tables p)"
    | rule where "rule \<in> set (allowed_tables p)" "table_rule_matches True ?key rule"
    by (auto simp: TableMatches_def list_ex_iff split: if_splits)
  then show ?thesis
  proof cases
    case 1
    with star show ?thesis by (intro bexI [of _ ?key]) (simp_all add: catalog_denotes_def)
  next
    case 2
    then have ns: "NamespaceMatches (t_catalog rule) (t_schema_path rule) (Lower c) (FoldPath s) True"
      and tb: "t_table rule = Lower t"
      by (simp_all add: table_rule_matches_def)
    have "list_all2 (\<lambda>x y. x = y) (t_schema_path rule) (FoldPath (FoldPath s))"
      using NamespaceMatchesD(5) [OF ns]
      unfolding FoldPath_def list_all2_map2 by (rule list_all2_mono) (simp add: component_matches_def)
    then have "t_schema_path rule = FoldPath s" by (simp add: list_all2_eq_iff)
    with star tb 2(1) NamespaceMatchesD(4) [OF ns] show ?thesis
      by (intro bexI [of _ rule]) (simp_all add: catalog_denotes_def)
  qed
qed

theorem internal_object_needs_exact_grant_witness:
  "TableAllowed (sample_policy\<lparr>allowed_tables := [ObjectKey ''system'' [''main''] ''t'']\<rparr>)
     ''system'' [''main''] ''T'' True \<and>
   (\<exists>rule\<in>set (allowed_tables (sample_policy\<lparr>allowed_tables := [ObjectKey ''system'' [''main''] ''t'']\<rparr>)).
     t_schema_path rule = FoldPath [''main''] \<and> t_table rule = Lower ''T'' \<and>
     ''*'' \<notin> set (t_schema_path rule) \<and> t_table rule \<noteq> ''*'' \<and>
     catalog_denotes (t_catalog rule) (Lower ''system''))"
proof -
  have h: "TableAllowed (sample_policy\<lparr>allowed_tables := [ObjectKey ''system'' [''main''] ''t'']\<rparr>)
     ''system'' [''main''] ''T'' True" by code_simp
  show ?thesis using h internal_object_needs_exact_grant [OF h] by blast
qed

text \<open>C12. The pre-bind screen is exact: for a stored policy and the embedded inventory, a leaf
  name is eligible iff some resolved identity with that leaf would be authorized. The screen
  refuses no query that could pass and passes no name that no identity could satisfy.\<close>

theorem FunctionEligible_exact:
  assumes "wf_policy p" and "wf_inventory inventory"
  shows "FunctionEligible inventory p name \<longleftrightarrow>
    (\<exists>i. Lower (i_name i) = Lower name \<and> FunctionAllowed inventory p i)"
proof
  show "FunctionEligible inventory p name \<Longrightarrow>
      \<exists>i. Lower (i_name i) = Lower name \<and> FunctionAllowed inventory p i"
    using assms by (rule FunctionEligible_instance)
next
  assume "\<exists>i. Lower (i_name i) = Lower name \<and> FunctionAllowed inventory p i"
  then obtain i where i: "Lower (i_name i) = Lower name" "FunctionAllowed inventory p i" by blast
  from FunctionAllowed_eligible [OF i(2)] show "FunctionEligible inventory p name"
    using FunctionEligible_fold [OF i(1)] by blast
qed

theorem FunctionEligible_exact_witness:
  "wf_policy sample_policy \<and> wf_inventory sample_inventory \<and>
   (FunctionEligible sample_inventory sample_policy ''MD5'' \<longleftrightarrow>
    (\<exists>i. Lower (i_name i) = Lower ''MD5'' \<and> FunctionAllowed sample_inventory sample_policy i))"
  using sample_policy_wf sample_inventory_wf
    FunctionEligible_exact [OF sample_policy_wf sample_inventory_wf, of "''MD5''"] by blast

text \<open>C14. Gatekeeper's control plane and every other never-bind name are beyond every policy:
  whatever the grants, the defaults and the case of the spelling, such an identity is neither
  authorized nor eligible before binding.\<close>

theorem NeverBind_beyond_policy:
  assumes "ControlPlane (i_name i) \<or> NeverBind (i_name i)"
  shows "\<not> FunctionAllowed inventory p i \<and> \<not> FunctionEligible inventory p (i_name i) \<and> FunctionDenied p i"
  using assms ControlPlane_NeverBind
  by (auto simp: FunctionAllowed_def FunctionDenied_def FunctionEligible_def)

theorem NeverBind_beyond_policy_witness:
  "(ControlPlane (i_name (identity ''system'' [''main''] ''Gatekeeper_Configure'' ''table'' (Some True))) \<or>
    NeverBind (i_name (identity ''system'' [''main''] ''Gatekeeper_Configure'' ''table'' (Some True)))) \<and>
   \<not> FunctionAllowed sample_inventory sample_policy
       (identity ''system'' [''main''] ''Gatekeeper_Configure'' ''table'' (Some True)) \<and>
   \<not> FunctionEligible sample_inventory sample_policy
       (i_name (identity ''system'' [''main''] ''Gatekeeper_Configure'' ''table'' (Some True))) \<and>
   FunctionDenied sample_policy
       (identity ''system'' [''main''] ''Gatekeeper_Configure'' ''table'' (Some True))"
proof -
  have h: "ControlPlane (i_name (identity ''system'' [''main''] ''Gatekeeper_Configure'' ''table'' (Some True))) \<or>
    NeverBind (i_name (identity ''system'' [''main''] ''Gatekeeper_Configure'' ''table'' (Some True)))"
    by code_simp
  show ?thesis using h NeverBind_beyond_policy [OF h] by blast
qed

text \<open>C16. A request layer only narrows: what both layers admit is admitted by the ceiling and
  blocked by neither layer, and when the request is rule-wise narrower the layered decision is
  the request's own, for tables and for functions alike.\<close>

theorem request_layer_only_narrows:
  "(Layers_All (\<lambda>p. TableAllowed p c s t internal) l \<longrightarrow>
      TableAllowed (ceiling_layer l) c s t internal \<and> \<not> TableBlocked (ceiling_layer l) c s t \<and>
      \<not> TableBlocked (request_layer l) c s t) \<and>
   (Layers_All (\<lambda>p. FunctionAllowed inventory p i) l \<longrightarrow>
      FunctionAllowed inventory (ceiling_layer l) i \<and> \<not> FunctionDenied (ceiling_layer l) i \<and>
      \<not> FunctionDenied (request_layer l) i) \<and>
   (narrower_tables (request_layer l) (ceiling_layer l) \<longrightarrow>
      Layers_All (\<lambda>p. TableAllowed p c s t internal) l = TableAllowed (request_layer l) c s t internal) \<and>
   (narrower_functions (request_layer l) (ceiling_layer l) \<longrightarrow>
      Layers_All (\<lambda>p. FunctionAllowed inventory p i) l = FunctionAllowed inventory (request_layer l) i)"
  using table_rules.layered_not_denied [of "(c, s, t, internal)" l]
    table_rules.layered_narrower [of l "(c, s, t, internal)"]
    function_rules.layered_not_denied [of inventory i l]
    function_rules.layered_narrower [of l inventory i]
  by (auto simp: Layers_All_def)

definition sample_layers :: Layers where
  "sample_layers = \<lparr>ceiling_layer = sample_policy,
     request_layer = sample_policy\<lparr>allowed_functions := [],
       blocked_tables := blocked_tables sample_policy @ [ObjectKey ''memory'' [''reporting''] ''drafts'']\<rparr>\<rparr>"

theorem request_layer_only_narrows_witness:
  "narrower_tables (request_layer sample_layers) (ceiling_layer sample_layers) \<and>
   narrower_functions (request_layer sample_layers) (ceiling_layer sample_layers) \<and>
   Layers_All (\<lambda>p. TableAllowed p ''memory'' [''reporting''] ''orders'' False) sample_layers =
     TableAllowed (request_layer sample_layers) ''memory'' [''reporting''] ''orders'' False \<and>
   Layers_All (\<lambda>p. FunctionAllowed sample_inventory p
       (identity ''system'' [''main''] ''sum'' ''aggregate'' (Some True))) sample_layers =
     FunctionAllowed sample_inventory (request_layer sample_layers)
       (identity ''system'' [''main''] ''sum'' ''aggregate'' (Some True)) \<and>
   TableAllowed (ceiling_layer sample_layers) ''memory'' [''reporting''] ''orders'' False"
proof -
  have n: "narrower_tables (request_layer sample_layers) (ceiling_layer sample_layers)"
    "narrower_functions (request_layer sample_layers) (ceiling_layer sample_layers)"
    by (auto simp: narrower_tables_def narrower_functions_def sample_layers_def)
  have a: "Layers_All (\<lambda>p. TableAllowed p ''memory'' [''reporting''] ''orders'' False) sample_layers"
    by code_simp
  show ?thesis
    using n a request_layer_only_narrows [of "''memory''" "[''reporting'']" "''orders''" False sample_layers
      sample_inventory "identity ''system'' [''main''] ''sum'' ''aggregate'' (Some True)"]
    by blast
qed

text \<open>C40. Decisions do not depend on the case in which DuckDB or the caller spells catalog,
  schema, object or function names.\<close>

theorem decisions_case_insensitive:
  "TableAllowed p (Lower c) (FoldPath s) (Lower t) internal = TableAllowed p c s t internal \<and>
   TableBlocked p (Lower c) (FoldPath s) (Lower t) = TableBlocked p c s t \<and>
   FunctionAllowed inventory p (identity (Lower c) (FoldPath s) (Lower n) k flag) =
     FunctionAllowed inventory p (identity c s n k flag) \<and>
   FunctionEligible inventory p (Lower n) = FunctionEligible inventory p n"
proof -
  have "FunctionMatches rule (identity (Lower c) (FoldPath s) (Lower n) k flag) exact =
      FunctionMatches rule (identity c s n k flag) exact" for rule exact
    by (simp add: FunctionMatches_def identity_def NamespaceMatches_fold)
  moreover have "list_ex (\<lambda>part. part = []) (FoldPath s) = list_ex (\<lambda>part. part = []) s"
    by (induction s) simp_all
  ultimately have "FunctionAllowed inventory p (identity (Lower c) (FoldPath s) (Lower n) k flag) =
      FunctionAllowed inventory p (identity c s n k flag)"
    by (simp add: FunctionAllowed_def FunctionDenied_def FunctionBlocked_def NeverBind_def identity_def
        cong: if_cong)
  then show ?thesis
    using FunctionEligible_fold [of "Lower n" n] by (simp add: TableAllowed_def TableBlocked_def)
qed

end
