(* ===== verification/Provenance_Model.thy ===== *)
theory Provenance_Model
  imports Function_Policy
begin

text \<open>
  Attribution (\<open>Provenance\<close> in \<open>src/src/validator.cpp\<close>): which functions and objects of a
  bound plan belong to the caller's text and which to trusted definitions.
\<close>

section \<open>Definitions\<close>

definition Provenance_RecordFunction :: "Identity \<Rightarrow> bool \<Rightarrow> nat \<Rightarrow> Provenance \<Rightarrow> Provenance" where
  "Provenance_RecordFunction source caller engine_major pr =
     (let i = FunctionKey source;
          pr1 = pr\<lparr>function_entries := std_insert Identity_key i (function_entries pr)\<rparr>;
          recorded = (if 2 \<le> engine_major then [i]
            else map (\<lambda>name. identity (i_catalog i) (i_schema_path i) name (i_type i) (i_internal i))
                   (FunctionImplementations i engine_major))
      in if caller
         then pr1\<lparr>caller_implementations :=
                std_insert_all Identity_key recorded (caller_implementations pr1)\<rparr>
         else pr1\<lparr>trusted_implementations :=
                std_insert_all Identity_key recorded (trusted_implementations pr1)\<rparr>)"

definition CallerCanName :: "Provenance \<Rightarrow> BindingPolicy \<Rightarrow> string \<Rightarrow> bool" where
  "CallerCanName pr binding name \<longleftrightarrow>
     (let canonical = Lower name
      in canonical \<in> set (caller_functions binding) \<or>
         canonical \<in> set (synthesized_functions binding) \<or>
         canonical \<in> set (literal_constructors binding) \<or>
         canonical \<in> set (caller_expansions pr) \<or>
         (caller_collates binding \<and> CollationFunction canonical))"

definition Attributable :: "Provenance \<Rightarrow> BindingPolicy \<Rightarrow> string \<Rightarrow> bool" where
  "Attributable pr binding name \<longleftrightarrow>
     (if unattributed pr then False
      else CallerCanName pr binding name \<or> Lower name \<in> set (caller_lookups pr))"

definition ref_names :: "Table \<Rightarrow> NamePath \<Rightarrow> bool" where
  "ref_names key ref \<longleftrightarrow>
     (let full = [t_catalog key] @ t_schema_path key @ [t_table key]
      in if ref = [] \<or> last ref \<noteq> t_table key then False
         else if length ref \<le> length full \<and> take (length ref) (rev full) = rev ref then True
         else if length ref = 2 \<and> hd ref = t_catalog key then True
         else length ref = 3 \<and> ref ! 0 = t_catalog key \<and> ref ! 1 = [])"

definition NamesObject :: "WrittenNames \<Rightarrow> string \<Rightarrow> NamePath \<Rightarrow> string \<Rightarrow> bool" where
  "NamesObject written catalog schema_path table \<longleftrightarrow>
     list_ex (ref_names (ObjectKey catalog schema_path table)) written"

definition CallerNamesObject ::
    "BindingPolicy \<Rightarrow> string \<Rightarrow> NamePath \<Rightarrow> string \<Rightarrow> bool" where
  "CallerNamesObject binding catalog schema_path table \<longleftrightarrow>
     NamesObject (caller_table_names binding) catalog schema_path table"

definition ObjectAttributable ::
    "Provenance \<Rightarrow> BindingPolicy \<Rightarrow> string \<Rightarrow> NamePath \<Rightarrow> string \<Rightarrow> bool" where
  "ObjectAttributable pr binding catalog schema_path table \<longleftrightarrow>
     (if unattributed pr then False
      else
        (let key = ObjectKey catalog schema_path table
         in if key \<in> set (caller_objects pr) \<or>
               CallerNamesObject binding catalog schema_path table then True
            else key \<notin> set (trusted_objects pr)))"

section \<open>Written names\<close>

lemma ref_names_iff:
  "ref_names key ref \<longleftrightarrow>
     ref \<noteq> [] \<and> suffix ref (t_catalog key # t_schema_path key @ [t_table key]) \<or>
     ref = [t_catalog key, t_table key] \<or> ref = [t_catalog key, [], t_table key]"
proof -
  let ?full = "t_catalog key # t_schema_path key @ [t_table key]"
  have eq: "length ref \<le> length ?full \<and> take (length ref) (rev ?full) = rev ref \<longleftrightarrow> suffix ref ?full"
  proof
    assume "length ref \<le> length ?full \<and> take (length ref) (rev ?full) = rev ref"
    then have "prefix (rev ref) (rev ?full)" by (metis take_is_prefix)
    then show "suffix ref ?full" by (simp only: suffix_to_prefix)
  next
    assume "suffix ref ?full"
    then obtain zs where "?full = zs @ ref" by (auto simp: suffix_def)
    then have "length ?full = length zs + length ref" "rev ?full = rev ref @ rev zs" by simp_all
    then show "length ref \<le> length ?full \<and> take (length ref) (rev ?full) = rev ref" by simp
  qed
  have last: "last ref = t_table key" if "ref \<noteq> []" "suffix ref ?full"
    using that by (auto simp: suffix_def) (metis last.simps last_appendR last_snoc snoc_eq_iff_butlast)
  have two: "length ref = 2 \<and> hd ref = t_catalog key \<and> last ref = t_table key \<longleftrightarrow>
      ref = [t_catalog key, t_table key]"
    by (cases ref; cases "tl ref"; cases "tl (tl ref)") auto
  have three: "length ref = 3 \<and> ref ! 0 = t_catalog key \<and> ref ! 1 = [] \<and> last ref = t_table key \<longleftrightarrow>
      ref = [t_catalog key, [], t_table key]"
    by (cases ref; cases "tl ref"; cases "tl (tl ref)"; cases "tl (tl (tl ref))") auto
  show ?thesis
    using eq last two three unfolding ref_names_def Let_def append_Cons append_Nil by auto
qed

lemma NamesObject_mono: "set ws \<subseteq> set ws' \<Longrightarrow> NamesObject ws c s t \<Longrightarrow> NamesObject ws' c s t"
  by (auto simp: NamesObject_def list_ex_iff)

section \<open>Recorded functions\<close>

lemma FunctionKey_sel [simp]:
  "i_catalog (FunctionKey i) = Lower (i_catalog i)"
  "i_schema_path (FunctionKey i) = FoldPath (i_schema_path i)"
  "i_name (FunctionKey i) = Lower (i_name i)"
  "i_type (FunctionKey i) = Lower (i_type i)"
  "i_internal (FunctionKey i) = i_internal i"
  by (simp_all add: FunctionKey_def)

lemma FunctionKey_idem [simp]: "FunctionKey (FunctionKey i) = FunctionKey i"
  by (simp add: FunctionKey_def)

lemma FunctionImplementations_name: "Lower (i_name i) \<in> set (FunctionImplementations i m)"
  by (auto simp: FunctionImplementations_def Let_def)

lemma Identity_key_FunctionKey_own:
  "Identity_key (identity (i_catalog (FunctionKey i)) (i_schema_path (FunctionKey i))
     (Lower (i_name (FunctionKey i))) (i_type (FunctionKey i)) f) = Identity_key (FunctionKey i)"
  by (simp add: Identity_key_def identity_def)

lemma RecordFunction_recorded:
  "Identity_key (FunctionKey i) \<in> Identity_key ` set
     ((if caller then caller_implementations else trusted_implementations)
        (Provenance_RecordFunction i caller m pr))"
proof -
  have "Identity_key (FunctionKey i) \<in> Identity_key ` set (if 2 \<le> m then [FunctionKey i]
      else map (\<lambda>name. identity (i_catalog (FunctionKey i)) (i_schema_path (FunctionKey i)) name
          (i_type (FunctionKey i)) (i_internal (FunctionKey i))) (FunctionImplementations (FunctionKey i) m))"
    using FunctionImplementations_name [of "FunctionKey i" m] Identity_key_FunctionKey_own [of i]
    by (auto simp: image_iff intro!: bexI)
  then show ?thesis
    unfolding Provenance_RecordFunction_def Let_def by (auto simp del: FunctionKey_sel)
qed

lemma RecordFunction_other_side:
  "(if caller then trusted_implementations else caller_implementations)
     (Provenance_RecordFunction i caller m pr) =
   (if caller then trusted_implementations else caller_implementations) pr"
  by (simp add: Provenance_RecordFunction_def Let_def)

lemma std_insert_known: "key x \<in> key ` set s \<Longrightarrow> std_insert key x s = s"
  by (simp add: std_insert_code)

section \<open>Properties\<close>

text \<open>C33. Which written references name a resolved object: the nonempty suffixes of its
  catalog, schema path and table, the catalog with its default schema omitted, and the
  catalog with the empty schema placeholder of 1.5, all case-folded; nothing else.\<close>

theorem NamesObject_exact:
  "NamesObject written c s t \<longleftrightarrow>
     (\<exists>ref\<in>set written.
        ref \<noteq> [] \<and> suffix ref (Lower c # FoldPath s @ [Lower t]) \<or>
        ref = [Lower c, Lower t] \<or> ref = [Lower c, [], Lower t])"
  by (simp add: NamesObject_def list_ex_iff ref_names_iff)


definition sample_provenance :: Provenance where
  "sample_provenance = empty_provenance\<lparr>trusted_objects := [ObjectKey ''memory'' [''raw''] ''events'']\<rparr>"


text \<open>Recording a function is idempotent evidence: the entry becomes observable under its
  folded key on the side that recorded it, the other side is untouched, an origin flag already
  observed for that key is never overwritten, and the observed entries stay an ordered set.\<close>

lemma RecordFunction_evidence:
  assumes "std_ordered Identity_key (function_entries pr)"
  shows "Identity_key (FunctionKey i) \<in> Identity_key ` set
      ((if caller then caller_implementations else trusted_implementations)
        (Provenance_RecordFunction i caller m pr)) \<and>
    (if caller then trusted_implementations else caller_implementations)
      (Provenance_RecordFunction i caller m pr) =
    (if caller then trusted_implementations else caller_implementations) pr \<and>
    std_ordered Identity_key (function_entries (Provenance_RecordFunction i caller m pr)) \<and>
    Identity_key ` set (function_entries (Provenance_RecordFunction i caller m pr)) =
      insert (Identity_key (FunctionKey i)) (Identity_key ` set (function_entries pr)) \<and>
    (Identity_key (FunctionKey i) \<in> Identity_key ` set (function_entries pr) \<longrightarrow>
      function_entries (Provenance_RecordFunction i caller m pr) = function_entries pr)"
proof -
  have fe: "function_entries (Provenance_RecordFunction i caller m pr) =
      std_insert Identity_key (FunctionKey i) (function_entries pr)"
    by (simp add: Provenance_RecordFunction_def Let_def)
  show ?thesis
    unfolding fe using RecordFunction_recorded RecordFunction_other_side assms
    by (auto simp: std_insert_known)
qed

end
