(* ===== verification/Json_Model.thy ===== *)
theory Json_Model
  imports Name_Path Complex_Main "HOL-Library.Word"
begin

text \<open>
  JSON documents as the sources read them through yyjson. A \<open>yyjson_val *\<close> is a
  \<open>json option\<close>: every accessor accepts the null pointer and a value of another kind,
  and answers with null, an empty string or an empty iteration, as yyjson does. An object keeps
  its members in document order, duplicates included; a lookup answers with the first.
  Numbers keep yyjson's three subtypes; a real is the exact rational its double denotes.
\<close>

datatype json =
    JNull
  | JBool bool
  | JUint "64 word"
  | JSint "64 word"
  | JReal rat
  | JStr string
  | JArr "json list"
  | JObj "(string \<times> json) list"

type_synonym json_ptr = "json option"

definition is_str :: "json_ptr \<Rightarrow> bool" where
  "is_str v = (case v of Some (JStr _) \<Rightarrow> True | _ \<Rightarrow> False)"

definition is_bool :: "json_ptr \<Rightarrow> bool" where
  "is_bool v = (case v of Some (JBool _) \<Rightarrow> True | _ \<Rightarrow> False)"

definition is_true :: "json_ptr \<Rightarrow> bool" where
  "is_true v = (v = Some (JBool True))"

definition is_null :: "json_ptr \<Rightarrow> bool" where
  "is_null v = (v = Some JNull)"

definition is_num :: "json_ptr \<Rightarrow> bool" where
  "is_num v = (case v of Some (JUint _) \<Rightarrow> True | Some (JSint _) \<Rightarrow> True | Some (JReal _) \<Rightarrow> True
     | _ \<Rightarrow> False)"

definition is_arr :: "json_ptr \<Rightarrow> bool" where
  "is_arr v = (case v of Some (JArr _) \<Rightarrow> True | _ \<Rightarrow> False)"

definition is_obj :: "json_ptr \<Rightarrow> bool" where
  "is_obj v = (case v of Some (JObj _) \<Rightarrow> True | _ \<Rightarrow> False)"

definition arr_items :: "json_ptr \<Rightarrow> json list" where
  "arr_items v = (case v of Some (JArr xs) \<Rightarrow> xs | _ \<Rightarrow> [])"

definition obj_members :: "json_ptr \<Rightarrow> (string \<times> json) list" where
  "obj_members v = (case v of Some (JObj ms) \<Rightarrow> ms | _ \<Rightarrow> [])"

definition arr_get :: "json_ptr \<Rightarrow> nat \<Rightarrow> json_ptr" where
  "arr_get v i = (if i < length (arr_items v) then Some (arr_items v ! i) else None)"

definition arr_size :: "json_ptr \<Rightarrow> nat" where
  "arr_size v = length (arr_items v)"

definition obj_size :: "json_ptr \<Rightarrow> nat" where
  "obj_size v = length (obj_members v)"

definition obj_get :: "json_ptr \<Rightarrow> string \<Rightarrow> json_ptr" where
  "obj_get v key = map_of (obj_members v) key"

text \<open>The helpers of \<open>validator.cpp\<close> over yyjson.\<close>

definition Text :: "json_ptr \<Rightarrow> string" where
  "Text v = (case v of Some (JStr s) \<Rightarrow> s | _ \<Rightarrow> [])"

definition Field :: "json_ptr \<Rightarrow> string \<Rightarrow> string" where
  "Field v key = Text (obj_get v key)"

definition Position :: "json_ptr \<Rightarrow> int" where
  "Position node = (case obj_get node ''query_location'' of Some (JUint w) \<Rightarrow> sint w | _ \<Rightarrow> -1)"

section \<open>Decimal numerals\<close>

fun to_string :: "nat \<Rightarrow> string" where
  "to_string n =
     (if n < 10 then [char_of (48 + n)] else to_string (n div 10) @ [char_of (48 + n mod 10)])"

declare to_string.simps [simp del]

section \<open>Facts about accessors\<close>

lemma accessor_None [simp]:
  "obj_get None k = None" "arr_items None = []" "obj_members None = []" "Text None = []"
  "Field None k = []" "arr_get None i = None" "arr_size None = 0"
  "is_str None = False" "is_arr None = False" "is_obj None = False" "is_bool None = False"
  "is_num None = False" "is_null None = False" "is_true None = False" "Position None = -1"
  by (simp_all add: obj_get_def arr_items_def obj_members_def Text_def Field_def arr_get_def
      arr_size_def is_str_def is_arr_def is_obj_def is_bool_def is_num_def is_null_def is_true_def
      Position_def)

lemma accessor_kind [simp]:
  "arr_items (Some (JArr xs)) = xs" "obj_members (Some (JObj ms)) = ms"
  "Text (Some (JStr s)) = s" "is_str (Some (JStr s))" "is_arr (Some (JArr xs))"
  "is_obj (Some (JObj ms))" "obj_get (Some (JObj ms)) k = map_of ms k"
  by (simp_all add: arr_items_def obj_members_def Text_def is_str_def is_arr_def is_obj_def obj_get_def)

lemma is_arr_iff: "is_arr v \<longleftrightarrow> (\<exists>xs. v = Some (JArr xs))"
  by (auto simp: is_arr_def split: option.splits json.splits)

lemma is_obj_iff: "is_obj v \<longleftrightarrow> (\<exists>ms. v = Some (JObj ms))"
  by (auto simp: is_obj_def split: option.splits json.splits)

lemma is_str_iff: "is_str v \<longleftrightarrow> (\<exists>s. v = Some (JStr s))"
  by (auto simp: is_str_def split: option.splits json.splits)

lemma obj_get_member: "obj_get v k = Some x \<Longrightarrow> (k, x) \<in> set (obj_members v)"
  by (simp add: obj_get_def map_of_SomeD)

subsection \<open>Sizes\<close>

text \<open>The number of JSON values in a tree; the bound of every traversal.\<close>

fun json_nodes :: "json \<Rightarrow> nat" where
  "json_nodes (JArr xs) = Suc (sum_list (map json_nodes xs))"
| "json_nodes (JObj ms) = Suc (sum_list (map (\<lambda>m. json_nodes (snd m)) ms))"
| "json_nodes _ = 1"

definition ptr_nodes :: "json_ptr \<Rightarrow> nat" where
  "ptr_nodes v = (case v of None \<Rightarrow> 1 | Some j \<Rightarrow> json_nodes j)"

lemma json_nodes_pos [simp]: "0 < json_nodes j"
  by (cases j) simp_all

lemma le_sum_list_map: "x \<in> set xs \<Longrightarrow> (f x :: nat) \<le> sum_list (map f xs)"
  by (intro member_le_sum_list) simp_all

lemma arr_items_smaller: "x \<in> set (arr_items v) \<Longrightarrow> json_nodes x < ptr_nodes v"
  by (auto simp: arr_items_def ptr_nodes_def less_Suc_eq_le le_sum_list_map
      split: option.splits json.splits)

lemma obj_members_smaller: "(k, x) \<in> set (obj_members v) \<Longrightarrow> json_nodes x < ptr_nodes v"
  using le_sum_list_map [of "(k, x)" "obj_members v" "\<lambda>m. json_nodes (snd m)"]
  by (auto simp: obj_members_def ptr_nodes_def less_Suc_eq_le split: option.splits json.splits)

lemma obj_get_smaller: "obj_get v k = Some x \<Longrightarrow> json_nodes x < ptr_nodes v"
  by (blast intro: obj_members_smaller dest: obj_get_member)

end
