(* ===== verification/Engine_Objects.thy ===== *)
theory Engine_Objects
  imports Provenance_Model Json_Model
begin

text \<open>
  What the sources read of the engine's objects: catalog entries, bound functions, expressions and
  plans, as the accessors of \<open>src/src/include/engine_api.hpp\<close> present them. The two engine versions
  the sources compile against differ in where a name is kept; \<open>major\<close> is the engine's major version,
  and every field either version reads is a field of the record.
\<close>

datatype CatalogType =
    TABLE_ENTRY | VIEW_ENTRY | SCALAR_FUNCTION_ENTRY | AGGREGATE_FUNCTION_ENTRY | TABLE_FUNCTION_ENTRY
  | MACRO_ENTRY | TABLE_MACRO_ENTRY | PRAGMA_FUNCTION_ENTRY | WINDOW_FUNCTION_ENTRY | TYPE_ENTRY
  | COLLATION_ENTRY | OTHER_ENTRY string

text \<open>Bind callbacks of one overload: plain, extended, expression-replacing.\<close>

record Overload =
  ov_bind :: bool
  ov_bind_extended :: bool
  ov_bind_expression :: bool

record CatalogEntry =
  ce_type :: CatalogType
  ce_name :: string
  ce_catalog :: string
  ce_catalog_type :: string
  ce_schema_path :: NamePath
  ce_internal :: bool
  ce_overloads :: "Overload list"
  ce_body :: json_ptr
  ce_collation_function :: string

record BoundFunction =
  bf_name :: string
  bf_catalog_name :: string
  bf_schema_name :: string
  bf_path :: NamePath
  bf_definition :: "NamePath option"

definition path_identity :: "NamePath \<Rightarrow> string \<Rightarrow> string \<Rightarrow> Identity" where
  "path_identity path name kind =
     (if length path < 3 \<or> hd path = [] then identity [] [] name kind None
      else identity (hd path) (butlast (tl path)) (last path) kind None)"

definition FunctionIdentity :: "nat \<Rightarrow> BoundFunction \<Rightarrow> string \<Rightarrow> Identity" where
  "FunctionIdentity major f kind =
     (if major \<ge> 2 then path_identity (bf_path f) (bf_name f) kind
      else identity (bf_catalog_name f) (if bf_schema_name f = [] then [] else [bf_schema_name f])
        (bf_name f) kind None)"

definition DefinitionIdentity :: "nat \<Rightarrow> BoundFunction \<Rightarrow> string \<Rightarrow> Identity" where
  "DefinitionIdentity major f kind =
     (if major \<ge> 2 then
        (case bf_definition f of
           Some path \<Rightarrow> path_identity path (if path = [] then [] else last path) kind
         | None \<Rightarrow> no_identity)
      else no_identity)"

definition SystemBuiltin :: "nat \<Rightarrow> BoundFunction \<Rightarrow> bool" where
  "SystemBuiltin major f \<longleftrightarrow>
     (if major \<ge> 2 then length (bf_path f) = 3 \<and> bf_path f ! 0 = ''system'' \<and> bf_path f ! 1 = ''main''
      else bf_catalog_name f = ''system'' \<and> bf_schema_name f = ''main'')"

section \<open>Expressions and plans\<close>

text \<open>
  What can be learned of a function's bind data: whether there is any, whether it can be serialized,
  what that yields, and whether the first argument is an untyped NULL.
\<close>

record FunctionBind =
  fb_null_input :: bool
  fb_present :: bool
  fb_serializable :: bool
  fb_serialized :: json_ptr

datatype expr =
    BoundUnnest "expr list"
  | BoundFunctionE BoundFunction "expr list" FunctionBind "expr option option"
  | BoundAggregateE BoundFunction "expr list"
  | BoundWindowE "BoundFunction option" "BoundFunction option" string "expr list"
  | OtherExpr "expr list"

fun expr_children :: "expr \<Rightarrow> expr list" where
  "expr_children (BoundUnnest es) = es"
| "expr_children (BoundFunctionE _ es _ _) = es"
| "expr_children (BoundAggregateE _ es) = es"
| "expr_children (BoundWindowE _ _ _ es) = es"
| "expr_children (OtherExpr es) = es"

text \<open>The body of a list lambda, if the bind data holds one.\<close>

fun expr_lambda :: "expr \<Rightarrow> expr list" where
  "expr_lambda (BoundFunctionE _ _ _ (Some (Some body))) = [body]"
| "expr_lambda _ = []"

datatype LogicalOperatorType =
    LOGICAL_PROJECTION | LOGICAL_FILTER | LOGICAL_AGGREGATE_AND_GROUP_BY | LOGICAL_WINDOW | LOGICAL_UNNEST
  | LOGICAL_LIMIT | LOGICAL_ORDER_BY | LOGICAL_TOP_N | LOGICAL_DISTINCT | LOGICAL_SAMPLE | LOGICAL_PIVOT
  | LOGICAL_GET | LOGICAL_CHUNK_GET | LOGICAL_DELIM_GET | LOGICAL_EXPRESSION_GET | LOGICAL_DUMMY_SCAN
  | LOGICAL_EMPTY_RESULT | LOGICAL_CTE_REF | LOGICAL_JOIN | LOGICAL_DELIM_JOIN | LOGICAL_COMPARISON_JOIN
  | LOGICAL_ANY_JOIN | LOGICAL_CROSS_PRODUCT | LOGICAL_POSITIONAL_JOIN | LOGICAL_ASOF_JOIN
  | LOGICAL_DEPENDENT_JOIN | LOGICAL_UNION | LOGICAL_EXCEPT | LOGICAL_INTERSECT | LOGICAL_RECURSIVE_CTE
  | LOGICAL_MATERIALIZED_CTE | LOGICAL_SECURE_VIEW | LOGICAL_CREATE_TYPE | LOGICAL_OTHER string

record LogicalGet =
  get_function :: BoundFunction
  get_table :: "CatalogEntry option"

text \<open>
  A parsed query, as far as the sources look into it: what \<open>EnumerateQueryNodeChildren\<close> presents of it,
  in order, expressions with their subqueries and table references with their PIVOT columns. The rest
  of the query is its content, which only the serializer and the binder read.
\<close>

record PivotColumn =
  pc_expressions :: nat
  pc_enum :: string
  pc_entries :: "(string \<times> string list) list"

datatype TableRef = PivotRef "PivotColumn list" | OtherRef

datatype QueryNode = QueryNode (qn_content: string) (qn_children: "node_child list")
and node_child = NodeExpression ParsedExpression | NodeTableRef TableRef
and ParsedExpression = ParsedExpression (pe_subquery: "QueryNode option") (pe_children: "ParsedExpression list")

datatype ParsedQuery = SelectQuery QueryNode | OtherQuery string

text \<open>The CREATE payload of a type: what the enum statements of a dynamic PIVOT are recognized by.\<close>

record CreateInfo =
  ci_type :: CatalogType
  ci_temporary :: bool
  ci_internal :: bool
  ci_replace_on_conflict :: bool
  ci_type_invalid :: bool
  ci_name :: string
  ci_catalog :: string
  ci_schema :: string
  ci_query :: "ParsedQuery option"

datatype LogicalOperator =
  Operator (op_type: LogicalOperatorType) (op_get: "LogicalGet option") (op_create: "CreateInfo option")
    (op_exprs: "expr list") (op_children: "LogicalOperator list")

section \<open>Traversal\<close>

text \<open>
  The two work-list loops over a plan, as the sequence of nodes they visit. The back of each vector
  is the head of the list.
\<close>

lemma size_op_children: "o1 \<in> set (op_children o2) \<Longrightarrow> size o1 < size o2"
  by (cases o2) (auto simp: less_Suc_eq_le trans_le_add2 size_list_estimation')

lemma sum_size_op_children: "sum_list (map size (op_children o2)) < size o2"
  by (cases o2) (simp add: less_Suc_eq_le size_list_conv_sum_list sum_list_addf)

function op_walk :: "LogicalOperator list \<Rightarrow> LogicalOperator list" where
  "op_walk [] = []"
| "op_walk (o1 # stack) = o1 # op_walk (rev (op_children o1) @ stack)"
  by pat_completeness auto
termination
proof (relation "measure (\<lambda>stack. sum_list (map size stack))")
  show "(rev (op_children o1) @ stack, o1 # stack) \<in> measure (\<lambda>stack. sum_list (map size stack))" for o1 stack
    using sum_size_op_children [of o1] by (simp add: rev_map [symmetric])
qed simp

definition expr_next :: "expr \<Rightarrow> expr list" where
  "expr_next e = expr_children e @ expr_lambda e"

lemma sum_size_expr_next: "sum_list (map size (expr_next e)) < size e"
proof (cases e)
  case (BoundFunctionE f es b l)
  consider "l = None" | "l = Some None" | x where "l = Some (Some x)" by (metis option.exhaust)
  then show ?thesis
    by cases (simp_all add: BoundFunctionE expr_next_def size_list_conv_sum_list sum_list_addf)
qed (simp_all add: expr_next_def size_list_conv_sum_list sum_list_addf)

function expr_walk :: "expr list \<Rightarrow> expr list" where
  "expr_walk [] = []"
| "expr_walk (e # stack) = e # expr_walk (rev (expr_next e) @ stack)"
  by pat_completeness auto
termination
proof (relation "measure (\<lambda>stack. sum_list (map size stack))")
  show "(rev (expr_next e) @ stack, e # stack) \<in> measure (\<lambda>stack. sum_list (map size stack))" for e stack
    using sum_size_expr_next [of e] by (simp add: rev_map [symmetric])
qed simp

definition plan_operators :: "LogicalOperator \<Rightarrow> LogicalOperator list" where
  "plan_operators plan = op_walk [plan]"

definition plan_expressions :: "LogicalOperator \<Rightarrow> expr list" where
  "plan_expressions plan = expr_walk (rev (concat (map op_exprs (plan_operators plan))))"

text \<open>The nodes of a plan, independently of any traversal: by descent through the tree, into lambda bodies too.\<close>

inductive op_within :: "LogicalOperator \<Rightarrow> LogicalOperator \<Rightarrow> bool" where
  op_self: "op_within o1 o1"
| op_child: "o2 \<in> set (op_children o1) \<Longrightarrow> op_within o2 o3 \<Longrightarrow> op_within o1 o3"

inductive expr_within :: "expr \<Rightarrow> expr \<Rightarrow> bool" where
  expr_self: "expr_within e e"
| expr_child: "e2 \<in> set (expr_children e1) \<Longrightarrow> expr_within e2 e3 \<Longrightarrow> expr_within e1 e3"
| expr_body: "e2 \<in> set (expr_lambda e1) \<Longrightarrow> expr_within e2 e3 \<Longrightarrow> expr_within e1 e3"

inductive plan_contains :: "LogicalOperator \<Rightarrow> expr \<Rightarrow> bool" where
  "op_within plan o1 \<Longrightarrow> e1 \<in> set (op_exprs o1) \<Longrightarrow> expr_within e1 e \<Longrightarrow> plan_contains plan e"

lemma op_within_iff: "op_within o1 o3 \<longleftrightarrow> o3 = o1 \<or> (\<exists>o2\<in>set (op_children o1). op_within o2 o3)"
  by (subst op_within.simps) auto

lemma expr_within_iff: "expr_within e1 e3 \<longleftrightarrow> e3 = e1 \<or> (\<exists>e2\<in>set (expr_next e1). expr_within e2 e3)"
  by (subst expr_within.simps) (auto simp: expr_next_def)

lemma set_op_walk: "set (op_walk stack) = {o2. \<exists>o1\<in>set stack. op_within o1 o2}"
proof (induction stack rule: op_walk.induct)
  case (2 o1 stack)
  have "{o3. op_within o1 o3} = insert o1 {o3. \<exists>o2\<in>set (op_children o1). op_within o2 o3}"
    using op_within_iff [of o1] by blast
  with 2 show ?case by auto
qed simp

lemma set_expr_walk: "set (expr_walk stack) = {e2. \<exists>e1\<in>set stack. expr_within e1 e2}"
proof (induction stack rule: expr_walk.induct)
  case (2 e stack)
  have "{e3. expr_within e e3} = insert e {e3. \<exists>e2\<in>set (expr_next e). expr_within e2 e3}"
    using expr_within_iff [of e] by blast
  with 2 show ?case by auto
qed simp

lemma set_plan_operators: "set (plan_operators plan) = {o1. op_within plan o1}"
  by (simp add: plan_operators_def set_op_walk del: op_walk.simps)

lemma set_plan_expressions: "set (plan_expressions plan) = {e. plan_contains plan e}"
  by (auto simp: plan_expressions_def set_expr_walk set_plan_operators plan_contains.simps)

lemma length_op_walk: "length (op_walk stack) \<le> sum_list (map size stack)"
proof (induction stack rule: op_walk.induct)
  case (2 o1 stack)
  then show ?case using sum_size_op_children [of o1] by (simp add: rev_map [symmetric])
qed simp

lemma length_expr_walk: "length (expr_walk stack) \<le> sum_list (map size stack)"
proof (induction stack rule: expr_walk.induct)
  case (2 e stack)
  then show ?case using sum_size_expr_next [of e] by (simp add: rev_map [symmetric])
qed simp

text \<open>C31. The two work-list loops over a plan end after at most as many rounds as the plan has nodes,
  and they visit exactly what the plan contains: every operator below the root, and every expression
  below an operator's expressions, lambda bodies included.\<close>

theorem plan_walk_complete:
  "set (plan_operators plan) = {o1. op_within plan o1} \<and>
   set (plan_expressions plan) = {e. plan_contains plan e} \<and>
   length (plan_operators plan) \<le> size plan \<and>
   length (plan_expressions plan) \<le> (\<Sum>o1\<leftarrow>plan_operators plan. \<Sum>e\<leftarrow>op_exprs o1. size e)"
proof -
  have "length (plan_operators plan) \<le> size plan"
    using length_op_walk [of "[plan]"] by (simp add: plan_operators_def del: op_walk.simps)
  moreover have "length (plan_expressions plan) \<le> sum_list (map size (concat (map op_exprs (plan_operators plan))))"
    using length_expr_walk [of "rev (concat (map op_exprs (plan_operators plan)))"]
    by (simp add: plan_expressions_def rev_map [symmetric])
  moreover have "sum_list (map size (concat (map op_exprs ops))) = (\<Sum>o1\<leftarrow>ops. \<Sum>e\<leftarrow>op_exprs o1. size e)" for ops
    by (induction ops) simp_all
  ultimately show ?thesis by (simp add: set_plan_operators set_plan_expressions)
qed

end
