(* ===== verification/Authorization_Model.thy ===== *)
theory Authorization_Model
  imports Engine_Objects
begin

text \<open>
  Authorization of what binding resolves (\<open>src/src/authorization.cpp\<close>): one catalog entry
  (\<open>AuthorizeObject\<close>) and a whole bound plan (\<open>AuthorizePlan\<close>), each against both layers. The
  result under construction is the state; a denial is the thrown permission error together with the
  result as it was thrown in. The reviewed default identities are the parameter \<open>inventory\<close>, the
  engine's major version the parameter \<open>major\<close>.
\<close>

definition FunctionKind :: "nat \<Rightarrow> CatalogType \<Rightarrow> string option" where
  "FunctionKind major t = (case t of
     SCALAR_FUNCTION_ENTRY \<Rightarrow> Some ''scalar''
   | AGGREGATE_FUNCTION_ENTRY \<Rightarrow> Some ''aggregate''
   | TABLE_FUNCTION_ENTRY \<Rightarrow> Some ''table''
   | MACRO_ENTRY \<Rightarrow> Some ''macro''
   | TABLE_MACRO_ENTRY \<Rightarrow> Some ''table_macro''
   | PRAGMA_FUNCTION_ENTRY \<Rightarrow> Some ''pragma''
   | WINDOW_FUNCTION_ENTRY \<Rightarrow> if major \<ge> 2 then Some ''window'' else None
   | _ \<Rightarrow> None)"

definition OpaqueQuackFunction :: "string \<Rightarrow> bool" where
  "OpaqueQuackFunction name \<longleftrightarrow>
     (let l = Lower name in l = ''quack_query'' \<or> l = ''quack_query_by_name'')"

definition function_violation :: "string \<Rightarrow> string \<Rightarrow> string \<Rightarrow> NamePath \<Rightarrow> string \<Rightarrow> string \<Rightarrow> Violation" where
  "function_violation rule message c s name kind =
     (violation rule message)\<lparr>v_catalog := c, v_schema_path := s, v_function_name := name, v_function_type := kind\<rparr>"

definition object_violation :: "string \<Rightarrow> string \<Rightarrow> string \<Rightarrow> NamePath \<Rightarrow> string \<Rightarrow> string \<Rightarrow> Violation" where
  "object_violation rule message c s name kind =
     (violation rule message)\<lparr>v_catalog := c, v_schema_path := s, v_table := name, v_object_type := kind\<rparr>"

text \<open>Recording a violation and throwing.\<close>

definition deny_with :: "Violation \<Rightarrow> string \<Rightarrow> Result \<Rightarrow> Result outcome" where
  "deny_with v message r = (Some (PermissionException message), add_violation v r)"

section \<open>One function, one entry\<close>

definition function_refused ::
    "FunctionGrant list \<Rightarrow> Policy \<Rightarrow> BindingPolicy \<Rightarrow> Identity \<Rightarrow> bool \<Rightarrow> bool \<Rightarrow> bool" where
  "function_refused inventory policy binding i attributable grant \<longleftrightarrow>
     (let canonical = Lower (i_name i);
          implied = canonical \<in> set (synthesized_functions binding) \<or> canonical \<in> set (literal_constructors binding)
      in ControlPlane (i_name i) \<or> (attributable \<and> FunctionDenied policy i) \<or>
         (grant \<and> attributable \<and> \<not> FunctionAllowed inventory policy i) \<or>
         (\<not> grant \<and> attributable \<and> \<not> SystemIdentity i) \<or>
         (canonical \<in> set (system_functions binding) \<and> \<not> SystemIdentity i) \<or>
         (implied \<and> (\<not> SystemIdentity i \<or> \<not> FunctionAllowed inventory policy i)))"

definition AuthorizeFunction ::
    "FunctionGrant list \<Rightarrow> Policy \<Rightarrow> BindingPolicy \<Rightarrow> Identity \<Rightarrow> bool \<Rightarrow> bool \<Rightarrow> Result \<Rightarrow> Result outcome" where
  "AuthorizeFunction inventory policy binding i attributable grant r =
     (if function_refused inventory policy binding i attributable grant then
        deny_with (function_violation rules_FUNCTION
            (''resolved function is not allowed: '' @ Lower (i_name i) @
             (if i_internal i = None
              then ''; internal origin is unknown, so schema-wildcard grants cannot authorize it'' else []))
            (i_catalog i) (i_schema_path i) (i_name i) (i_type i))
          ''resolved function is not allowed'' r
      else (None, r))"

definition is_object :: "CatalogEntry \<Rightarrow> bool" where
  "is_object entry \<longleftrightarrow> ce_type entry = TABLE_ENTRY \<or> ce_type entry = VIEW_ENTRY"

definition object_kind :: "CatalogEntry \<Rightarrow> string" where
  "object_kind entry = (if ce_type entry = TABLE_ENTRY then ''table'' else ''view'')"

definition unsupported_quack :: "nat \<Rightarrow> CatalogEntry \<Rightarrow> bool" where
  "unsupported_quack major entry \<longleftrightarrow>
     is_object entry \<and> ce_catalog_type entry = ''quack'' \<and> (if major < 2 then True else ce_type entry = VIEW_ENTRY)"

definition entry_identity :: "CatalogEntry \<Rightarrow> string \<Rightarrow> Identity" where
  "entry_identity entry kind =
     identity (ce_catalog entry) (ce_schema_path entry) (ce_name entry) kind (Some (ce_internal entry))"

definition authorize_function_entry ::
    "FunctionGrant list \<Rightarrow> Policy \<Rightarrow> BindingPolicy \<Rightarrow> CatalogEntry \<Rightarrow> string \<Rightarrow> bool \<Rightarrow> Result \<Rightarrow> Result outcome" where
  "authorize_function_entry inventory policy binding entry kind attributable r =
     (let canonical = Lower (ce_name entry);
          selected = (canonical \<in> set (caller_functions binding) \<or>
            (\<not> defaults policy \<or> \<not> ce_internal entry) \<and> canonical \<in> set (system_functions binding));
          builtin = (ce_catalog entry = ''system'' \<and> ce_schema_path entry = [''main''])
      in seqO (AuthorizeFunction inventory policy binding (entry_identity entry kind) attributable selected r) (\<lambda>r1.
         if (ce_type entry = TABLE_FUNCTION_ENTRY \<or> ce_type entry = TABLE_MACRO_ENTRY) \<and>
            canonical \<in> set (runtime_table_functions binding) \<and>
            (ce_type entry \<noteq> TABLE_FUNCTION_ENTRY \<or> \<not> builtin)
         then deny_with (function_violation rules_BIND_TIME_EXPRESSION
                ''runtime arguments require a system table-in-out function'' (ce_catalog entry) (ce_schema_path entry)
                (ce_name entry) kind) ''untrusted table-in-out function'' r1
         else if canonical \<in> set (literal_constructors binding) \<and>
            (ce_type entry \<noteq> SCALAR_FUNCTION_ENTRY \<or> \<not> builtin)
         then deny_with (function_violation rules_BIND_TIME_EXPRESSION
                ''literal constructor must resolve to a system builtin'' (ce_catalog entry) (ce_schema_path entry)
                (ce_name entry) kind) ''untrusted bind-time constructor'' r1
         else (None, Result_RecordFunction (entry_identity entry kind) attributable r1)))"

definition table_violation :: "Policy \<Rightarrow> CatalogEntry \<Rightarrow> Violation" where
  "table_violation policy entry =
     (let (rule, message) =
        (if TableBlocked policy (ce_catalog entry) (ce_schema_path entry) (ce_name entry)
         then (rules_TABLE, ''object is blocked'')
         else if ce_internal entry
         then (rules_INTERNAL_OBJECT, ''internal object requires exact schema/table permission'')
         else (rules_TABLE, ''object is not allowed''))
      in object_violation rule message (ce_catalog entry) (ce_schema_path entry) (ce_name entry) (object_kind entry))"

definition authorize_table_entry :: "Policy \<Rightarrow> CatalogEntry \<Rightarrow> bool \<Rightarrow> Result \<Rightarrow> Result outcome" where
  "authorize_table_entry policy entry attributable r =
     (let r1 = (if attributable \<and>
            \<not> TableAllowed policy (ce_catalog entry) (ce_schema_path entry) (ce_name entry) (ce_internal entry)
          then add_violation (table_violation policy entry) r else r);
          i = identity (ce_catalog entry) (ce_schema_path entry) (ce_name entry) (object_kind entry) None
      in if r_violations r1 \<noteq> [] then (Some (PermissionException ''resolved object is not allowed''), r1)
         else
           (let r2 = r1\<lparr>r_objects := std_insert Identity_key i (r_objects r1)\<rparr>
            in (None, if attributable
                  then r2\<lparr>r_caller_objects := std_insert Identity_key i (r_caller_objects r2)\<rparr> else r2)))"

definition AuthorizeObjectAgainst ::
    "FunctionGrant list \<Rightarrow> nat \<Rightarrow> BindingPolicy \<Rightarrow> CatalogEntry \<Rightarrow> bool \<Rightarrow> Policy \<Rightarrow> Result \<Rightarrow> Result outcome" where
  "AuthorizeObjectAgainst inventory major binding entry attributable policy r =
     (case FunctionKind major (ce_type entry) of
        Some kind \<Rightarrow>
          if OpaqueQuackFunction (ce_name entry)
          then deny_with (function_violation rules_STATEMENT ''opaque Quack SQL delegation is unsupported''
                 (ce_catalog entry) (ce_schema_path entry) (ce_name entry) kind)
                 ''unsupported remote authorization scope'' r
          else authorize_function_entry inventory policy binding entry kind attributable r
      | None \<Rightarrow>
          if unsupported_quack major entry
          then deny_with (object_violation rules_STATEMENT ''Quack object has unsupported remote authorization scope''
                 (ce_catalog entry) (ce_schema_path entry) (ce_name entry) (object_kind entry))
                 ''unsupported remote authorization scope'' r
          else if \<not> is_object entry then (None, r)
          else authorize_table_entry policy entry attributable r)"

definition AuthorizeObject ::
    "FunctionGrant list \<Rightarrow> nat \<Rightarrow> Layers \<Rightarrow> BindingPolicy \<Rightarrow> CatalogEntry \<Rightarrow> bool \<Rightarrow> Result \<Rightarrow> Result outcome" where
  "AuthorizeObject inventory major layers binding entry attributable =
     Layers_Each (AuthorizeObjectAgainst inventory major binding entry attributable) layers"

section \<open>Dispatched aggregates\<close>

text \<open>A C string ends at the first NUL.\<close>

definition c_string :: "string \<Rightarrow> string" where
  "c_string s = takeWhile (\<lambda>c. c \<noteq> CHR 0x00) s"

definition fixed_dispatchers :: Names where
  "fixed_dispatchers = [''list_distinct'', ''list_unique'', ''array_distinct'', ''array_unique'']"

definition aggregate_path_part :: "json \<Rightarrow> exn + string" where
  "aggregate_path_part part = (case part of JStr s \<Rightarrow> Inr (c_string s)
     | _ \<Rightarrow> Inl (BinderException ''Invalid aggregate identity''))"

text \<open>The name, and the qualification if the serialized name carries one.\<close>

definition aggregate_target :: "json_ptr \<Rightarrow> exn + json_ptr \<times> (string \<times> NamePath) option" where
  "aggregate_target aggregate =
     (case obj_get aggregate ''name'' of
        Some n \<Rightarrow> Inr (Some n, None)
      | None \<Rightarrow>
          (let path = obj_get (obj_get aggregate ''qname'') ''path''; parts = arr_items path
           in if parts = [] then Inr (None, None)
              else if length parts \<ge> 3 then
                bindE (aggregate_path_part (hd parts)) (\<lambda>c.
                bindE (mapE aggregate_path_part (butlast (tl parts))) (\<lambda>s.
                  Inr (Some (last parts), Some (c, s))))
              else Inr (Some (last parts), None)))"

definition aggregate_identity :: "json_ptr \<Rightarrow> exn + Identity" where
  "aggregate_identity aggregate =
     (let catalog = obj_get aggregate ''catalog_name''; schema = obj_get aggregate ''schema_name'';
          written_catalog = c_string (Text catalog);
          written_schema = (if is_str schema \<and> Text schema \<noteq> [] then [c_string (Text schema)] else []);
          kind = obj_get aggregate ''expression_class''
      in bindE (aggregate_target aggregate) (\<lambda>(target, qualified).
           if \<not> is_str kind \<or> c_string (Text kind) \<noteq> ''BOUND_AGGREGATE'' \<or> \<not> is_str target \<or> Text target = []
           then Inl (BinderException ''Unsupported list aggregate bind data'')
           else case qualified of
             None \<Rightarrow> Inr (identity written_catalog written_schema (Text target) ''aggregate'' None)
           | Some (c, s) \<Rightarrow> Inr (identity c (written_schema @ s) (Text target) ''aggregate'' None)))"

definition ListAggregateImplementation :: "nat \<Rightarrow> BoundFunction \<Rightarrow> FunctionBind \<Rightarrow> exn + Identity" where
  "ListAggregateImplementation major f b =
     (let name = bf_name f
      in if name \<notin> set DispatchingAggregators \<and> name \<notin> set fixed_dispatchers then Inr no_identity
         else if \<not> SystemBuiltin major f then Inr no_identity
         else if name \<in> set fixed_dispatchers then
           Inr (if fb_null_input b then no_identity
                else identity ''system'' [''main''] ''histogram'' ''aggregate'' (Some True))
         else if \<not> fb_present b then
           (if fb_null_input b then Inr no_identity
            else Inl (BinderException ''List aggregate requires resolved parameter types''))
         else if \<not> fb_serializable b then Inl (BinderException ''Cannot inspect list aggregate implementation'')
         else
           (let data = obj_get (fb_serialized b) ''bind_data''
            in if data = None \<or> is_null data then
                 (if fb_null_input b then Inr no_identity
                  else Inl (BinderException ''Missing list aggregate bind data''))
               else aggregate_identity (obj_get data ''aggr_expr'')))"

section \<open>Function occurrences in a plan\<close>

record Occurrence =
  oc_identity :: Identity
  oc_callers :: bool
  oc_grant :: bool
  oc_definition :: Identity

definition occurrence :: "Identity \<Rightarrow> bool \<Rightarrow> bool \<Rightarrow> Identity \<Rightarrow> Occurrence" where
  "occurrence i callers grant def =
     \<lparr>oc_identity = i, oc_callers = callers, oc_grant = grant, oc_definition = def\<rparr>"

definition find_identity :: "Identity \<Rightarrow> Identity list \<Rightarrow> Identity option" where
  "find_identity i entries = std_find Identity_key (Identity_key (FunctionKey i)) entries"

definition has_identity :: "Identity \<Rightarrow> Identity list \<Rightarrow> bool" where
  "has_identity i entries \<longleftrightarrow> find_identity i entries \<noteq> None"

definition unqualified :: "Identity \<Rightarrow> bool" where
  "unqualified i \<longleftrightarrow> i_catalog i = [] \<and> i_schema_path i = []"

definition definition_edge :: "nat \<Rightarrow> Provenance \<Rightarrow> Identity \<Rightarrow> Identity \<Rightarrow> Identity" where
  "definition_edge major provenance def i =
     (case find_identity def (function_entries provenance) of
        None \<Rightarrow> i
      | Some source \<Rightarrow>
          if Lower (i_name i) \<in> set (FunctionImplementations source major) then
            (let i1 = (if unqualified i
                       then i\<lparr>i_catalog := i_catalog source, i_schema_path := i_schema_path source\<rparr> else i)
             in if i_catalog (FunctionKey i1) = i_catalog source \<and> i_schema_path (FunctionKey i1) = i_schema_path source
                then i1\<lparr>i_internal := i_internal source\<rparr> else i1)
          else i)"

definition restore_from :: "Identity list \<Rightarrow> Identity \<Rightarrow> Identity" where
  "restore_from entries i = (case find_identity i entries of
     Some found \<Rightarrow> i\<lparr>i_internal := i_internal found\<rparr> | None \<Rightarrow> i)"

definition restore_origin :: "Provenance \<Rightarrow> Identity \<Rightarrow> Identity" where
  "restore_origin provenance i =
     (if i_internal i \<noteq> None then i
      else restore_from (function_entries provenance)
             (restore_from (caller_implementations provenance)
               (restore_from (trusted_implementations provenance) i)))"

definition same_leaf :: "Identity \<Rightarrow> Identity \<Rightarrow> bool" where
  "same_leaf i entry \<longleftrightarrow> Lower (i_name entry) = Lower (i_name i) \<and> i_type entry = i_type i"

definition recover_aggregate :: "Provenance \<Rightarrow> Identity \<Rightarrow> Identity \<Rightarrow> Identity" where
  "recover_aggregate provenance def i =
     (let candidates = filter (same_leaf i) (caller_implementations provenance @ trusted_implementations provenance)
      in if unqualified i \<and> i_type i = ''aggregate'' \<and> (i_name def = [] \<or> SystemIdentity def) \<and>
            candidates \<noteq> [] \<and> list_all SystemIdentity candidates
         then last candidates else i)"

definition recover_collation :: "nat \<Rightarrow> Provenance \<Rightarrow> Identity \<Rightarrow> Identity" where
  "recover_collation major provenance i =
     (if major < 2 \<and> unqualified i \<and> i_type i = ''scalar'' \<and>
         Lower (i_name i) \<in> set (collation_functions provenance) \<and>
         \<not> list_ex (\<lambda>entry. i_type entry = ''scalar'' \<and> Lower (i_name entry) = Lower (i_name i) \<and>
              \<not> SystemIdentity entry) (function_entries provenance)
      then restore_from (function_entries provenance) (identity ''system'' [''main''] (i_name i) ''scalar'' None)
      else i)"

definition resolve_identity :: "nat \<Rightarrow> Provenance \<Rightarrow> Occurrence \<Rightarrow> Identity" where
  "resolve_identity major provenance oc =
     recover_collation major provenance
       (recover_aggregate provenance (oc_definition oc)
         (restore_origin provenance (definition_edge major provenance (oc_definition oc) (oc_identity oc))))"

definition resolve_callers :: "nat \<Rightarrow> BindingPolicy \<Rightarrow> Provenance \<Rightarrow> Occurrence \<Rightarrow> bool" where
  "resolve_callers major binding provenance oc =
     (let i = resolve_identity major provenance oc; name = Lower (i_name i);
          trusted = has_identity i (trusted_implementations provenance) \<and>
            name \<notin> set (synthesized_functions binding) \<and> name \<notin> set (literal_constructors binding) \<and>
            name \<notin> set (collation_functions provenance)
      in (if trusted then False else oc_callers oc) \<or> has_identity i (caller_implementations provenance) \<or>
         has_identity (oc_definition oc) (caller_implementations provenance))"

definition resolve_grant :: "nat \<Rightarrow> Policy \<Rightarrow> BindingPolicy \<Rightarrow> Provenance \<Rightarrow> Occurrence \<Rightarrow> bool" where
  "resolve_grant major policy binding provenance oc =
     (let i0 = restore_origin provenance (definition_edge major provenance (oc_definition oc) (oc_identity oc));
          i = resolve_identity major provenance oc;
          def = oc_definition oc
      in oc_grant oc \<or>
         (\<not> defaults policy \<and> (Lower (i_name i0) \<in> set (caller_expansions provenance) \<or>
            Lower (i_name i0) \<in> set (caller_expansion_targets provenance))) \<or>
         (has_identity def (caller_implementations provenance) \<and>
            (\<not> SystemIdentity def \<or> \<not> has_identity i (caller_implementations provenance))) \<or>
         (resolve_callers major binding provenance oc \<and> \<not> defaults policy \<and>
            has_identity i (caller_implementations provenance)))"

definition authorize_occurrence ::
    "FunctionGrant list \<Rightarrow> nat \<Rightarrow> BindingPolicy \<Rightarrow> Provenance \<Rightarrow> Policy \<Rightarrow> Occurrence \<Rightarrow> Result \<Rightarrow> Result outcome" where
  "authorize_occurrence inventory major binding provenance policy oc r =
     (let i = resolve_identity major provenance oc; callers = resolve_callers major binding provenance oc
      in seqO (AuthorizeFunction inventory policy binding i callers (resolve_grant major policy binding provenance oc) r)
           (\<lambda>r1. (None, Result_RecordFunction i callers r1)))"

definition plan_attributable :: "Provenance \<Rightarrow> BindingPolicy \<Rightarrow> string \<Rightarrow> bool" where
  "plan_attributable provenance binding name \<longleftrightarrow>
     Attributable provenance binding name \<or> Lower name \<in> set (collation_functions provenance)"

definition window_occurrences :: "BindingPolicy \<Rightarrow> Provenance \<Rightarrow> Identity \<Rightarrow> Occurrence list" where
  "window_occurrences binding provenance i =
     (case map_of (intrinsic_windows binding) (Lower (i_name i)) of
        Some written \<Rightarrow>
          if SystemIdentity i then
            map (\<lambda>name. occurrence (identity (i_catalog i) (i_schema_path i)
                   (if name = ''first'' \<or> name = ''last'' then i_name i else name) ''window'' (Some True))
                 True True no_identity) written
          else [occurrence i (plan_attributable provenance binding (i_name i)) True no_identity]
      | None \<Rightarrow> [occurrence i (plan_attributable provenance binding (i_name i)) True no_identity])"

definition windows :: "(string \<times> string) list" where
  "windows = [(''WINDOW_ROW_NUMBER'', ''row_number''), (''WINDOW_RANK'', ''rank''),
     (''WINDOW_RANK_DENSE'', ''dense_rank''), (''WINDOW_NTILE'', ''ntile''),
     (''WINDOW_PERCENT_RANK'', ''percent_rank''), (''WINDOW_CUME_DIST'', ''cume_dist''),
     (''WINDOW_FIRST_VALUE'', ''first_value''), (''WINDOW_LAST_VALUE'', ''last_value''),
     (''WINDOW_LEAD'', ''lead''), (''WINDOW_LAG'', ''lag''), (''WINDOW_NTH_VALUE'', ''nth_value''),
     (''WINDOW_FILL'', ''fill'')]"

text \<open>One step of the plan walk: authorize a function occurrence, or refuse to go on.\<close>

datatype plan_step = FunctionStep (step_occurrence: Occurrence) | RefuseStep exn

definition get_steps :: "nat \<Rightarrow> BindingPolicy \<Rightarrow> Provenance \<Rightarrow> LogicalOperator \<Rightarrow> plan_step list" where
  "get_steps major binding provenance op =
     (case (op_type op, op_get op) of
        (LOGICAL_GET, Some get) \<Rightarrow>
          (let scan = bf_name (get_function get)
           in if scan \<noteq> ''seq_scan''
              then [FunctionStep (occurrence (FunctionIdentity major (get_function get) ''table'')
                      (get_table get = None \<and> plan_attributable provenance binding scan) True no_identity)]
              else [])
      | _ \<Rightarrow> [])"

definition dispatched_steps ::
    "nat \<Rightarrow> BindingPolicy \<Rightarrow> Provenance \<Rightarrow> BoundFunction \<Rightarrow> FunctionBind \<Rightarrow> plan_step list" where
  "dispatched_steps major binding provenance f b =
     (case ListAggregateImplementation major f b of
        Inl e \<Rightarrow> [RefuseStep e]
      | Inr aggregate \<Rightarrow>
          (let name = bf_name f;
               dispatched = authorized_dispatchers provenance \<noteq> [] \<and> name \<in> set DispatchingAggregators
           in if i_name aggregate = [] then []
              else [FunctionStep (occurrence aggregate
                      (plan_attributable provenance binding name \<or>
                       plan_attributable provenance binding (i_name aggregate) \<or> dispatched)
                      dispatched no_identity)]))"

definition function_steps ::
    "nat \<Rightarrow> BindingPolicy \<Rightarrow> Provenance \<Rightarrow> BoundFunction \<Rightarrow> FunctionBind \<Rightarrow> bool \<Rightarrow> plan_step list" where
  "function_steps major binding provenance f b lambda =
     (let name = bf_name f
      in FunctionStep (occurrence (FunctionIdentity major f ''scalar'') (plan_attributable provenance binding name)
           (Lower name \<in> set (caller_functions binding) \<or> Lower name \<in> set (collation_functions provenance) \<or>
            (caller_collates binding \<and> CollationFunction name))
           (DefinitionIdentity major f ''scalar'')) #
         (if \<not> lambda \<and> name \<in> set ListLambdaFunctions \<and> SystemBuiltin major f
          then [RefuseStep (BinderException ''Cannot inspect list lambda implementation'')]
          else dispatched_steps major binding provenance f b))"

definition window_steps ::
    "nat \<Rightarrow> BindingPolicy \<Rightarrow> Provenance \<Rightarrow> BoundFunction option \<Rightarrow> BoundFunction option \<Rightarrow> string \<Rightarrow> plan_step list" where
  "window_steps major binding provenance aggregate window expression_type =
     (case aggregate of
        Some f \<Rightarrow> [FunctionStep (occurrence (FunctionIdentity major f ''aggregate'')
                    (plan_attributable provenance binding (bf_name f)) True (DefinitionIdentity major f ''aggregate''))]
      | None \<Rightarrow>
          if major \<ge> 2 then
            (case window of
               None \<Rightarrow> [RefuseStep (BinderException ''Unknown window implementation'')]
             | Some f \<Rightarrow> map FunctionStep (window_occurrences binding provenance (FunctionIdentity major f ''window'')))
          else
            (case map_of windows expression_type of
               None \<Rightarrow> [RefuseStep (BinderException ''Unsupported bound window implementation'')]
             | Some name \<Rightarrow> map FunctionStep (window_occurrences binding provenance
                 (identity ''system'' [''main''] name ''window'' (Some True)))))"

fun expression_steps :: "nat \<Rightarrow> BindingPolicy \<Rightarrow> Provenance \<Rightarrow> expr \<Rightarrow> plan_step list" where
  "expression_steps major binding provenance (BoundUnnest _) =
     [FunctionStep (occurrence (identity ''system'' [''main''] ''unnest'' ''scalar'' (Some True))
        (plan_attributable provenance binding ''unnest'') True no_identity)]"
| "expression_steps major binding provenance (BoundFunctionE f _ b lambda) =
     function_steps major binding provenance f b (lambda \<noteq> None)"
| "expression_steps major binding provenance (BoundAggregateE f _) =
     [FunctionStep (occurrence (FunctionIdentity major f ''aggregate'') (plan_attributable provenance binding (bf_name f))
        (Lower (bf_name f) \<in> set (caller_functions binding)) (DefinitionIdentity major f ''aggregate''))]"
| "expression_steps major binding provenance (BoundWindowE aggregate window expression_type _) =
     window_steps major binding provenance aggregate window expression_type"
| "expression_steps _ _ _ (OtherExpr _) = []"

definition plan_steps :: "nat \<Rightarrow> BindingPolicy \<Rightarrow> Provenance \<Rightarrow> LogicalOperator \<Rightarrow> plan_step list" where
  "plan_steps major binding provenance plan =
     concat (map (get_steps major binding provenance) (plan_operators plan)) @
     concat (map (expression_steps major binding provenance) (plan_expressions plan))"

fun run_step ::
    "FunctionGrant list \<Rightarrow> nat \<Rightarrow> BindingPolicy \<Rightarrow> Provenance \<Rightarrow> Policy \<Rightarrow> plan_step \<Rightarrow> Result \<Rightarrow> Result outcome" where
  "run_step inventory major binding provenance policy (FunctionStep oc) r =
     authorize_occurrence inventory major binding provenance policy oc r"
| "run_step _ _ _ _ _ (RefuseStep e) r = (Some e, r)"

definition AuthorizePlanAgainst ::
    "FunctionGrant list \<Rightarrow> nat \<Rightarrow> BindingPolicy \<Rightarrow> Provenance \<Rightarrow> LogicalOperator \<Rightarrow> Policy \<Rightarrow> Result \<Rightarrow> Result outcome" where
  "AuthorizePlanAgainst inventory major binding provenance plan policy r =
     foldO (run_step inventory major binding provenance policy) (plan_steps major binding provenance plan) r"

definition AuthorizePlan ::
    "FunctionGrant list \<Rightarrow> nat \<Rightarrow> Layers \<Rightarrow> BindingPolicy \<Rightarrow> Provenance \<Rightarrow> LogicalOperator \<Rightarrow> Result \<Rightarrow> Result outcome" where
  "AuthorizePlan inventory major layers binding provenance plan =
     Layers_Each (AuthorizePlanAgainst inventory major binding provenance plan) layers"

section \<open>Evidence\<close>

text \<open>The well-formed evidence of a decision: ordered sets, the caller's part within the whole.\<close>

definition keys_within :: "Identity list \<Rightarrow> Identity list \<Rightarrow> bool" where
  "keys_within xs ys \<longleftrightarrow> Identity_key ` set xs \<subseteq> Identity_key ` set ys"

definition wf_evidence :: "Result \<Rightarrow> bool" where
  "wf_evidence r \<longleftrightarrow> std_ordered Violation_key (r_violations r) \<and>
     std_ordered Identity_key (r_objects r) \<and> std_ordered Identity_key (r_functions r) \<and>
     std_ordered Identity_key (r_caller_objects r) \<and> std_ordered Identity_key (r_caller_functions r) \<and>
     keys_within (r_caller_objects r) (r_objects r) \<and> keys_within (r_caller_functions r) (r_functions r)"

text \<open>What no authorization step may take back or invent.\<close>

definition evidence_le :: "Result \<Rightarrow> Result \<Rightarrow> bool" where
  "evidence_le r r' \<longleftrightarrow> set (r_violations r) \<subseteq> set (r_violations r') \<and>
     keys_within (r_objects r) (r_objects r') \<and> keys_within (r_functions r) (r_functions r') \<and>
     keys_within (r_caller_objects r) (r_caller_objects r') \<and>
     keys_within (r_caller_functions r) (r_caller_functions r') \<and>
     r_allowed r' = r_allowed r \<and> r_code r' = r_code r"

lemma keys_within_order [simp, intro]:
  "keys_within xs xs" "keys_within xs ys \<Longrightarrow> keys_within ys zs \<Longrightarrow> keys_within xs zs"
  by (simp_all add: keys_within_def)

interpretation evidence: step_order evidence_le
proof
  show "evidence_le r r" for r by (simp add: evidence_le_def)
  show "evidence_le r u" if "evidence_le r t" and "evidence_le t u" for r t u
    using that unfolding evidence_le_def by (elim conjE, intro conjI) (auto intro: keys_within_order)
qed

lemma wf_evidence_empty: "wf_evidence empty_result"
  by (simp add: wf_evidence_def empty_result_def keys_within_def)

lemma add_violation_evidence [gate_wf]:
  "wf_evidence r \<Longrightarrow> wf_evidence (add_violation v r)" "evidence_le r (add_violation v r)"
  by (auto simp: wf_evidence_def evidence_le_def keys_within_def add_violation_def)

lemma Result_RecordFunction_evidence [gate_wf]:
  "wf_evidence r \<Longrightarrow> wf_evidence (Result_RecordFunction i caller r)"
  "evidence_le r (Result_RecordFunction i caller r)"
  by (auto simp: wf_evidence_def evidence_le_def keys_within_def Result_RecordFunction_def Let_def)

section \<open>The contract of an authorization\<close>


definition contract :: "(Result \<Rightarrow> Result outcome) \<Rightarrow> bool" where
  "contract f \<longleftrightarrow> (\<forall>r. (wf_evidence r \<longrightarrow> wf_evidence (snd (f r))) \<and> evidence_le r (snd (f r)) \<and>
     ((\<forall>m. fst (f r) \<noteq> Some (PermissionException m)) \<longrightarrow> r_violations (snd (f r)) = r_violations r) \<and>
     (\<forall>m. fst (f r) = Some (PermissionException m) \<longrightarrow> r_violations (snd (f r)) \<noteq> []))"

lemma contractD:
  assumes "contract f" and "f r = (e, r')"
  shows "wf_evidence r \<Longrightarrow> wf_evidence r'" and "evidence_le r r'"
    and "(\<And>m. e \<noteq> Some (PermissionException m)) \<Longrightarrow> r_violations r' = r_violations r"
    and "e = Some (PermissionException m) \<Longrightarrow> r_violations r' \<noteq> []"
  using assms by (metis contract_def fst_conv snd_conv)+

lemma contract_seqO:
  assumes "contract f" and "contract g"
  shows "contract (\<lambda>r. seqO (f r) g)"
proof -
  have "(wf_evidence r \<longrightarrow> wf_evidence (snd (seqO (f r) g))) \<and>
     ((\<forall>m. fst (seqO (f r) g) \<noteq> Some (PermissionException m)) \<longrightarrow> r_violations (snd (seqO (f r) g)) = r_violations r) \<and>
     (\<forall>m. fst (seqO (f r) g) = Some (PermissionException m) \<longrightarrow> r_violations (snd (seqO (f r) g)) \<noteq> [])" for r
  proof -
    obtain e r1 where f: "f r = (e, r1)" by (cases "f r")
    obtain e2 r2 where g: "g r1 = (e2, r2)" by (cases "g r1")
    note F = contractD [OF assms(1) f] and G = contractD [OF assms(2) g]
    show ?thesis
    proof (cases e)
      case None
      then have "r_violations r1 = r_violations r" by (intro F(3)) simp
      with None f g F(1) G show ?thesis by auto
    qed (use f F in auto)
  qed
  moreover have "evidence_le r (snd (seqO (f r) g))" for r
    using assms unfolding contract_def by (intro evidence.seqO_le) auto
  ultimately show ?thesis unfolding contract_def by blast
qed

lemma contract_return: "contract (\<lambda>r. (None, r))"
  by (simp add: contract_def evidence.le_refl)

lemma contract_if: "contract f \<Longrightarrow> contract g \<Longrightarrow> contract (\<lambda>r. if b then f r else g r)"
  by (cases b) simp_all

lemma contract_throw: "(\<And>m. e \<noteq> PermissionException m) \<Longrightarrow> contract (\<lambda>r. (Some e, r))"
  by (simp add: contract_def evidence.le_refl)

lemma contract_deny: "contract (deny_with v m)"
  by (simp add: contract_def deny_with_def gate_wf)

lemma contract_record: "contract (\<lambda>r. (None, Result_RecordFunction i c r))"
  by (simp add: contract_def gate_wf)

lemma contract_foldO:
  assumes "\<And>x. x \<in> set xs \<Longrightarrow> contract (f x)"
  shows "contract (foldO f xs)"
  using assms
proof (induction xs)
  case (Cons x xs)
  then have "contract (\<lambda>r. seqO (f x r) (foldO f xs))" by (intro contract_seqO) simp_all
  moreover have "foldO f (x # xs) = (\<lambda>r. seqO (f x r) (foldO f xs))" by auto
  ultimately show ?case by simp
next
  case Nil
  have "foldO f [] = (\<lambda>r. (None, r))" by auto
  then show ?case by (simp add: contract_return)
qed

text \<open>
  Authorization of one thing against one policy: evidence is only added and stays well formed, a
  return adds no violation, an error that is
  not a permission error adds none either, and a permission error leaves one behind. Both layers together then keep
  the same contract.
\<close>

locale authorizer =
  fixes authorize :: "Policy \<Rightarrow> Result \<Rightarrow> Result outcome"
  assumes keeps_wf: "wf_evidence r \<Longrightarrow> wf_evidence (snd (authorize p r))"
    and only_adds: "evidence_le r (snd (authorize p r))"
    and mute: "(\<And>m. fst (authorize p r) \<noteq> Some (PermissionException m)) \<Longrightarrow> r_violations (snd (authorize p r)) = r_violations r"
    and loud: "fst (authorize p r) = Some (PermissionException m) \<Longrightarrow> r_violations (snd (authorize p r)) \<noteq> []"
begin

lemma layer_contract: "contract (authorize p)"
  unfolding contract_def using keeps_wf only_adds mute loud by blast

lemma quiet: "fst (authorize p r) = None \<Longrightarrow> r_violations (snd (authorize p r)) = r_violations r"
  by (rule mute) simp

lemma layers_contract: "contract (Layers_Each authorize l)"
  using contract_seqO [OF layer_contract layer_contract] by (simp add: Layers_Each_def [abs_def])

end

lemma contract_authorizer: "(\<And>p. contract (f p)) \<Longrightarrow> authorizer f"
  unfolding contract_def by unfold_locales blast+

lemmas contract_intros = contract_seqO contract_return contract_deny contract_record contract_if contract_throw

lemma contract_AuthorizeFunction: "contract (AuthorizeFunction inventory policy binding i attributable grant)"
  unfolding AuthorizeFunction_def [abs_def] by (intro contract_intros)

lemma contract_function_entry: "contract (authorize_function_entry inventory policy binding entry kind attributable)"
  unfolding authorize_function_entry_def [abs_def] Let_def
  by (intro contract_intros contract_AuthorizeFunction)

lemma contract_table_entry: "contract (authorize_table_entry policy entry attributable)"
proof -
  have "wf_evidence (snd (authorize_table_entry policy entry attributable r))" if "wf_evidence r" for r
    using that by (auto simp: authorize_table_entry_def Let_def gate_wf wf_evidence_def keys_within_def add_violation_def)
  moreover have "evidence_le r (snd (authorize_table_entry policy entry attributable r))" for r
    by (auto simp: authorize_table_entry_def Let_def evidence_le_def keys_within_def)
  ultimately show ?thesis
    unfolding contract_def by (auto simp: authorize_table_entry_def Let_def)
qed

lemma contract_object: "contract (AuthorizeObjectAgainst inventory major binding entry attributable policy)"
  unfolding AuthorizeObjectAgainst_def [abs_def]
  by (cases "FunctionKind major (ce_type entry)")
     (simp_all add: contract_intros contract_function_entry contract_table_entry)

lemma contract_occurrence: "contract (authorize_occurrence inventory major binding provenance policy oc)"
  unfolding authorize_occurrence_def [abs_def] Let_def by (intro contract_intros contract_AuthorizeFunction)

interpretation object_authorizer: authorizer "AuthorizeObjectAgainst inventory major binding entry attributable"
  for inventory major binding entry attributable
  by (intro contract_authorizer contract_object)

lemma aggregate_identity_binder:
  assumes "aggregate_identity a = Inl e"
  shows "\<exists>m. e = BinderException m"
proof -
  have part: "\<exists>m. e = BinderException m" if "aggregate_path_part x = Inl e" for x e
    using that by (cases x) (auto simp: aggregate_path_part_def)
  have parts: "\<exists>m. e = BinderException m" if "mapE aggregate_path_part xs = Inl e" for xs e
    using that by (induction xs arbitrary: e) (auto simp: bindE_def split: sum.splits dest: part)
  show ?thesis
    using assms part parts
    by (auto simp: aggregate_identity_def aggregate_target_def Let_def bindE_def
        split: sum.splits option.splits if_splits)
qed

lemma ListAggregateImplementation_binder:
  "ListAggregateImplementation major f b = Inl e \<Longrightarrow> \<exists>m. e = BinderException m"
  by (auto simp: ListAggregateImplementation_def Let_def aggregate_identity_binder split: if_splits)

lemma plan_steps_refuse:
  assumes "RefuseStep e \<in> set (plan_steps major binding provenance plan)"
  shows "\<exists>m. e = BinderException m"
proof -
  have get: "RefuseStep e \<notin> set (get_steps major binding provenance o1)" for o1
    by (auto simp: get_steps_def Let_def split: LogicalOperatorType.splits option.splits)
  have dispatch: "\<exists>m. e = BinderException m" if "RefuseStep e \<in> set (dispatched_steps major binding provenance f b)" for f b
    using that by (auto simp: dispatched_steps_def Let_def ListAggregateImplementation_binder split: sum.splits if_splits)
  have window: "\<exists>m. e = BinderException m" if "RefuseStep e \<in> set (window_steps major binding provenance a w t)" for a w t
    using that by (auto simp: window_steps_def split: option.splits if_splits)
  have "\<exists>m. e = BinderException m" if "RefuseStep e \<in> set (expression_steps major binding provenance x)" for x
    using that by (cases x) (auto simp: function_steps_def Let_def split: if_splits dest: dispatch window)
  with assms get show ?thesis by (auto simp: plan_steps_def)
qed

lemma contract_plan: "contract (AuthorizePlanAgainst inventory major binding provenance plan policy)"
proof -
  have "contract (run_step inventory major binding provenance policy x)"
    if "x \<in> set (plan_steps major binding provenance plan)" for x
  proof (cases x)
    case (RefuseStep e)
    with that plan_steps_refuse obtain m where "e = BinderException m" by blast
    with RefuseStep show ?thesis by (simp add: contract_def evidence.le_refl)
  qed (use contract_occurrence in \<open>simp add: contract_def\<close>)
  then show ?thesis unfolding AuthorizePlanAgainst_def [abs_def] by (rule contract_foldO)
qed

interpretation plan_authorizer: authorizer "AuthorizePlanAgainst inventory major binding provenance plan"
  for inventory major binding provenance plan
  by (intro contract_authorizer contract_plan)

section \<open>What a completed plan walk established\<close>

context step_order
begin

lemma foldO_None_between:
  assumes "foldO f xs s = (None, t)" and "x \<in> set xs" and "\<And>x s. x \<in> set xs \<Longrightarrow> le s (snd (f x s))"
  obtains s0 s1 where "f x s0 = (None, s1)" and "le s1 t"
proof -
  from assms(2) obtain ys zs where xs: "xs = ys @ x # zs" by (auto simp: in_set_conv_decomp)
  with assms(1) obtain s0 s1 where step: "f x s0 = (None, s1)" and rest: "foldO f zs s1 = (None, t)"
    by (auto simp: foldO_append seqO_eq_None)
  have "le s1 (snd (foldO f zs s1))" using assms(3) xs by (intro foldO_le) simp
  with step rest that show thesis by simp
qed

end

lemma resolved_names [simp]:
  "i_name (definition_edge major pr def i) = i_name i" "i_name (restore_from es i) = i_name i"
  "i_name (restore_origin pr i) = i_name i" "i_name (recover_collation major pr i) = i_name i"
  by (simp_all add: definition_edge_def restore_from_def restore_origin_def recover_collation_def identity_def Let_def
      split: option.splits)

lemma recover_aggregate_cases:
  obtains "recover_aggregate pr def i = i"
  | e where "recover_aggregate pr def i = e" and "unqualified i" and "same_leaf i e"
      and "e \<in> set (caller_implementations pr) \<union> set (trusted_implementations pr)"
proof -
  let ?cs = "filter (same_leaf i) (caller_implementations pr @ trusted_implementations pr)"
  show thesis
  proof (cases "recover_aggregate pr def i = i")
    case False
    then have "?cs \<noteq> []" "recover_aggregate pr def i = last ?cs" "unqualified i"
      by (auto simp: recover_aggregate_def Let_def simp del: filter_append split: if_splits)
    moreover from this have "last ?cs \<in> set ?cs" by (intro last_in_set)
    ultimately show thesis using that(2) by (simp only: set_filter set_append mem_Collect_eq)
  qed (rule that(1))
qed

lemma resolve_identity_Lower: "Lower (i_name (resolve_identity major provenance oc)) = Lower (i_name (oc_identity oc))"
proof -
  have "Lower (i_name (recover_aggregate provenance def i)) = Lower (i_name i)" for def i
    by (cases rule: recover_aggregate_cases [of provenance def i]) (simp_all add: same_leaf_def)
  then show ?thesis by (simp add: resolve_identity_def)
qed

definition occurrence_admitted ::
    "FunctionGrant list \<Rightarrow> nat \<Rightarrow> BindingPolicy \<Rightarrow> Provenance \<Rightarrow> Policy \<Rightarrow> Occurrence \<Rightarrow> bool" where
  "occurrence_admitted inventory major binding provenance policy oc \<longleftrightarrow>
     \<not> function_refused inventory policy binding (resolve_identity major provenance oc)
        (resolve_callers major binding provenance oc) (resolve_grant major policy binding provenance oc)"

lemma authorize_occurrence_None:
  "authorize_occurrence inventory major binding provenance policy oc r = (None, r') \<longleftrightarrow>
   occurrence_admitted inventory major binding provenance policy oc \<and>
   r' = Result_RecordFunction (resolve_identity major provenance oc) (resolve_callers major binding provenance oc) r"
  by (auto simp: authorize_occurrence_def occurrence_admitted_def AuthorizeFunction_def deny_with_def Let_def)

definition recorded :: "Identity \<Rightarrow> Identity list \<Rightarrow> bool" where
  "recorded i entries \<longleftrightarrow> Identity_key i \<in> Identity_key ` set entries"

lemma evidence_recorded:
  assumes "evidence_le (Result_RecordFunction i callers r) r'"
  shows "recorded i (r_functions r') \<and> (callers \<longrightarrow> recorded i (r_caller_functions r'))"
  using assms by (auto simp: evidence_le_def keys_within_def recorded_def)

lemma AuthorizePlanAgainst_occurrence:
  assumes "AuthorizePlanAgainst inventory major binding provenance plan policy r = (None, r')"
    and "FunctionStep oc \<in> set (plan_steps major binding provenance plan)"
  shows "occurrence_admitted inventory major binding provenance policy oc \<and>
    recorded (resolve_identity major provenance oc) (r_functions r') \<and>
    (resolve_callers major binding provenance oc \<longrightarrow>
       recorded (resolve_identity major provenance oc) (r_caller_functions r'))"
proof -
  let ?run = "run_step inventory major binding provenance policy"
  have mono: "evidence_le s (snd (?run x s))" for x s
    using contract_occurrence [unfolded contract_def] evidence.le_refl by (cases x) simp_all
  from evidence.foldO_None_between [OF assms(1) [unfolded AuthorizePlanAgainst_def] assms(2) mono]
  obtain s0 s1 where "?run (FunctionStep oc) s0 = (None, s1)" "evidence_le s1 r'" .
  then show ?thesis by (auto simp: authorize_occurrence_None dest: evidence_recorded)
qed

text \<open>Both layers: the second layer's walk keeps what the first recorded.\<close>

lemma AuthorizePlan_occurrence:
  assumes "AuthorizePlan inventory major layers binding provenance plan r = (None, r')"
    and "FunctionStep oc \<in> set (plan_steps major binding provenance plan)"
  shows "Layers_All (\<lambda>p. occurrence_admitted inventory major binding provenance p oc) layers \<and>
    recorded (resolve_identity major provenance oc) (r_functions r') \<and>
    (resolve_callers major binding provenance oc \<longrightarrow>
       recorded (resolve_identity major provenance oc) (r_caller_functions r'))"
proof -
  from assms(1) obtain r1 where
    "AuthorizePlanAgainst inventory major binding provenance plan (ceiling_layer layers) r = (None, r1)"
    "AuthorizePlanAgainst inventory major binding provenance plan (request_layer layers) r1 = (None, r')"
    by (auto simp: AuthorizePlan_def Layers_Each_def seqO_eq_None)
  with assms(2) show ?thesis by (auto simp: Layers_All_def dest: AuthorizePlanAgainst_occurrence)
qed

text \<open>Whether a walk returns does not depend on the evidence it started from.\<close>

fun step_admitted :: "FunctionGrant list \<Rightarrow> nat \<Rightarrow> BindingPolicy \<Rightarrow> Provenance \<Rightarrow> Policy \<Rightarrow> plan_step \<Rightarrow> bool" where
  "step_admitted inventory major binding provenance policy (FunctionStep oc) =
     occurrence_admitted inventory major binding provenance policy oc"
| "step_admitted _ _ _ _ _ (RefuseStep _) = False"

lemma AuthorizePlanAgainst_returns:
  "fst (foldO (run_step inventory major binding provenance policy) steps r) = None \<longleftrightarrow>
   list_all (step_admitted inventory major binding provenance policy) steps"
proof (induction steps arbitrary: r)
  case (Cons x xs)
  obtain e r1 where run: "run_step inventory major binding provenance policy x r = (e, r1)" by fastforce
  have "e = None \<longleftrightarrow> step_admitted inventory major binding provenance policy x"
  proof (cases x)
    case (FunctionStep oc)
    with run show ?thesis
      using authorize_occurrence_None [of inventory major binding provenance policy oc r] by (cases e) auto
  qed (use run in auto)
  with run Cons.IH show ?case by (cases e) simp_all
qed simp

lemma AuthorizePlan_returns:
  "fst (AuthorizePlan inventory major layers binding provenance plan r) = None \<longleftrightarrow>
   Layers_All (\<lambda>p. list_all (step_admitted inventory major binding provenance p)
     (plan_steps major binding provenance plan)) layers"
proof -
  have "fst (seqO a g) = None \<longleftrightarrow> fst a = None \<and> fst (g (snd a)) = None" for a and g :: "Result \<Rightarrow> Result outcome"
    by (cases a; cases "fst a") auto
  then show ?thesis
    by (simp add: AuthorizePlan_def Layers_Each_def AuthorizePlanAgainst_def AuthorizePlanAgainst_returns Layers_All_def)
qed

section \<open>What a plan executes\<close>

text \<open>
  The functions the engine runs for a plan, by what its nodes are and independently of the steps of the
  walk: which identity each has before it is resolved, whether the caller's text may have chosen it,
  whether it must then be granted, and the definition it stands in, if any.
\<close>

text \<open>A name the caller's text may have chosen: as a collation, or, once a statement was bound privately,
  by writing it, by an expansion or lookup of its own, or by collating.\<close>

definition caller_may_choose :: "Provenance \<Rightarrow> BindingPolicy \<Rightarrow> string \<Rightarrow> bool" where
  "caller_may_choose pr binding name \<longleftrightarrow>
     Lower name \<in> set (collation_functions pr) \<or>
     \<not> unattributed pr \<and>
       (Lower name \<in> set (caller_functions binding) \<union> set (synthesized_functions binding) \<union>
          set (literal_constructors binding) \<union> set (caller_expansions pr) \<union> set (caller_lookups pr) \<or>
        caller_collates binding \<and> CollationFunction (Lower name))"

definition must_grant :: "Provenance \<Rightarrow> BindingPolicy \<Rightarrow> string \<Rightarrow> bool" where
  "must_grant pr binding name \<longleftrightarrow>
     Lower name \<in> set (caller_functions binding) \<union> set (collation_functions pr) \<or>
     caller_collates binding \<and> CollationFunction name"

definition caller_dispatches :: "Provenance \<Rightarrow> string \<Rightarrow> bool" where
  "caller_dispatches pr name \<longleftrightarrow> authorized_dispatchers pr \<noteq> [] \<and> name \<in> set DispatchingAggregators"

definition window_implementation :: "nat \<Rightarrow> BoundFunction option \<Rightarrow> string \<Rightarrow> Identity option" where
  "window_implementation major window expression_type =
     (if 2 \<le> major then map_option (\<lambda>f. FunctionIdentity major f ''window'') window
      else map_option (\<lambda>name. identity ''system'' [''main''] name ''window'' (Some True)) (map_of windows expression_type))"

inductive executes ::
    "nat \<Rightarrow> BindingPolicy \<Rightarrow> Provenance \<Rightarrow> LogicalOperator \<Rightarrow> Identity \<Rightarrow> bool \<Rightarrow> bool \<Rightarrow> Identity \<Rightarrow> bool"
  for major binding pr plan where
  reader: "executes major binding pr plan (FunctionIdentity major (get_function get) ''table'')
     (get_table get = None \<and> caller_may_choose pr binding (bf_name (get_function get))) True no_identity"
  if "op_within plan op" and "op_type op = LOGICAL_GET" and "op_get op = Some get" and "bf_name (get_function get) \<noteq> ''seq_scan''"
| unnested: "executes major binding pr plan (identity ''system'' [''main''] ''unnest'' ''scalar'' (Some True))
     (caller_may_choose pr binding ''unnest'') True no_identity"
  if "plan_contains plan (BoundUnnest es)"
| scalar: "executes major binding pr plan (FunctionIdentity major f ''scalar'') (caller_may_choose pr binding (bf_name f))
     (must_grant pr binding (bf_name f)) (DefinitionIdentity major f ''scalar'')"
  if "plan_contains plan (BoundFunctionE f es b l)"
| dispatched: "executes major binding pr plan a
     (caller_may_choose pr binding (bf_name f) \<or> caller_may_choose pr binding (i_name a) \<or> caller_dispatches pr (bf_name f))
     (caller_dispatches pr (bf_name f)) no_identity"
  if "plan_contains plan (BoundFunctionE f es b l)" and "ListAggregateImplementation major f b = Inr a" and "i_name a \<noteq> []"
| aggregate: "executes major binding pr plan (FunctionIdentity major f ''aggregate'') (caller_may_choose pr binding (bf_name f))
     (Lower (bf_name f) \<in> set (caller_functions binding)) (DefinitionIdentity major f ''aggregate'')"
  if "plan_contains plan (BoundAggregateE f es)"
| window_aggregate: "executes major binding pr plan (FunctionIdentity major f ''aggregate'')
     (caller_may_choose pr binding (bf_name f)) True (DefinitionIdentity major f ''aggregate'')"
  if "plan_contains plan (BoundWindowE (Some f) w t es)"
| window: "executes major binding pr plan i (caller_may_choose pr binding (i_name i)) True no_identity"
  if "plan_contains plan (BoundWindowE None w t es)" and "window_implementation major w t = Some i"
    and "SystemIdentity i \<Longrightarrow> Lower (i_name i) \<notin> fst ` set (intrinsic_windows binding)"
| window_written: "executes major binding pr plan (identity (i_catalog i) (i_schema_path i)
       (if name = ''first'' \<or> name = ''last'' then i_name i else name) ''window'' (Some True)) True True no_identity"
  if "plan_contains plan (BoundWindowE None w t es)" and "window_implementation major w t = Some i" and "SystemIdentity i"
    and "map_of (intrinsic_windows binding) (Lower (i_name i)) = Some written" and "name \<in> set written"

text \<open>
  Whether a resolved identity is the caller's: the caller's own lookups introduced it or its definition, or
  the caller's text may have chosen it and it is not one that only trusted definitions introduced.
\<close>

definition only_trusted :: "BindingPolicy \<Rightarrow> Provenance \<Rightarrow> Identity \<Rightarrow> bool" where
  "only_trusted binding pr i \<longleftrightarrow> has_identity i (trusted_implementations pr) \<and>
     Lower (i_name i) \<notin> set (synthesized_functions binding) \<union> set (literal_constructors binding) \<union>
       set (collation_functions pr)"

definition attributed :: "BindingPolicy \<Rightarrow> Provenance \<Rightarrow> Identity \<Rightarrow> Identity \<Rightarrow> bool \<Rightarrow> bool" where
  "attributed binding pr i def callers \<longleftrightarrow>
     has_identity i (caller_implementations pr) \<or> has_identity def (caller_implementations pr) \<or>
     callers \<and> \<not> only_trusted binding pr i"

text \<open>
  What both layers ask of it. No one reaches the control plane. What is the caller's is not denied and is
  a reviewed system function or allowed; it is allowed where a grant is due: the plan position asks for
  it, the caller's lookups introduced a definition that is not the system's or stands for something else,
  or the policy does not take the defaults and the function came by the caller's lookups or expansions.
  What the binding synthesizes is the system's, whoever it belongs to.
\<close>

definition function_within ::
    "FunctionGrant list \<Rightarrow> Layers \<Rightarrow> BindingPolicy \<Rightarrow> Provenance \<Rightarrow> Identity \<Rightarrow> bool \<Rightarrow> bool \<Rightarrow> Identity \<Rightarrow> bool" where
  "function_within inventory layers binding pr i callers must def \<longleftrightarrow>
     (let name = Lower (i_name i) in
      \<not> ControlPlane name \<and>
      (attributed binding pr i def callers \<longrightarrow> Layers_All (\<lambda>p. \<not> FunctionDenied p i \<and>
         (SystemIdentity i \<or> FunctionAllowed inventory p i) \<and>
         (must \<or>
          has_identity def (caller_implementations pr) \<and>
            (\<not> SystemIdentity def \<or> \<not> has_identity i (caller_implementations pr)) \<or>
          \<not> defaults p \<and> (has_identity i (caller_implementations pr) \<or>
            name \<in> set (caller_expansions pr) \<union> set (caller_expansion_targets pr)) \<longrightarrow>
          FunctionAllowed inventory p i)) layers) \<and>
      (name \<in> set (system_functions binding) \<longrightarrow> SystemIdentity i) \<and>
      (name \<in> set (synthesized_functions binding) \<union> set (literal_constructors binding) \<longrightarrow>
         SystemIdentity i \<and> Layers_All (\<lambda>p. FunctionAllowed inventory p i) layers))"

text \<open>
  What an identity may be resolved to: the same function. Its name stays up to case and its kind stays;
  a qualification stays, and one that was missing comes from an entry that binding observed or is that of
  the system's collations; whether it is internal stays, becomes unknown, or comes from an observed entry.
\<close>

definition observed :: "Provenance \<Rightarrow> Identity set" where
  "observed pr = set (function_entries pr) \<union> set (caller_implementations pr) \<union> set (trusted_implementations pr)"

definition stands_for :: "Provenance \<Rightarrow> Identity \<Rightarrow> Identity \<Rightarrow> bool" where
  "stands_for pr i0 i \<longleftrightarrow>
     Lower (i_name i) = Lower (i_name i0) \<and> i_type i = i_type i0 \<and>
     (\<not> unqualified i0 \<longrightarrow> i_name i = i_name i0 \<and> i_catalog i = i_catalog i0 \<and> i_schema_path i = i_schema_path i0) \<and>
     (i_internal i = None \<or> i_internal i = i_internal i0 \<or> i_internal i \<in> i_internal ` observed pr) \<and>
     (unqualified i \<or> \<not> unqualified i0 \<or>
      (\<exists>e\<in>observed pr. i_catalog i = i_catalog e \<and> i_schema_path i = i_schema_path e) \<or>
      Lower (i_name i) \<in> set (collation_functions pr) \<and> i_catalog i = ''system'' \<and> i_schema_path i = [''main''])"

lemma caller_may_choose_plan: "caller_may_choose pr binding name = plan_attributable pr binding name"
  by (auto simp: caller_may_choose_def plan_attributable_def Attributable_def CallerCanName_def Let_def)

lemma window_occurrences_code:
  "set (window_occurrences binding pr i) =
     (if SystemIdentity i \<and> Lower (i_name i) \<in> fst ` set (intrinsic_windows binding)
      then (\<lambda>name. occurrence (identity (i_catalog i) (i_schema_path i)
                   (if name = ''first'' \<or> name = ''last'' then i_name i else name) ''window'' (Some True))
                 True True no_identity) ` set (the (map_of (intrinsic_windows binding) (Lower (i_name i))))
      else {occurrence i (plan_attributable pr binding (i_name i)) True no_identity})"
proof (cases "map_of (intrinsic_windows binding) (Lower (i_name i))")
  case None
  then have "Lower (i_name i) \<notin> fst ` set (intrinsic_windows binding)" by (simp add: map_of_eq_None_iff)
  with None show ?thesis by (simp add: window_occurrences_def)
next
  case (Some written)
  then have "Lower (i_name i) \<in> fst ` set (intrinsic_windows binding)" by (force dest: map_of_SomeD)
  with Some show ?thesis by (simp add: window_occurrences_def)
qed

lemma window_steps_implementation:
  "window_implementation major w t = Some i \<Longrightarrow>
   window_steps major binding pr None w t = map FunctionStep (window_occurrences binding pr i)"
  by (auto simp: window_implementation_def window_steps_def split: if_splits)

lemma expression_steps_within:
  "plan_contains plan e \<Longrightarrow> FunctionStep oc \<in> set (expression_steps major binding pr e) \<Longrightarrow>
   FunctionStep oc \<in> set (plan_steps major binding pr plan)"
  by (auto simp: plan_steps_def set_plan_expressions)

lemma dispatching_not_lambda:
  assumes "ListAggregateImplementation major f b = Inr a" and "i_name a \<noteq> []"
  shows "bf_name f \<notin> set ListLambdaFunctions"
proof -
  have "bf_name f \<in> set DispatchingAggregators \<union> set fixed_dispatchers"
  proof (rule ccontr)
    assume "\<not> ?thesis"
    with assms show False by (auto simp: ListAggregateImplementation_def no_identity_def identity_def)
  qed
  moreover have "(set DispatchingAggregators \<union> set fixed_dispatchers) \<inter> set ListLambdaFunctions = {}"
    by code_simp
  ultimately show ?thesis by blast
qed

text \<open>Every function the plan executes is one of the steps of the walk.\<close>

lemma executes_step:
  assumes "executes major binding pr plan i callers must def"
  shows "FunctionStep (occurrence i callers must def) \<in> set (plan_steps major binding pr plan)"
  using assms
proof cases
  case (reader op get)
  then have "FunctionStep (occurrence i callers must def) \<in> set (get_steps major binding pr op)"
    by (simp add: get_steps_def caller_may_choose_plan)
  with reader(5) show ?thesis by (auto simp: plan_steps_def set_plan_operators)
next
  case (unnested es)
  then show ?thesis by (intro expression_steps_within [of plan "BoundUnnest es"]) (simp_all add: caller_may_choose_plan)
next
  case (scalar f es b l)
  then show ?thesis
    by (intro expression_steps_within [of plan "BoundFunctionE f es b l"])
       (simp_all add: function_steps_def Let_def caller_may_choose_plan must_grant_def disj_assoc)
next
  case (dispatched f es b l)
  then have "\<not> (l = None \<and> bf_name f \<in> set ListLambdaFunctions \<and> SystemBuiltin major f)"
    using dispatching_not_lambda by blast
  with dispatched have "FunctionStep (occurrence i callers must def) \<in>
      set (expression_steps major binding pr (BoundFunctionE f es b l))"
    by (auto simp: function_steps_def dispatched_steps_def Let_def caller_may_choose_plan caller_dispatches_def)
  with dispatched(4) show ?thesis by (rule expression_steps_within)
next
  case (aggregate f es)
  then show ?thesis
    by (intro expression_steps_within [of plan "BoundAggregateE f es"]) (simp_all add: caller_may_choose_plan)
next
  case (window_aggregate f w t es)
  then show ?thesis
    by (intro expression_steps_within [of plan "BoundWindowE (Some f) w t es"])
       (simp_all add: window_steps_def caller_may_choose_plan)
next
  case (window w t es)
  then show ?thesis
    by (intro expression_steps_within [of plan "BoundWindowE None w t es"])
       (auto simp: window_steps_implementation window_occurrences_code caller_may_choose_plan)
next
  case (window_written w t es i0 written name)
  moreover from window_written have "Lower (i_name i0) \<in> fst ` set (intrinsic_windows binding)"
    by (force dest: map_of_SomeD)
  ultimately show ?thesis
    by (intro expression_steps_within [of plan "BoundWindowE None w t es"])
       (auto simp: window_steps_implementation window_occurrences_code)
qed

lemma resolve_callers_attributed:
  "resolve_callers major binding pr (occurrence i0 callers must def) =
   attributed binding pr (resolve_identity major pr (occurrence i0 callers must def)) def callers"
  by (auto simp: resolve_callers_def attributed_def only_trusted_def Let_def occurrence_def)

lemma occurrence_admitted_within:
  assumes adm: "Layers_All (\<lambda>p. occurrence_admitted inventory major binding pr p (occurrence i0 callers must def)) layers"
    and i: "i = resolve_identity major pr (occurrence i0 callers must def)"
  shows "function_within inventory layers binding pr i callers must def"
proof -
  let ?oc = "occurrence i0 callers must def"
  have edge: "Lower (i_name (restore_origin pr (definition_edge major pr def i0))) = Lower (i_name i)"
    using resolve_identity_Lower [of major pr ?oc]
    by (simp add: i occurrence_def resolved_names)
  have grant: "resolve_grant major p binding pr ?oc \<longleftrightarrow> must \<or>
      \<not> defaults p \<and> Lower (i_name i) \<in> set (caller_expansions pr) \<union> set (caller_expansion_targets pr) \<or>
      has_identity def (caller_implementations pr) \<and>
        (\<not> SystemIdentity def \<or> \<not> has_identity i (caller_implementations pr)) \<or>
      attributed binding pr i def callers \<and> \<not> defaults p \<and> has_identity i (caller_implementations pr)" for p
    using edge resolve_callers_attributed [of major binding pr i0 callers must def]
    by (auto simp: resolve_grant_def Let_def i occurrence_def)
  have refused: "\<not> function_refused inventory p binding i (attributed binding pr i def callers)
      (resolve_grant major p binding pr ?oc)" if "p = ceiling_layer layers \<or> p = request_layer layers" for p
    using adm that unfolding Layers_All_def occurrence_admitted_def resolve_callers_attributed i by blast
  have "attributed binding pr i def callers \<longrightarrow> \<not> FunctionDenied p i \<and> (SystemIdentity i \<or> FunctionAllowed inventory p i) \<and>
      (resolve_grant major p binding pr ?oc \<longrightarrow> FunctionAllowed inventory p i)"
    and "Lower (i_name i) \<in> set (synthesized_functions binding) \<union> set (literal_constructors binding) \<longrightarrow>
      SystemIdentity i \<and> FunctionAllowed inventory p i"
    and "\<not> ControlPlane (i_name i)" and "Lower (i_name i) \<in> set (system_functions binding) \<longrightarrow> SystemIdentity i"
    if "p = ceiling_layer layers \<or> p = request_layer layers" for p
    using refused [OF that] unfolding function_refused_def Let_def Un_iff by argo+
  note each = this
  have cp: "\<not> ControlPlane (Lower (i_name i))" using each(3) by (auto simp: ControlPlane_def)
  have own: "attributed binding pr i def callers \<longrightarrow> \<not> FunctionDenied p i \<and> (SystemIdentity i \<or> FunctionAllowed inventory p i) \<and>
      (must \<or> has_identity def (caller_implementations pr) \<and>
         (\<not> SystemIdentity def \<or> \<not> has_identity i (caller_implementations pr)) \<or>
       \<not> defaults p \<and> (has_identity i (caller_implementations pr) \<or>
         Lower (i_name i) \<in> set (caller_expansions pr) \<union> set (caller_expansion_targets pr)) \<longrightarrow>
       FunctionAllowed inventory p i)" if "p = ceiling_layer layers \<or> p = request_layer layers" for p
    using each(1) [OF that] grant [of p] by argo
  show ?thesis
    unfolding function_within_def Let_def Layers_All_def using cp own each(2,4) by (intro conjI) blast+
qed

lemma restored_internal:
  "i_internal (restore_from es i) = i_internal i \<or> i_internal (restore_from es i) \<in> i_internal ` set es"
  by (auto simp: restore_from_def find_identity_def split: option.splits dest!: std_find_Some)

lemma restored_rest [simp]:
  "i_catalog (restore_from es i) = i_catalog i" "i_schema_path (restore_from es i) = i_schema_path i"
  "i_type (restore_from es i) = i_type i"
  by (simp_all add: restore_from_def split: option.splits)

lemma stands_for_edge: "stands_for pr i0 (definition_edge major pr def i0)"
proof (cases "find_identity def (function_entries pr)")
  case (Some source)
  then have "source \<in> observed pr" by (auto simp: find_identity_def observed_def dest: std_find_Some)
  then show ?thesis using Some
    by (auto simp: stands_for_def definition_edge_def unqualified_def Let_def)
qed (simp add: stands_for_def definition_edge_def)

lemma stands_for_origin:
  assumes "stands_for pr i0 i"
  shows "stands_for pr i0 (restore_origin pr i)"
proof (cases "i_internal i")
  case None
  let ?t = "restore_from (trusted_implementations pr) i"
  let ?c = "restore_from (caller_implementations pr) ?t"
  have "i_internal (restore_from (function_entries pr) ?c) \<in> insert (i_internal i) (i_internal ` observed pr)"
    using restored_internal [of "function_entries pr" ?c] restored_internal [of "caller_implementations pr" ?t]
      restored_internal [of "trusted_implementations pr" i] by (auto simp: observed_def)
  then have "i_internal (restore_origin pr i) = None \<or> i_internal (restore_origin pr i) \<in> i_internal ` observed pr"
    using None by (auto simp: restore_origin_def)
  moreover have same: "i_catalog (restore_origin pr i) = i_catalog i" "i_schema_path (restore_origin pr i) = i_schema_path i"
    "i_type (restore_origin pr i) = i_type i" by (simp_all add: restore_origin_def)
  ultimately show ?thesis using assms unfolding stands_for_def unqualified_def resolved_names same by blast
qed (use assms in \<open>simp add: restore_origin_def\<close>)

lemma stands_for_aggregate:
  assumes "stands_for pr i0 i"
  shows "stands_for pr i0 (recover_aggregate pr def i)"
proof (cases rule: recover_aggregate_cases [of pr def i])
  case (2 e)
  with assms have "unqualified i0" by (auto simp: stands_for_def unqualified_def)
  moreover from 2 have "e \<in> observed pr" by (auto simp: observed_def)
  ultimately show ?thesis using assms 2 by (auto simp: stands_for_def same_leaf_def)
qed (use assms in simp)

lemma stands_for_collation:
  assumes "stands_for pr i0 i"
  shows "stands_for pr i0 (recover_collation major pr i)"
proof (cases "recover_collation major pr i = i")
  case False
  then have c: "unqualified i" "i_type i = ''scalar''" "Lower (i_name i) \<in> set (collation_functions pr)"
    "recover_collation major pr i =
       restore_from (function_entries pr) (identity ''system'' [''main''] (i_name i) ''scalar'' None)"
    by (auto simp: recover_collation_def split: if_splits)
  then have "unqualified i0" using assms by (auto simp: stands_for_def unqualified_def)
  moreover have "i_internal (recover_collation major pr i) \<in> insert None (i_internal ` observed pr)"
    using restored_internal [of "function_entries pr" "identity ''system'' [''main''] (i_name i) ''scalar'' None"] c(4)
    by (auto simp: observed_def identity_def)
  ultimately show ?thesis using assms c by (auto simp: stands_for_def identity_def)
qed (use assms in simp)

lemma stands_for_resolved: "stands_for pr i0 (resolve_identity major pr (occurrence i0 callers must def))"
  by (simp add: resolve_identity_def occurrence_def stands_for_edge stands_for_origin stands_for_aggregate
      stands_for_collation)

text \<open>A plan that was authorized executes nothing but what both layers allow, and all of it is recorded.\<close>

lemma AuthorizePlan_executes:
  assumes "AuthorizePlan inventory major layers binding pr plan r = (None, r')"
    and "executes major binding pr plan i0 callers must def"
    and "i = resolve_identity major pr (occurrence i0 callers must def)"
  shows "stands_for pr i0 i \<and> function_within inventory layers binding pr i callers must def \<and>
    recorded i (r_functions r') \<and> (attributed binding pr i def callers \<longrightarrow> recorded i (r_caller_functions r'))"
  using AuthorizePlan_occurrence [OF assms(1) executes_step [OF assms(2)]]
  unfolding assms(3) resolve_callers_attributed
  using stands_for_resolved occurrence_admitted_within by blast

section \<open>Properties\<close>

text \<open>C99. Nothing executable escapes plan authorization. Once \<open>AuthorizePlan\<close> returns, every function the
  plan executes has been resolved to an identity that stands for it, that identity itself is recorded, as
  the caller's when it is attributed to the caller, and it is within what both layers allow
  (\<open>function_within\<close>): the table functions of its scans, its scalar functions, aggregates and windows,
  the aggregates list functions dispatch to and those inside lambda bodies. The caller's text does not
  count as having chosen an identity that only trusted definitions introduced: such a function stays out
  of the control plane and is recorded, but the caller's blocks and grants do not apply to it.\<close>

theorem AuthorizePlan_reaches_every_function:
  assumes "AuthorizePlan inventory major layers binding pr plan r = (None, r')"
    and "executes major binding pr plan i0 callers must def"
  shows "let i = resolve_identity major pr (occurrence i0 callers must def) in
    stands_for pr i0 i \<and> function_within inventory layers binding pr i callers must def \<and>
    recorded i (r_functions r') \<and> (attributed binding pr i def callers \<longrightarrow> recorded i (r_caller_functions r'))"
  using AuthorizePlan_executes [OF assms refl] by (simp add: Let_def)

text \<open>A projection of a list lambda of the system whose body calls a host function the caller wrote, over a
  table function of the host the caller wrote too.\<close>

definition sample_function :: "string \<Rightarrow> string \<Rightarrow> BoundFunction" where
  "sample_function c name = \<lparr>bf_name = name, bf_catalog_name = c, bf_schema_name = ''main'',
     bf_path = [c, ''main'', name], bf_definition = None\<rparr>"

definition sample_bind :: FunctionBind where
  "sample_bind = \<lparr>fb_null_input = False, fb_present = True, fb_serializable = False, fb_serialized = None\<rparr>"

definition sample_body :: expr where
  "sample_body = BoundFunctionE (sample_function ''memory'' ''Score'') [OtherExpr []] sample_bind None"

definition sample_get :: "string \<Rightarrow> LogicalOperator" where
  "sample_get name = Operator LOGICAL_GET (Some \<lparr>get_function = sample_function ''memory'' name, get_table = None\<rparr>) None [] []"

definition sample_plan :: LogicalOperator where
  "sample_plan = Operator LOGICAL_PROJECTION None None
     [BoundFunctionE (sample_function ''system'' ''list_transform'') [OtherExpr []] sample_bind (Some (Some sample_body))]
     [sample_get ''Score'']"

definition plan_layers :: Layers where
  "plan_layers = \<lparr>ceiling_layer = sample_policy, request_layer = sample_policy\<rparr>"

definition sample_binding :: BindingPolicy where
  "sample_binding = empty_binding\<lparr>caller_functions := [''score'']\<rparr>"

definition sample_origin :: Provenance where
  "sample_origin = empty_provenance
     \<lparr>function_entries := [identity ''memory'' [''main''] ''score'' ''scalar'' (Some False),
        identity ''memory'' [''main''] ''score'' ''table'' (Some False)],
      caller_implementations := [identity ''memory'' [''main''] ''score'' ''scalar'' (Some False),
        identity ''memory'' [''main''] ''score'' ''table'' (Some False)]\<rparr>"

definition sample_authorized :: Result where
  "sample_authorized = snd (AuthorizePlan sample_inventory 1 plan_layers sample_binding sample_origin sample_plan empty_result)"

lemma sample_plan_authorized:
  "AuthorizePlan sample_inventory 1 plan_layers sample_binding sample_origin sample_plan empty_result =
   (None, sample_authorized)"
proof -
  let ?oc = "\<lambda>c name kind own. occurrence (FunctionIdentity 1 (sample_function c name) kind) own own no_identity"
  let ?ok = "occurrence_admitted sample_inventory 1 sample_binding sample_origin sample_policy"
  have "plan_steps 1 sample_binding sample_origin sample_plan =
      [FunctionStep (?oc ''memory'' ''Score'' ''table'' True), FunctionStep (?oc ''system'' ''list_transform'' ''scalar'' False),
       FunctionStep (?oc ''memory'' ''Score'' ''scalar'' True)]" by code_simp
  moreover have "?ok (?oc ''memory'' ''Score'' ''table'' True)" by code_simp
  moreover have "?ok (?oc ''system'' ''list_transform'' ''scalar'' False)" by code_simp
  moreover have "?ok (?oc ''memory'' ''Score'' ''scalar'' True)" by code_simp
  ultimately have "fst (AuthorizePlan sample_inventory 1 plan_layers sample_binding sample_origin sample_plan empty_result) = None"
    by (simp add: AuthorizePlan_returns plan_layers_def Layers_All_def)
  then show ?thesis by (simp add: sample_authorized_def prod_eq_iff)
qed

lemma sample_get_within: "op_within sample_plan (sample_get ''Score'')"
  by (rule op_child [OF _ op_self]) (simp add: sample_plan_def)

lemma sample_body_contained: "plan_contains sample_plan sample_body"
proof -
  have "sample_body \<in> set (plan_expressions sample_plan)" by code_simp
  then show ?thesis by (simp add: set_plan_expressions)
qed

theorem AuthorizePlan_reaches_every_function_witness:
  "let scan = resolve_identity 1 sample_origin (occurrence
         (FunctionIdentity 1 (sample_function ''memory'' ''Score'') ''table'') True True no_identity);
       body = resolve_identity 1 sample_origin (occurrence
         (FunctionIdentity 1 (sample_function ''memory'' ''Score'') ''scalar'') True True
         (DefinitionIdentity 1 (sample_function ''memory'' ''Score'') ''scalar''))
   in recorded scan (r_functions sample_authorized) \<and> recorded body (r_functions sample_authorized) \<and>
      function_within sample_inventory plan_layers sample_binding sample_origin scan True True no_identity"
proof -
  let ?f = "sample_function ''memory'' ''Score''"
  have c: "caller_may_choose sample_origin sample_binding (bf_name ?f)" "must_grant sample_origin sample_binding (bf_name ?f)"
    by code_simp+
  have "executes 1 sample_binding sample_origin sample_plan (FunctionIdentity 1 ?f ''scalar'') True True (DefinitionIdentity 1 ?f ''scalar'')"
    using executes.scalar [of sample_plan ?f "[OtherExpr []]" sample_bind None 1 sample_binding sample_origin]
      sample_body_contained c by (simp add: sample_body_def)
  note body = AuthorizePlan_reaches_every_function [OF sample_plan_authorized this]
  have "executes 1 sample_binding sample_origin sample_plan (FunctionIdentity 1 ?f ''table'') True True no_identity"
    using executes.reader [OF sample_get_within, of _ 1 sample_binding sample_origin] c(1)
    by (simp add: sample_get_def sample_function_def)
  note scan = AuthorizePlan_reaches_every_function [OF sample_plan_authorized this]
  from body scan show ?thesis unfolding Let_def by blast
qed

text \<open>C99. The control plane is out of reach on every route: no policy, inventory, binding or provenance
  makes authorization return for a catalog entry of a function kind whose folded name is a
  control-plane function, and none makes it return for a plan that executes one, as a table function, a
  scalar function, an aggregate or a window, written, dispatched to or in a lambda body.\<close>

theorem control_plane_refused:
  assumes "ControlPlane name"
  shows "(FunctionKind major (ce_type entry) \<noteq> None \<and> ce_name entry = name \<longrightarrow>
      (\<exists>m. fst (AuthorizeObject inventory major layers binding entry attributable r) = Some (PermissionException m))) \<and>
    (executes major binding pr plan i callers must def \<and> i_name i = name \<longrightarrow>
      fst (AuthorizePlan inventory major layers binding pr plan r) \<noteq> None)"
proof (intro conjI impI)
  assume "FunctionKind major (ce_type entry) \<noteq> None \<and> ce_name entry = name"
  then obtain kind where "FunctionKind major (ce_type entry) = Some kind" "ControlPlane (ce_name entry)"
    using assms by auto
  then have "\<exists>m. fst (AuthorizeObjectAgainst inventory major binding entry attributable p r) =
      Some (PermissionException m)" for p
    by (simp add: AuthorizeObjectAgainst_def authorize_function_entry_def AuthorizeFunction_def function_refused_def
        entry_identity_def identity_def deny_with_def Let_def)
  then show "\<exists>m. fst (AuthorizeObject inventory major layers binding entry attributable r) = Some (PermissionException m)"
    unfolding AuthorizeObject_def Layers_Each_def
    by (metis fst_conv prod.collapse seqO_simps(2))
next
  assume e: "executes major binding pr plan i callers must def \<and> i_name i = name"
  show "fst (AuthorizePlan inventory major layers binding pr plan r) \<noteq> None"
  proof
    assume "fst (AuthorizePlan inventory major layers binding pr plan r) = None"
    then obtain r' where "AuthorizePlan inventory major layers binding pr plan r = (None, r')"
      by (metis prod.collapse)
    from AuthorizePlan_executes [OF this conjunct1 [OF e] refl] obtain i1 where
      "stands_for pr i i1" "function_within inventory layers binding pr i1 callers must def" by blast
    then have "Lower (i_name i1) = Lower (i_name i)" "\<not> ControlPlane (Lower (i_name i1))"
      unfolding stands_for_def function_within_def Let_def by blast+
    with e assms show False by (simp add: ControlPlane_def)
  qed
qed

definition sample_entry :: "CatalogType \<Rightarrow> string \<Rightarrow> CatalogEntry" where
  "sample_entry t name = \<lparr>ce_type = t, ce_name = name, ce_catalog = ''memory'', ce_catalog_type = ''duckdb'',
     ce_schema_path = [''reporting''], ce_internal = False, ce_overloads = [], ce_body = None,
     ce_collation_function = []\<rparr>"

theorem control_plane_refused_witness:
  "(\<exists>m. fst (AuthorizeObject sample_inventory 1 plan_layers sample_binding
     (sample_entry TABLE_FUNCTION_ENTRY ''Gatekeeper_Enforce'') False empty_result) = Some (PermissionException m)) \<and>
   fst (AuthorizePlan sample_inventory 1 plan_layers sample_binding sample_origin
     (sample_get ''Gatekeeper_Enforce'') empty_result) \<noteq> None"
proof -
  let ?f = "sample_function ''memory'' ''Gatekeeper_Enforce''"
  have h: "ControlPlane ''Gatekeeper_Enforce''" by code_simp
  have k: "FunctionKind 1 (ce_type (sample_entry TABLE_FUNCTION_ENTRY ''Gatekeeper_Enforce'')) \<noteq> None \<and>
      ce_name (sample_entry TABLE_FUNCTION_ENTRY ''Gatekeeper_Enforce'') = ''Gatekeeper_Enforce''"
    by (simp add: sample_entry_def FunctionKind_def)
  have e: "executes 1 sample_binding sample_origin (sample_get ''Gatekeeper_Enforce'') (FunctionIdentity 1 ?f ''table'')
      (caller_may_choose sample_origin sample_binding ''Gatekeeper_Enforce'') True no_identity"
    using executes.reader [OF op_self, of "sample_get ''Gatekeeper_Enforce''" _ 1 sample_binding sample_origin]
    by (simp add: sample_get_def sample_function_def)
  have n: "i_name (FunctionIdentity 1 ?f ''table'') = ''Gatekeeper_Enforce''" by code_simp
  show ?thesis
    using control_plane_refused [OF h, THEN conjunct1, THEN mp, OF k]
      control_plane_refused [OF h, THEN conjunct2, THEN mp, OF conjI, OF e n] by blast
qed

text \<open>C27. Authorization of a table or view, on a result without violations: it is admitted iff it is not
  the caller's or both layers allow it; when admitted it is recorded, as the caller's if it is; when
  refused exactly one violation is left, which names the object and says whether a block, an internal
  object or a missing grant refused it.\<close>

theorem AuthorizeObject_table_exact:
  assumes "is_object entry" and "\<not> unsupported_quack major entry" and "r_violations r = []"
  shows "let admitted = (attributable \<longrightarrow> Layers_All (\<lambda>p. TableAllowed p (ce_catalog entry) (ce_schema_path entry)
            (ce_name entry) (ce_internal entry)) layers);
          out = AuthorizeObject inventory major layers binding entry attributable r;
          i = identity (ce_catalog entry) (ce_schema_path entry) (ce_name entry) (object_kind entry) None
      in (fst out = None \<longleftrightarrow> admitted) \<and>
         (admitted \<longrightarrow> recorded i (r_objects (snd out)) \<and> (attributable \<longrightarrow> recorded i (r_caller_objects (snd out))) \<and>
            r_violations (snd out) = []) \<and>
         (\<not> admitted \<longrightarrow> (\<exists>p. (p = ceiling_layer layers \<or> p = request_layer layers) \<and>
            \<not> TableAllowed p (ce_catalog entry) (ce_schema_path entry) (ce_name entry) (ce_internal entry) \<and>
            r_violations (snd out) = [table_violation p entry]))"
proof -
  have k: "FunctionKind major (ce_type entry) = None"
    using assms(1) by (auto simp: is_object_def FunctionKind_def)
  then have a: "AuthorizeObjectAgainst inventory major binding entry attributable p =
      authorize_table_entry p entry attributable" for p
    using assms(1,2) by (simp add: AuthorizeObjectAgainst_def [abs_def])
  have one: "r_violations (add_violation v s) = [v]" if "r_violations s = []" for v s
    using that by (simp add: add_violation_def std_insert_code)
  show ?thesis
    using assms(3) unfolding AuthorizeObject_def Layers_Each_def a authorize_table_entry_def Let_def
    by (auto simp: Layers_All_def recorded_def one)
qed

theorem AuthorizeObject_table_exact_witness:
  "let entry = sample_entry VIEW_ENTRY ''Salaries'';
       out = AuthorizeObject sample_inventory 2 plan_layers sample_binding entry True empty_result
   in is_object entry \<and> \<not> unsupported_quack 2 entry \<and> fst out \<noteq> None"
proof -
  let ?e = "sample_entry VIEW_ENTRY ''Salaries''"
  have h: "is_object ?e" "\<not> unsupported_quack 2 ?e"
    by (simp_all add: is_object_def unsupported_quack_def sample_entry_def)
  have v: "r_violations empty_result = []" by (simp add: empty_result_def)
  have d: "\<not> Layers_All (\<lambda>p. TableAllowed p (ce_catalog ?e) (ce_schema_path ?e) (ce_name ?e) (ce_internal ?e)) plan_layers"
    by code_simp
  show ?thesis
    using AuthorizeObject_table_exact [OF h v, of True plan_layers sample_inventory sample_binding] h d
    unfolding Let_def by blast
qed

text \<open>C19. The contract of both authorizations, whatever they decide: evidence stays a family of ordered
  sets with the caller's part inside the whole, nothing recorded is lost, no decision field is
  touched; a return adds no violation, and neither does an error of inspection; a permission error
  always leaves a violation to report.\<close>

theorem authorization_contract:
  assumes "wf_evidence r"
    and "out = AuthorizeObject inventory major layers binding entry attributable r \<or>
         out = AuthorizePlan inventory major layers binding provenance plan r"
  shows "wf_evidence (snd out) \<and> evidence_le r (snd out) \<and>
    ((\<forall>m. fst out \<noteq> Some (PermissionException m)) \<longrightarrow> r_violations (snd out) = r_violations r) \<and>
    (\<forall>m. fst out = Some (PermissionException m) \<longrightarrow> r_violations (snd out) \<noteq> [])"
  using object_authorizer.layers_contract [of inventory major binding entry attributable layers]
    plan_authorizer.layers_contract [of inventory major binding provenance plan layers] assms
  unfolding contract_def AuthorizeObject_def AuthorizePlan_def by blast

theorem authorization_contract_witness:
  "wf_evidence sample_authorized \<and> r_violations sample_authorized = []"
proof -
  have "wf_evidence (snd (None :: exn option, sample_authorized)) \<and>
      ((\<forall>m. fst (None :: exn option, sample_authorized) \<noteq> Some (PermissionException m)) \<longrightarrow>
        r_violations (snd (None :: exn option, sample_authorized)) = r_violations empty_result)"
    using authorization_contract [OF wf_evidence_empty disjI2, OF sample_plan_authorized [symmetric]] by blast
  then show ?thesis by (simp add: empty_result_def)
qed

end
