(* ===== verification/Inventory_Model.thy ===== *)
theory Inventory_Model
  imports Function_Policy Json_Model
begin

text \<open>
  The embedded inventory (\<open>struct Inventory\<close> of \<open>src/src/validator.cpp\<close>): the grammar
  rules the text walk follows and the reviewed default function identities. The two documents are
  generated headers and enter as parameters: a document that does not parse is \<open>None\<close>.
  Hash maps are partial functions; \<open>emplace\<close> keeps the first value of a key.
\<close>

definition emplace :: "'k \<Rightarrow> 'v \<Rightarrow> ('k \<rightharpoonup> 'v) \<Rightarrow> 'k \<rightharpoonup> 'v" where
  "emplace k v m = (case m k of None \<Rightarrow> m(k \<mapsto> v) | Some _ \<Rightarrow> m)"

definition Strings :: "json_ptr \<Rightarrow> bool \<Rightarrow> exn + Names" where
  "Strings v lower =
     (if \<not> is_arr v then Inl (InvalidArgument ''expected string array'')
      else foldE (\<lambda>item names.
        if \<not> is_str (Some item) \<or> Text (Some item) = []
        then Inl (InvalidArgument ''expected nonempty string'')
        else Inr (ins (if lower then Lower (Text (Some item)) else Text (Some item)) names))
        (arr_items v) [])"

record Rule =
  rule_fields :: "string \<rightharpoonup> string"
  rule_required :: Names

record Inventory =
  inv_rules :: "string \<rightharpoonup> Rule"
  inv_dispatch :: "string \<rightharpoonup> (string \<rightharpoonup> string)"
  inv_defaults :: "FunctionGrant list"

definition expression_types :: "(string \<times> Names) list" where
  "expression_types =
     [(''BETWEEN'', [''COMPARE_BETWEEN'', ''COMPARE_NOT_BETWEEN'']),
      (''CASE'', [''CASE_EXPR'']),
      (''CAST'', [''OPERATOR_CAST'']),
      (''COLLATE'', [''COLLATE'']),
      (''COLUMN_REF'', [''COLUMN_REF'']),
      (''COMPARISON'', [''COMPARE_EQUAL'', ''COMPARE_NOTEQUAL'', ''COMPARE_LESSTHAN'',
         ''COMPARE_GREATERTHAN'', ''COMPARE_LESSTHANOREQUALTO'', ''COMPARE_GREATERTHANOREQUALTO'',
         ''COMPARE_DISTINCT_FROM'', ''COMPARE_NOT_DISTINCT_FROM'']),
      (''CONJUNCTION'', [''CONJUNCTION_AND'', ''CONJUNCTION_OR'']),
      (''CONSTANT'', [''VALUE_CONSTANT'']),
      (''FUNCTION'', [''FUNCTION'']),
      (''LAMBDA'', [''LAMBDA'']),
      (''OPERATOR'', [''OPERATOR_NOT'', ''OPERATOR_IS_NULL'', ''OPERATOR_IS_NOT_NULL'',
         ''OPERATOR_UNPACK'', ''COMPARE_IN'', ''COMPARE_NOT_IN'', ''GROUPING_FUNCTION'',
         ''OPERATOR_COALESCE'', ''ARRAY_EXTRACT'', ''ARRAY_SLICE'', ''STRUCT_EXTRACT'',
         ''ARRAY_CONSTRUCTOR'', ''ARROW'', ''OPERATOR_TRY'']),
      (''PARAMETER'', [''VALUE_PARAMETER'']),
      (''POSITIONAL_REFERENCE'', [''POSITIONAL_REFERENCE'']),
      (''STAR'', [''STAR'']),
      (''TYPE'', [''TYPE'']),
      (''SUBQUERY'', [''SUBQUERY'']),
      (''WINDOW'', [''WINDOW_AGGREGATE'', ''WINDOW_RANK'', ''WINDOW_RANK_DENSE'', ''WINDOW_NTILE'',
         ''WINDOW_PERCENT_RANK'', ''WINDOW_CUME_DIST'', ''WINDOW_ROW_NUMBER'', ''WINDOW_FIRST_VALUE'',
         ''WINDOW_LAST_VALUE'', ''WINDOW_LEAD'', ''WINDOW_LAG'', ''WINDOW_NTH_VALUE'', ''WINDOW_FILL''])]"

text \<open>The three loops of the constructor, in order.\<close>

definition read_rule :: "json \<Rightarrow> exn + Rule" where
  "read_rule v =
     bindE (Strings (obj_get (Some v) ''required'') False) (\<lambda>required.
       Inr \<lparr>rule_fields = fold (\<lambda>(field, t). emplace field (Text (Some t)))
                (obj_members (obj_get (Some v) ''fields'')) Map.empty,
            rule_required = required\<rparr>)"

definition read_rules :: "json_ptr \<Rightarrow> exn + (string \<rightharpoonup> Rule)" where
  "read_rules doc = foldE (\<lambda>(key, v) rules. bindE (read_rule v) (\<lambda>rule. Inr (emplace key rule rules)))
     (obj_members (obj_get doc ''rules'')) Map.empty"

definition read_dispatch :: "json_ptr \<Rightarrow> string \<rightharpoonup> (string \<rightharpoonup> string)" where
  "read_dispatch doc = fold (\<lambda>(key, v) dispatch.
       dispatch(key \<mapsto> fold (\<lambda>(field, t). emplace field (Text (Some t))) (obj_members (Some v))
         (case dispatch key of Some mapping \<Rightarrow> mapping | None \<Rightarrow> Map.empty)))
     (obj_members (obj_get doc ''dispatch'')) Map.empty"

definition read_default_component :: "json \<Rightarrow> exn + string" where
  "read_default_component field =
     (let part = Text (Some field)
      in if part = [] \<or> part = ''*'' \<or> part \<noteq> Lower part \<or> CHR 0x00 \<in> set part
         then Inl (RuntimeError ''invalid embedded default schema component'') else Inr part)"

definition read_default :: "json \<Rightarrow> FunctionGrant list \<Rightarrow> exn + FunctionGrant list" where
  "read_default v known =
     (let path = obj_get (Some v) ''schema_path''
      in if \<not> is_arr path then Inl (RuntimeError ''invalid embedded default schema_path'')
         else bindE (mapE read_default_component (arr_items path)) (\<lambda>schema_path.
           let i = \<lparr>g_catalog = Field (Some v) ''catalog'', g_schema_path = schema_path,
                    g_name = Field (Some v) ''name'', g_type = Field (Some v) ''type''\<rparr>
           in if g_catalog i = [] \<or> g_catalog i = ''*'' \<or> g_schema_path i = [] \<or> g_name i = [] \<or>
                 \<not> SupportedFunctionKind (g_type i) \<or> g_catalog i \<noteq> Lower (g_catalog i) \<or>
                 g_name i \<noteq> Lower (g_name i) \<or> CHR 0x00 \<in> set (g_catalog i) \<or>
                 CHR 0x00 \<in> set (g_name i) \<or> i \<in> set known
              then Inl (RuntimeError ''invalid embedded default identity'')
              else Inr (std_insert FunctionGrant_key i known)))"

definition make_Inventory :: "json_ptr \<Rightarrow> json_ptr \<Rightarrow> exn + Inventory" where
  "make_Inventory grammar inventory =
     (if grammar = None \<or> inventory = None then Inl (RuntimeError ''invalid embedded inventory'')
      else bindE (read_rules grammar) (\<lambda>rules.
        let entries = obj_get inventory ''defaults''
        in if \<not> is_arr entries then Inl (RuntimeError ''invalid embedded default identities'')
           else bindE (foldE read_default (arr_items entries) []) (\<lambda>known.
             Inr \<lparr>inv_rules = rules, inv_dispatch = read_dispatch grammar, inv_defaults = known\<rparr>)))"

section \<open>What construction guarantees\<close>

lemma read_default_component_wf:
  "read_default_component field = Inr part \<Longrightarrow> wf_identifier part \<and> part \<noteq> ''*''"
  by (auto simp: read_default_component_def wf_identifier_def Let_def split: if_split_asm)

lemma read_default_wf:
  assumes "read_default v known = Inr known'" and "list_all wf_default known"
  shows "list_all wf_default known'" and "std_ordered FunctionGrant_key known \<Longrightarrow> std_ordered FunctionGrant_key known'"
proof -
  from assms(1) obtain p where p: "mapE read_default_component (arr_items (obj_get (Some v) ''schema_path'')) = Inr p"
    by (auto simp: read_default_def Let_def bindE_eq_Inr split: if_split_asm)
  define i where "i = \<lparr>g_catalog = Field (Some v) ''catalog'', g_schema_path = p,
    g_name = Field (Some v) ''name'', g_type = Field (Some v) ''type''\<rparr>"
  have path: "list_all (\<lambda>part. wf_identifier part \<and> part \<noteq> ''*'') p"
    using p unfolding mapE_eq_Inr_iff
    by (induction rule: list_all2_induct) (simp_all add: read_default_component_wf)
  from assms(1) p have k: "known' = std_insert FunctionGrant_key i known"
      and ok: "\<not> (g_catalog i = [] \<or> g_catalog i = ''*'' \<or> g_schema_path i = [] \<or> g_name i = [] \<or>
                 \<not> SupportedFunctionKind (g_type i) \<or> g_catalog i \<noteq> Lower (g_catalog i) \<or>
                 g_name i \<noteq> Lower (g_name i) \<or> CHR 0x00 \<in> set (g_catalog i) \<or>
                 CHR 0x00 \<in> set (g_name i) \<or> i \<in> set known)"
    unfolding read_default_def Let_def i_def by (simp_all split: if_split_asm)
  have "''*'' \<notin> set p" "list_all wf_identifier p" using path by (auto simp: list_all_iff)
  with ok have "wf_default i"
    unfolding wf_default_def wf_identifier_def wf_path_def by (simp add: i_def)
  with assms(2) k show "list_all wf_default known'" by (simp add: list_all_iff)
  show "std_ordered FunctionGrant_key known \<Longrightarrow> std_ordered FunctionGrant_key known'"
    unfolding k by (rule std_ordered_insert)
qed

lemma read_defaults_ok:
  assumes "foldE read_default entries [] = Inr known"
  shows "list_all wf_default known \<and> std_ordered FunctionGrant_key known"
  using assms
  by (rule foldE_invariant) (auto intro: read_default_wf)

text \<open>C36. A successfully constructed inventory satisfies what authorization assumes of it: every
  default identity has a concrete catalog, a concrete schema path, a name, and a supported kind, all
  case-folded; and for such an inventory the pre-bind screen is exact.\<close>

theorem make_Inventory_wf:
  assumes "make_Inventory grammar inventory = Inr data" and "wf_policy p"
  shows "wf_inventory (inv_defaults data) \<and> std_ordered FunctionGrant_key (inv_defaults data) \<and>
    (\<forall>name. FunctionEligible (inv_defaults data) p name \<longrightarrow>
       (\<exists>i. Lower (i_name i) = Lower name \<and> FunctionAllowed (inv_defaults data) p i))"
proof -
  from assms(1) obtain entries where "foldE read_default entries [] = Inr (inv_defaults data)"
    by (auto simp: make_Inventory_def Let_def bindE_eq_Inr split: if_split_asm)
  then have d: "list_all wf_default (inv_defaults data)" "std_ordered FunctionGrant_key (inv_defaults data)"
    using read_defaults_ok by blast+
  then have "wf_inventory (inv_defaults data)" by (simp add: wf_inventory_def)
  with d(2) show ?thesis using FunctionEligible_instance [OF assms(2)] by blast
qed

definition sample_grammar :: json where
  "sample_grammar = JObj
     [(''rules'', JObj
        [(''root'', JObj [(''fields'', JObj [(''node'', JStr ''ParsedExpression'')]), (''required'', JArr [JStr ''node''])]),
         (''ConstantExpression'', JObj [(''fields'', JObj [(''class'', JStr ''string''), (''type'', JStr ''string''),
            (''value'', JStr ''opaque'')]), (''required'', JArr [])]),
         (''FunctionExpression'', JObj [(''fields'', JObj [(''class'', JStr ''string''), (''type'', JStr ''string''),
            (''function_name'', JStr ''string''), (''children'', JStr ''ParsedExpression[]''),
            (''query_location'', JStr ''number'')]),
            (''required'', JArr [JStr ''function_name''])])]),
      (''dispatch'', JObj
        [(''ParsedExpression'', JObj [(''CONSTANT'', JStr ''ConstantExpression''),
            (''FUNCTION'', JStr ''FunctionExpression'')])])]"

definition sample_defaults :: json where
  "sample_defaults = JObj [(''defaults'', JArr
     [JObj [(''catalog'', JStr ''system''), (''schema_path'', JArr [JStr ''main'']), (''name'', JStr ''md5''),
        (''type'', JStr ''scalar'')],
      JObj [(''catalog'', JStr ''system''), (''schema_path'', JArr [JStr ''main'']), (''name'', JStr ''sum''),
        (''type'', JStr ''aggregate'')]])]"

lemma sample_inventory_constructed: "\<exists>data. make_Inventory (Some sample_grammar) (Some sample_defaults) = Inr data"
proof -
  have "\<not> isl (make_Inventory (Some sample_grammar) (Some sample_defaults))" by code_simp
  then show ?thesis by (cases "make_Inventory (Some sample_grammar) (Some sample_defaults)") simp_all
qed

theorem make_Inventory_wf_witness:
  "\<exists>data. make_Inventory (Some sample_grammar) (Some sample_defaults) = Inr data \<and> wf_policy sample_policy \<and>
     wf_inventory (inv_defaults data) \<and> std_ordered FunctionGrant_key (inv_defaults data) \<and>
     (\<forall>name. FunctionEligible (inv_defaults data) sample_policy name \<longrightarrow>
       (\<exists>i. Lower (i_name i) = Lower name \<and> FunctionAllowed (inv_defaults data) sample_policy i))"
proof -
  obtain data where h: "make_Inventory (Some sample_grammar) (Some sample_defaults) = Inr data"
    using sample_inventory_constructed ..
  show ?thesis using h sample_policy_wf make_Inventory_wf [OF h sample_policy_wf] by blast
qed

end
