(* ===== verification/Grammar_Walk.thy ===== *)
theory Grammar_Walk
  imports Inventory_Model Provenance_Model
begin

text \<open>
  The text walk (\<open>struct Walker\<close> and \<open>Validate\<close> of \<open>src/src/validator.cpp\<close>): the serialized
  statement is checked node by node against the embedded grammar, with a work list instead of
  recursion, while names the caller wrote are collected into the binding policy. The members a walk
  never changes are the record \<open>WalkContext\<close>, the ones it changes the record \<open>Walker\<close>. A thrown
  \<open>Stop\<close> leaves the state as it was thrown in. The work list keeps its back at the head.
\<close>

record Stop =
  stop_message :: string
  stop_rule :: string

definition stop :: "string \<Rightarrow> Stop" where
  "stop m = \<lparr>stop_message = m, stop_rule = rules_UNSUPPORTED_STRUCTURE\<rparr>"

record Work =
  wk_value :: json_ptr
  wk_expected :: string
  wk_depth :: nat
  wk_edge :: string

record WalkContext =
  cx_inventory :: Inventory
  cx_layers :: Layers
  cx_limits :: Limits

record Walker =
  w_binding :: "BindingPolicy option"
  w_violations :: "Violation list"
  w_functions :: "(string \<times> nat) list"
  w_function_positions :: "(string \<times> int) list"
  w_nodes :: nat
  w_pending :: "Work list"

type_synonym walk_step = "Walker \<Rightarrow> Stop option \<times> Walker"

definition with_binding :: "(BindingPolicy \<Rightarrow> BindingPolicy) \<Rightarrow> Walker \<Rightarrow> Walker" where
  "with_binding f w = w\<lparr>w_binding := map_option f (w_binding w)\<rparr>"

section \<open>Names as written\<close>

definition written_component :: "json \<Rightarrow> Stop + string" where
  "written_component part =
     (if \<not> is_str (Some part) then Inl (stop ''invalid qualified name component'')
      else Inr (Text (Some part)))"

definition WrittenPath :: "json_ptr \<Rightarrow> bool \<Rightarrow> Stop + NamePath" where
  "WrittenPath v function =
     (case obj_get v ''qualified_name'' of
        Some qualified \<Rightarrow>
          (let parts = obj_get (Some qualified) ''path''
           in if \<not> is_arr parts then Inl (stop ''invalid qualified name path'')
              else bindE (mapE written_component (arr_items parts)) (\<lambda>path.
                if path = [] then Inl (stop ''empty qualified name path'') else Inr (FoldPath path)))
      | None \<Rightarrow>
          (let catalog = Field v (if function then ''catalog'' else ''catalog_name'');
               schema = Field v (if function then ''schema'' else ''schema_name'');
               qualifier = (if catalog \<noteq> [] then [catalog, schema] else if schema \<noteq> [] then [schema] else [])
           in Inr (FoldPath (qualifier @ [Field v (if function then ''function_name'' else ''table_name'')]))))"

section \<open>Calls and literals\<close>

definition Arguments :: "json_ptr \<Rightarrow> json_ptr list" where
  "Arguments call = map Some (arr_items (obj_get call ''children'')) @
     map (\<lambda>item. obj_get (Some item) ''expression'') (arr_items (obj_get call ''arguments''))"

definition HasNamedArguments :: "json_ptr \<Rightarrow> bool" where
  "HasNamedArguments call \<longleftrightarrow>
     list_ex (\<lambda>item. Field (Some item) ''name'' \<noteq> []) (arr_items (obj_get call ''arguments'')) \<or>
     list_ex (\<lambda>item. Field (Some item) ''alias'' \<noteq> []) (arr_items (obj_get call ''children''))"

definition ArgumentName :: "json_ptr \<Rightarrow> nat \<Rightarrow> string" where
  "ArgumentName call index = (case obj_get call ''arguments'' of
     Some arguments \<Rightarrow> Field (arr_get (Some arguments) index) ''name''
   | None \<Rightarrow> Field (arr_get (obj_get call ''children'') index) ''alias'')"

definition ArgumentValue :: "json_ptr \<Rightarrow> json_ptr" where
  "ArgumentValue argument =
     (if Field argument ''type'' = ''COMPARE_EQUAL'' \<and>
         Field (obj_get argument ''left'') ''class'' = ''COLUMN_REF'' \<and>
         arr_size (obj_get (obj_get argument ''left'') ''column_names'') = 1
      then obj_get argument ''right'' else argument)"

text \<open>One iteration of the loop of \<open>BindLiteral\<close>: the verdict, or the nodes to look at next.\<close>

definition literal_container :: "bool \<Rightarrow> bool \<Rightarrow> json_ptr \<Rightarrow> bool" where
  "literal_container containers pivot_names expr \<longleftrightarrow>
     (let kind = Field expr ''class''; name = Lower (Field expr ''function_name'')
      in containers \<and>
         (kind = ''OPERATOR'' \<and> Field expr ''type'' = ''ARRAY_CONSTRUCTOR'' \<or>
          kind = ''FUNCTION'' \<and> (name = ''list_value'' \<or> name = ''struct_pack'' \<or> pivot_names \<and> name = ''row'')))"

definition constructor_path :: "NamePath \<Rightarrow> string \<Rightarrow> bool" where
  "constructor_path path name \<longleftrightarrow>
     path = [name] \<or> path = [''main'', name] \<or> path = [''system'', ''main'', name] \<or> path = [''system'', [], name]"

definition add_literal_constructor :: "string \<Rightarrow> BindingPolicy option \<Rightarrow> BindingPolicy option" where
  "add_literal_constructor name =
     map_option (\<lambda>b. b\<lparr>literal_constructors := ins name (literal_constructors b)\<rparr>)"

definition bind_literal_node ::
    "bool \<Rightarrow> bool \<Rightarrow> json_ptr \<Rightarrow> BindingPolicy option \<Rightarrow> (Stop + json_ptr list option) \<times> BindingPolicy option" where
  "bind_literal_node containers pivot_names expr binding =
     (let kind = Field expr ''class''; name = Lower (Field expr ''function_name'')
      in if kind = ''CONSTANT'' \<or> kind = ''PARAMETER'' then (Inr (Some []), binding)
         else if pivot_names \<and> kind = ''COLUMN_REF'' \<and> arr_size (obj_get expr ''column_names'') = 1
         then (Inr (Some []), binding)
         else if kind = ''CAST'' then (Inr (Some [obj_get expr ''child'']), binding)
         else if \<not> literal_container containers pivot_names expr then (Inr None, binding)
         else
           (let b1 = (if kind = ''OPERATOR'' then add_literal_constructor ''list_value'' binding else binding)
            in if obj_get expr ''filter'' \<noteq> None \<or> arr_size (obj_get (obj_get expr ''order_bys'') ''orders'') \<noteq> 0
               then (Inr None, b1)
               else
                 (let b2 = (if kind = ''FUNCTION'' then add_literal_constructor name b1 else b1);
                      arguments = (if \<not> is_arr (obj_get expr ''children'') \<and> \<not> is_arr (obj_get expr ''arguments'')
                                   then None else Some (Arguments expr))
                  in if kind = ''FUNCTION'' then
                       (case WrittenPath expr True of
                          Inl s \<Rightarrow> (Inl s, b2)
                        | Inr path \<Rightarrow> (Inr (if constructor_path path name then arguments else None), b2))
                     else (Inr arguments, b2))))"

function bind_literal_loop ::
    "nat \<Rightarrow> bool \<Rightarrow> bool \<Rightarrow> json_ptr list \<Rightarrow> nat \<Rightarrow> BindingPolicy option \<Rightarrow> (Stop + bool) \<times> BindingPolicy option" where
  "bind_literal_loop limit containers pivot_names [] visited binding = (Inr True, binding)"
| "bind_literal_loop limit containers pivot_names (expr # work) visited binding =
     (if Suc visited > limit then (Inr False, binding)
      else case bind_literal_node containers pivot_names expr binding of
        (Inl s, b) \<Rightarrow> (Inl s, b)
      | (Inr None, b) \<Rightarrow> (Inr False, b)
      | (Inr (Some next), b) \<Rightarrow>
          bind_literal_loop limit containers pivot_names (rev next @ work) (Suc visited) b)"
  by pat_completeness auto
termination
  by (relation "measure (\<lambda>(limit, _, _, _, visited, _). Suc limit - visited)") auto

definition BindLiteral ::
    "Limits \<Rightarrow> json_ptr \<Rightarrow> bool \<Rightarrow> bool \<Rightarrow> BindingPolicy option \<Rightarrow> (Stop + bool) \<times> BindingPolicy option" where
  "BindLiteral limits v containers pivot_names binding =
     bind_literal_loop (l_nodes limits) containers pivot_names [v] 0 binding"

definition reference_keys :: Names where
  "reference_keys = [''children'', ''arguments'', ''expression'', ''child'', ''left'', ''right'', ''input'',
     ''lower'', ''upper'', ''else_expr'', ''case_checks'', ''when_expr'', ''then_expr'']"

function runtime_reference_loop :: "nat \<Rightarrow> json_ptr list \<Rightarrow> nat \<Rightarrow> bool" where
  "runtime_reference_loop limit [] visited = False"
| "runtime_reference_loop limit (expr # work) visited =
     (if Suc visited > limit then False
      else if is_arr expr
      then runtime_reference_loop limit (rev (map Some (arr_items expr)) @ work) (Suc visited)
      else
        (let kind = Field expr ''class''
         in if kind = ''COLUMN_REF'' \<or> kind = ''SUBQUERY'' then True
            else if kind = ''CONSTANT'' \<or> kind = ''TYPE'' \<or> kind = ''LAMBDA''
            then runtime_reference_loop limit work (Suc visited)
            else runtime_reference_loop limit
              (rev (filter (\<lambda>c. c \<noteq> None) (map (obj_get expr) reference_keys)) @ work) (Suc visited)))"
  by pat_completeness auto
termination
  by (relation "measure (\<lambda>(limit, _, visited). Suc limit - visited)") auto

definition HasRuntimeReference :: "Limits \<Rightarrow> json_ptr \<Rightarrow> bool" where
  "HasRuntimeReference limits v = runtime_reference_loop (l_nodes limits) [v] 0"

section \<open>Recording\<close>

definition Reject :: "string \<Rightarrow> string \<Rightarrow> json_ptr \<Rightarrow> string \<Rightarrow> Walker \<Rightarrow> Walker" where
  "Reject rule message node function w = w\<lparr>w_violations := std_insert Violation_key
     ((violation rule message)\<lparr>v_table := Field node ''table_name'', v_function_name := function,
        v_position := Position node\<rparr>) (w_violations w)\<rparr>"

definition BindTime :: "WalkContext \<Rightarrow> json_ptr \<Rightarrow> string \<Rightarrow> bool \<Rightarrow> bool \<Rightarrow> walk_step" where
  "BindTime cx expr context containers pivot_names w =
     (if expr = None then (None, w)
      else case BindLiteral (cx_limits cx) expr containers pivot_names (w_binding w) of
        (Inl s, b) \<Rightarrow> (Some s, w\<lparr>w_binding := b\<rparr>)
      | (Inr True, b) \<Rightarrow> (None, w\<lparr>w_binding := b\<rparr>)
      | (Inr False, b) \<Rightarrow> (None, Reject rules_BIND_TIME_EXPRESSION
            (context @ '' requires a literal or bindable parameter'') expr [] (w\<lparr>w_binding := b\<rparr>)))"

definition Implied :: "Names \<Rightarrow> Walker \<Rightarrow> Walker" where
  "Implied names = with_binding
     (\<lambda>b. b\<lparr>synthesized_functions := ins_all (map Lower names) (synthesized_functions b)\<rparr>)"

definition Function :: "string \<Rightarrow> json_ptr \<Rightarrow> Walker \<Rightarrow> Walker" where
  "Function written v w =
     (let name = Lower written; position = Position v;
          count = (case map_of (w_functions w) name of Some c \<Rightarrow> c | None \<Rightarrow> 0);
          w1 = w\<lparr>w_functions := std_put name (Suc count) (w_functions w)\<rparr>
      in if position \<ge> 0 \<and> (case map_of (w_function_positions w) name of
              None \<Rightarrow> True | Some found \<Rightarrow> position < found)
         then w1\<lparr>w_function_positions := std_put name position (w_function_positions w)\<rparr>
         else w1)"

section \<open>References\<close>

text \<open>The blocks of \<open>References\<close>, one definition each, in order.\<close>

definition ref_parameter :: "json_ptr \<Rightarrow> string \<Rightarrow> Walker \<Rightarrow> Walker" where
  "ref_parameter v kind w =
     (if kind \<noteq> ''ParameterExpression'' then w
      else with_binding (\<lambda>b.
        let name = Lower (Field v ''identifier''); position = Position v
        in case map_of (caller_parameters b) name of
             None \<Rightarrow> b\<lparr>caller_parameters := std_put name position (caller_parameters b)\<rparr>
           | Some known \<Rightarrow>
               if position \<ge> 0 \<and> (known < 0 \<or> position < known)
               then b\<lparr>caller_parameters := std_put name position (caller_parameters b)\<rparr> else b) w)"

definition ref_table :: "json_ptr \<Rightarrow> string \<Rightarrow> walk_step" where
  "ref_table v kind w =
     (if kind \<noteq> ''BaseTableRef'' \<or> w_binding w = None then (None, w)
      else case WrittenPath v False of
        Inl s \<Rightarrow> (Some s, w)
      | Inr path \<Rightarrow> (None, with_binding (\<lambda>b. b\<lparr>caller_table_names := ins path (caller_table_names b)\<rparr>) w))"

definition ref_collate :: "json_ptr \<Rightarrow> string \<Rightarrow> Walker \<Rightarrow> Walker" where
  "ref_collate v kind w =
     (if kind \<noteq> ''CollateExpression'' then w
      else with_binding (\<lambda>b. b\<lparr>caller_collates := True,
        caller_collation_names := ins (Lower (Field v ''collation'')) (caller_collation_names b)\<rparr>) w)"

definition ref_bind_time :: "WalkContext \<Rightarrow> json_ptr \<Rightarrow> string \<Rightarrow> walk_step" where
  "ref_bind_time cx v kind w =
     (if kind = ''LimitModifier'' \<or> kind = ''LimitPercentModifier'' \<or> kind = ''LegacyLimitPercentModifier''
      then seqO (BindTime cx (obj_get v ''limit'') ''LIMIT'' False False w)
             (BindTime cx (obj_get v ''offset'') ''OFFSET'' False False)
      else if kind = ''AtClause'' then BindTime cx (obj_get v ''expr'') ''AT clause'' False False w
      else if kind = ''StarExpression'' then BindTime cx (obj_get v ''expr'') ''COLUMNS'' True False w
      else if kind = ''PivotColumnEntry'' then BindTime cx (obj_get v ''star_expr'') ''PIVOT IN'' True True w
      else (None, w))"

definition ref_sample :: "json_ptr \<Rightarrow> string \<Rightarrow> Walker \<Rightarrow> Walker" where
  "ref_sample v kind w =
     (let sample = obj_get v ''sample_size''
      in if kind = ''SampleOptions'' \<and> sample \<noteq> None \<and>
            (\<not> is_obj sample \<or> obj_get sample ''type'' = None \<or> obj_get sample ''class'' \<noteq> None)
         then Reject rules_BIND_TIME_EXPRESSION ''sample size requires a literal'' v [] w else w)"

definition ref_cast :: "json_ptr \<Rightarrow> string \<Rightarrow> walk_step" where
  "ref_cast v kind w =
     (let target = obj_get v ''type_expr''
      in if kind = ''CastExpression'' \<and> target \<noteq> None \<and> Field target ''class'' \<noteq> ''TYPE''
         then (Some (stop ''computed type expressions are unsupported''), w) else (None, w))"

definition ref_type :: "WalkContext \<Rightarrow> json_ptr \<Rightarrow> string \<Rightarrow> walk_step" where
  "ref_type cx v kind w =
     (if kind \<noteq> ''TypeExpression'' then (None, w)
      else foldO (\<lambda>child w. if Field (Some child) ''class'' \<noteq> ''TYPE''
          then BindTime cx (Some child) ''type parameter'' False False w else (None, w))
        (arr_items (obj_get v ''children'')) w)"

definition ref_operator :: "json_ptr \<Rightarrow> string \<Rightarrow> Walker \<Rightarrow> Walker" where
  "ref_operator v kind w =
     (let t = Field v ''type''
      in if kind \<noteq> ''OperatorExpression'' then w
         else if t = ''ARRAY_CONSTRUCTOR'' then Function ''list_value'' v (Implied [''list_value''] w)
         else if t = ''ARRAY_SLICE'' then Function ''array_slice'' v (Implied [''array_slice''] w)
         else if t = ''ARROW'' then Function ''json_extract'' v (Implied [''json_extract''] w)
         else if t = ''ARRAY_EXTRACT''
         then Implied [''array_extract'', ''map_extract_value'', ''json_extract'', ''variant_extract''] w
         else if t = ''STRUCT_EXTRACT''
         then Implied [''struct_extract'', ''union_extract'', ''map_extract_value'', ''json_extract'',
                ''variant_extract''] w
         else w)"

definition ref_lambda :: "json_ptr \<Rightarrow> string \<Rightarrow> Walker \<Rightarrow> Walker" where
  "ref_lambda v kind w =
     (if kind = ''LambdaExpression'' \<and> Field v ''syntax_type'' \<noteq> ''LAMBDA_KEYWORD''
      then Implied [''json_extract''] w else w)"

definition sql_values :: "(string \<times> string) list" where
  "sql_values =
     [(''current_catalog'', ''current_catalog''), (''current_schema'', ''current_schema''),
      (''current_date'', ''current_date''), (''current_time'', ''get_current_time''),
      (''current_timestamp'', ''get_current_timestamp''), (''current_user'', ''current_user''),
      (''current_role'', ''current_role''), (''session_user'', ''session_user''), (''user'', ''user''),
      (''localtime'', ''current_localtime''), (''localtimestamp'', ''current_localtimestamp'')]"

definition ref_column :: "json_ptr \<Rightarrow> string \<Rightarrow> Walker \<Rightarrow> Walker" where
  "ref_column v kind w =
     (let columns = obj_get v ''column_names''
      in if kind \<noteq> ''ColumnRefExpression'' then w
         else if arr_size columns > 1
         then Implied [''struct_extract'', ''struct_pack'', ''union_extract'', ''map_extract_value'',
                ''json_extract'', ''variant_extract''] w
         else case map_of sql_values (Lower (Text (arr_get columns 0))) of
           Some found \<Rightarrow> Implied [found] (Implied [''struct_pack''] w)
         | None \<Rightarrow> Implied [''struct_pack''] w)"

text \<open>The blocks for calls: function and window expressions.\<close>

definition call_window :: "json_ptr \<Rightarrow> string \<Rightarrow> string \<Rightarrow> Walker \<Rightarrow> Walker" where
  "call_window v kind name w =
     (if kind = ''WindowExpression'' \<and> obj_get v ''qualified_name'' = None \<and> Field v ''type'' \<noteq> ''WINDOW_AGGREGATE''
      then with_binding (\<lambda>b.
        let key = WindowImplementationName name;
            known = (case map_of (intrinsic_windows b) key of Some ns \<Rightarrow> ns | None \<Rightarrow> [])
        in b\<lparr>intrinsic_windows := std_put key (ins name known) (intrinsic_windows b)\<rparr>) w
      else w)"

definition call_implied :: "json_ptr \<Rightarrow> string \<Rightarrow> Walker \<Rightarrow> Walker" where
  "call_implied v name w =
     (let w1 = (if is_true (obj_get v ''is_operator'') then Implied [name] w else w)
      in if name = ''list_value'' \<or> name = ''struct_pack'' \<or> name = ''row'' \<or> name = ''contains'' \<or>
            name = ''regexp_full_match''
         then Implied [name] w1 else w1)"

definition call_table_function :: "WalkContext \<Rightarrow> json_ptr \<Rightarrow> string \<Rightarrow> string \<Rightarrow> walk_step" where
  "call_table_function cx v edge name w =
     (if edge \<noteq> ''function'' then (None, w)
      else
        (let runtime = name \<in> set [''unnest'', ''range'', ''generate_series''] \<and>
               list_ex (\<lambda>argument. HasRuntimeReference (cx_limits cx) (ArgumentValue argument)) (Arguments v)
         in if runtime
            then (None, with_binding (\<lambda>b. b\<lparr>runtime_table_functions := ins name (runtime_table_functions b)\<rparr>) w)
            else foldO (\<lambda>argument. BindTime cx (ArgumentValue argument) ''table-function argument'' True False)
              (Arguments v) w))"

definition call_unnest :: "WalkContext \<Rightarrow> json_ptr \<Rightarrow> string \<Rightarrow> walk_step" where
  "call_unnest cx v name w =
     (if name \<noteq> ''unnest'' then (None, w)
      else foldO (\<lambda>(i, argument) w. if i > 0 \<or> ArgumentName v i \<noteq> []
          then BindTime cx argument ''UNNEST option'' False False w else (None, w))
        (enumerate 0 (Arguments v)) w)"

definition quantiles :: Names where
  "quantiles = [''quantile'', ''quantile_cont'', ''quantile_disc'', ''approx_quantile'', ''reservoir_quantile'']"

definition add_unsupported_quantile :: "string \<Rightarrow> Walker \<Rightarrow> Walker" where
  "add_unsupported_quantile name =
     with_binding (\<lambda>b. b\<lparr>unsupported_quantiles := ins name (unsupported_quantiles b)\<rparr>)"

definition quantile_fraction :: "WalkContext \<Rightarrow> string \<Rightarrow> json_ptr \<Rightarrow> walk_step" where
  "quantile_fraction cx name argument w =
     (case BindLiteral (cx_limits cx) argument True False (w_binding w) of
        (Inl s, b) \<Rightarrow> (Some s, w\<lparr>w_binding := b\<rparr>)
      | (Inr True, b) \<Rightarrow> (None, w\<lparr>w_binding := b\<rparr>)
      | (Inr False, b) \<Rightarrow> (None, add_unsupported_quantile name (w\<lparr>w_binding := b\<rparr>)))"

definition call_quantile :: "WalkContext \<Rightarrow> json_ptr \<Rightarrow> string \<Rightarrow> walk_step" where
  "call_quantile cx v name w =
     (if w_binding w = None \<or> name \<notin> set quantiles then (None, w)
      else
        (let arguments = Arguments v;
             orders = obj_get (obj_get v ''order_bys'') ''orders'';
             fraction = (if length arguments = 1 \<and> arr_size orders \<noteq> 0 then 0 else 1)
         in case WrittenPath v True of
              Inl s \<Rightarrow> (Some s, w)
            | Inr path \<Rightarrow>
                foldO (quantile_fraction cx name) (drop fraction arguments)
                  (if length path > 1 \<or> HasNamedArguments v then add_unsupported_quantile name w else w)))"

definition call_dispatcher :: "json_ptr \<Rightarrow> string \<Rightarrow> walk_step" where
  "call_dispatcher v name w =
     (if w_binding w = None \<or> name \<notin> set DispatchingAggregators then (None, w)
      else
        (let w1 = with_binding (\<lambda>b. b\<lparr>caller_dispatchers := ins name (caller_dispatchers b)\<rparr>) w;
             arguments = Arguments v;
             target = (if length arguments > 1 then arguments ! 1 else None);
             constant = obj_get target ''value'';
             literal = obj_get target ''literal'';
             txt = (if Field literal ''kind'' = ''STRING'' then obj_get literal ''text''
                    else obj_get constant ''value'')
         in case WrittenPath v True of
              Inl s \<Rightarrow> (Some s, w1)
            | Inr path \<Rightarrow>
                if length path > 1 \<or> HasNamedArguments v \<or> Field target ''class'' \<noteq> ''CONSTANT'' \<or> \<not> is_str txt
                then (None, with_binding (\<lambda>b. b\<lparr>unsupported_dispatchers := ins name (unsupported_dispatchers b)\<rparr>) w1)
                else (None, with_binding (\<lambda>b.
                  let t = Lower (Text txt);
                      known = (case map_of (dispatcher_targets_by_name b) name of Some ns \<Rightarrow> ns | None \<Rightarrow> [])
                  in b\<lparr>dispatcher_targets := ins t (dispatcher_targets b),
                       dispatcher_targets_by_name := std_put name (ins t known) (dispatcher_targets_by_name b)\<rparr>) w1)))"

definition DynamicSql :: "string \<Rightarrow> string \<Rightarrow> bool" where
  "DynamicSql edge name \<longleftrightarrow>
     edge = ''function'' \<and> (name = ''query'' \<or> name = ''query_table'' \<or> name = ''json_execute_serialized_sql'') \<or>
     name = ''json_serialize_plan''"

definition call_dynamic :: "json_ptr \<Rightarrow> string \<Rightarrow> string \<Rightarrow> Walker \<Rightarrow> Walker" where
  "call_dynamic v edge name w =
     (if DynamicSql edge name
      then w\<lparr>w_violations := std_insert Violation_key
        ((violation rules_DYNAMIC_SQL (''dynamic SQL is never allowed: '' @ name))
           \<lparr>v_function_name := name, v_position := Position v\<rparr>) (w_violations w)\<rparr>
      else w)"

definition ref_call :: "WalkContext \<Rightarrow> json_ptr \<Rightarrow> string \<Rightarrow> string \<Rightarrow> walk_step" where
  "ref_call cx v kind edge w =
     (if kind \<noteq> ''FunctionExpression'' \<and> kind \<noteq> ''WindowExpression'' then (None, w)
      else
        (let name = Lower (Field v ''function_name'')
         in seqO (call_table_function cx v edge name (call_implied v name (call_window v kind name w))) (\<lambda>w1.
            seqO (call_unnest cx v name w1) (\<lambda>w2.
            seqO (call_quantile cx v name w2) (\<lambda>w3.
            seqO (call_dispatcher v name (Function name v w3)) (\<lambda>w4.
              (None, call_dynamic v edge name w4)))))))"

definition ref_show :: "WalkContext \<Rightarrow> json_ptr \<Rightarrow> string \<Rightarrow> Walker \<Rightarrow> Walker" where
  "ref_show cx v kind w =
     (if kind \<noteq> ''ShowRef'' then w
      else if obj_get v ''query'' \<noteq> None then w
      else if \<not> Layers_All (\<lambda>p. \<not> tables p \<and> blocked_tables p = []) (cx_layers cx)
      then Reject rules_TABLE ''schema-wide SHOW is disabled by table policy'' v [] w
      else w)"

definition References :: "WalkContext \<Rightarrow> json_ptr \<Rightarrow> string \<Rightarrow> string \<Rightarrow> walk_step" where
  "References cx v kind edge w =
     seqO (ref_table v kind (ref_parameter v kind w)) (\<lambda>w1.
     seqO (ref_bind_time cx v kind (ref_collate v kind w1)) (\<lambda>w2.
     seqO (ref_cast v kind (ref_sample v kind w2)) (\<lambda>w3.
     seqO (ref_type cx v kind w3) (\<lambda>w4.
     seqO (ref_call cx v kind edge (ref_column v kind (ref_lambda v kind (ref_operator v kind w4)))) (\<lambda>w5.
       (None, ref_show cx v kind w5))))))"

section \<open>The walk\<close>

definition Type :: "json_ptr \<Rightarrow> nat \<Rightarrow> Stop + Work list" where
  "Type v depth =
     (let type_work = (\<lambda>x expected. \<lparr>wk_value = x, wk_expected = expected, wk_depth = depth + 1, wk_edge = ''type''\<rparr>);
          i = Field v ''id''; info = obj_get v ''type_info''
      in if i = ''UNBOUND'' \<or> i = ''USER'' then
           (case obj_get info ''expr'' of
              Some expr \<Rightarrow>
                if Field (Some expr) ''class'' \<noteq> ''TYPE''
                then Inl (stop ''computed type expressions are unsupported'')
                else Inr [type_work (Some expr) ''ParsedExpression'']
            | None \<Rightarrow> if Field info ''name'' = [] then Inl (stop ''missing type name'') else Inr [])
         else if i = [] then Inl (stop ''missing logical type id'')
         else if info = None then Inr []
         else
           (let children = obj_get info ''child_types'';
                child = (case obj_get info ''child_type'' of
                  Some c \<Rightarrow> [type_work (Some c) ''logical_type''] | None \<Rightarrow> [])
            in if children \<noteq> None \<and> \<not> is_arr children then Inl (stop ''invalid nested type list'')
               else Inr (child @ map (\<lambda>entry. type_work (obj_get (Some entry) ''second'') ''logical_type'')
                      (arr_items children))))"

text \<open>The element rule of a list rule, \<open>T[]\<close>.\<close>

definition list_element :: "string \<Rightarrow> string option" where
  "list_element expected =
     (if length expected > 2 \<and> drop (length expected - 2) expected = ''[]''
      then Some (take (length expected - 2) expected) else None)"

definition resolve_kind :: "Inventory \<Rightarrow> string \<Rightarrow> json_ptr \<Rightarrow> Stop + string" where
  "resolve_kind inventory expected v =
     (case inv_dispatch inventory expected of
        None \<Rightarrow> Inr expected
      | Some mapping \<Rightarrow>
          (let tag = Field v (if expected = ''ParsedExpression'' then ''class'' else ''type'')
           in if expected = ''ParsedExpression'' \<and>
                 (case map_of expression_types tag of
                    None \<Rightarrow> True | Some types \<Rightarrow> Field v ''type'' \<notin> set types)
              then Inl (stop ''unsupported expression type'')
              else case mapping tag of
                None \<Rightarrow> Inl (stop (''unsupported AST kind: '' @ tag))
              | Some found \<Rightarrow> Inr found))"

definition show_kinds :: Names where
  "show_kinds = [''SHOW_FROM'', ''SHOW_UNQUALIFIED'', ''SHOW_SPECIAL'', ''DESCRIBE'', ''SUMMARY'']"

definition set_operations :: Names where
  "set_operations = [''UNION'', ''EXCEPT'', ''INTERSECT'', ''UNION_BY_NAME'']"

definition set_operation_shape :: "json_ptr \<Rightarrow> bool" where
  "set_operation_shape v \<longleftrightarrow>
     (let children = obj_get v ''children''; left = obj_get v ''left''; right = obj_get v ''right''
      in if children \<noteq> None
         then \<not> (left \<noteq> None \<or> right \<noteq> None \<or> \<not> is_arr children \<or> arr_size children < 2)
         else is_obj left \<and> is_obj right)"

fun check_fields :: "Rule \<Rightarrow> string list \<Rightarrow> Names \<Rightarrow> Stop option" where
  "check_fields rule [] seen = None"
| "check_fields rule (name # names) seen =
     (if name \<in> set seen \<or> rule_fields rule name = None then Some (stop (''unknown AST field: '' @ name))
      else check_fields rule names (ins name seen))"

definition node_shape :: "Rule \<Rightarrow> string \<Rightarrow> json_ptr \<Rightarrow> Stop option" where
  "node_shape rule kind v =
     (if kind = ''ShowRef'' \<and> Field v ''show_type'' \<notin> set show_kinds then Some (stop ''unsupported SHOW kind'')
      else if kind = ''SetOperationNode'' \<and> Field v ''setop_type'' \<notin> set set_operations
      then Some (stop ''unsupported set operation'')
      else if kind = ''SetOperationNode'' \<and> \<not> set_operation_shape v
      then Some (stop ''set operation requires either left/right or at least two children'')
      else case find (\<lambda>name. obj_get v name = None) (rule_required rule) of
        Some name \<Rightarrow> Some (stop (''missing AST field: '' @ name))
      | None \<Rightarrow> check_fields rule (map fst (obj_members v)) [])"

definition cte_children :: "json_ptr \<Rightarrow> nat \<Rightarrow> Stop + Work list" where
  "cte_children v depth =
     (case obj_get v ''cte_map'' of
        None \<Rightarrow> Inr []
      | Some m \<Rightarrow>
          (let ctes = Some m; entries = obj_get ctes ''map''
           in if \<not> is_obj ctes \<or> obj_size ctes > 1 then Inl (stop ''invalid CTE map'')
              else if obj_size ctes \<noteq> 0 \<and> entries = None \<or> entries \<noteq> None \<and> \<not> is_arr entries
              then Inl (stop ''invalid CTE entries'')
              else if \<not> distinct (map (\<lambda>child. Lower (Field (Some child) ''key'')) (arr_items entries))
              then Inl (stop ''duplicate CTE'')
              else Inr (map (\<lambda>child. \<lparr>wk_value = Some child, wk_expected = ''cte_entry'', wk_depth = depth + 1,
                wk_edge = []\<rparr>) (arr_items entries))))"

definition field_children :: "Rule \<Rightarrow> json_ptr \<Rightarrow> nat \<Rightarrow> Work list" where
  "field_children rule v depth =
     map (\<lambda>(name, child). \<lparr>wk_value = Some child, wk_expected = the (rule_fields rule name),
          wk_depth = depth + 1, wk_edge = name\<rparr>)
       (filter (\<lambda>(name, child). name \<noteq> ''cte_map'') (obj_members v))"

text \<open>
  The part of \<open>CheckNode\<close> that reads the node alone: the rule that refuses it, or the items it
  pushes, in order, with the grammar kind under which \<open>References\<close> sees it, if it does.
\<close>

definition node_children :: "Inventory \<Rightarrow> Work \<Rightarrow> Stop + Work list \<times> string option" where
  "node_children inventory work =
     (let v = wk_value work; expected = wk_expected work; depth = wk_depth work
      in if expected = ''logical_type'' then bindE (Type v depth) (\<lambda>children. Inr (children, None))
         else if expected = ''opaque'' then
           (if Field (obj_get v ''type'') ''id'' = ''TYPE''
            then Inr ([\<lparr>wk_value = obj_get v ''value'', wk_expected = ''logical_type'', wk_depth = depth + 1,
                   wk_edge = ''type''\<rparr>], None)
            else Inr ([], None))
         else case list_element expected of
           Some element \<Rightarrow>
             if \<not> is_arr v then Inl (stop ''expected array'')
             else Inr (map (\<lambda>child. \<lparr>wk_value = Some child, wk_expected = element, wk_depth = depth + 1,
                    wk_edge = []\<rparr>) (arr_items v), None)
         | None \<Rightarrow>
             if expected = ''string'' \<or> expected = ''boolean'' \<or> expected = ''number'' then
               (if expected = ''string'' \<and> \<not> is_str v \<or> expected = ''boolean'' \<and> \<not> is_bool v \<or>
                   expected = ''number'' \<and> \<not> is_num v
                then Inl (stop ''unexpected field type'') else Inr ([], None))
             else if \<not> is_obj v then Inl (stop ''expected AST object'')
             else bindE (resolve_kind inventory expected v) (\<lambda>kind.
               case inv_rules inventory kind of
                 None \<Rightarrow> Inl (stop ''unknown grammar rule'')
               | Some rule \<Rightarrow>
                   (case node_shape rule kind v of
                      Some s \<Rightarrow> Inl s
                    | None \<Rightarrow> bindE (cte_children v depth) (\<lambda>ctes.
                        Inr (ctes @ field_children rule v depth, Some kind)))))"

definition limit_stop :: Stop where
  "limit_stop = \<lparr>stop_message = ''AST size or depth limit exceeded'', stop_rule = rules_LIMIT\<rparr>"

definition CheckNode :: "WalkContext \<Rightarrow> Work \<Rightarrow> walk_step" where
  "CheckNode cx work w =
     (let w1 = w\<lparr>w_nodes := Suc (w_nodes w)\<rparr>
      in if w_nodes w1 > l_nodes (cx_limits cx) \<or> wk_depth work > l_depth (cx_limits cx)
         then (Some limit_stop, w1)
         else case node_children (cx_inventory cx) work of
           Inl s \<Rightarrow> (Some s, w1)
         | Inr (children, kind) \<Rightarrow>
             (let w2 = w1\<lparr>w_pending := rev children @ w_pending w1\<rparr>
              in case kind of
                   None \<Rightarrow> (None, w2)
                 | Some k \<Rightarrow> References cx (wk_value work) k (wk_edge work) w2))"

section \<open>What every step keeps\<close>

text \<open>
  Steps only add: violations, function names and the caller's names are never dropped, and no step of
  \<open>References\<close> touches the work list or the node count.
\<close>

definition binding_le :: "BindingPolicy \<Rightarrow> BindingPolicy \<Rightarrow> bool" where
  "binding_le b b' \<longleftrightarrow>
     fst ` set (caller_parameters b) \<subseteq> fst ` set (caller_parameters b') \<and>
     set (caller_table_names b) \<subseteq> set (caller_table_names b') \<and>
     (caller_collates b \<longrightarrow> caller_collates b') \<and>
     set (caller_collation_names b) \<subseteq> set (caller_collation_names b') \<and>
     set (caller_dispatchers b) \<subseteq> set (caller_dispatchers b') \<and>
     set (dispatcher_targets b) \<subseteq> set (dispatcher_targets b') \<and>
     set (unsupported_dispatchers b) \<subseteq> set (unsupported_dispatchers b') \<and>
     set (unsupported_quantiles b) \<subseteq> set (unsupported_quantiles b') \<and>
     set (runtime_table_functions b) \<subseteq> set (runtime_table_functions b')"

definition collected_le :: "Walker \<Rightarrow> Walker \<Rightarrow> bool" where
  "collected_le w w' \<longleftrightarrow>
     set (w_violations w) \<subseteq> set (w_violations w') \<and>
     fst ` set (w_functions w) \<subseteq> fst ` set (w_functions w') \<and>
     rel_option binding_le (w_binding w) (w_binding w')"

definition walker_le :: "Walker \<Rightarrow> Walker \<Rightarrow> bool" where
  "walker_le w w' \<longleftrightarrow> w_nodes w' = w_nodes w \<and> w_pending w' = w_pending w \<and> collected_le w w'"

lemma binding_le_refl [simp]: "binding_le b b"
  by (simp add: binding_le_def)

lemma binding_le_trans: "binding_le a b \<Longrightarrow> binding_le b c \<Longrightarrow> binding_le a c"
  unfolding binding_le_def by (elim conjE; intro conjI; (erule (1) subset_trans | simp))

lemma rel_binding_le_refl [simp]: "rel_option binding_le b b"
  by (cases b) simp_all

lemma rel_binding_le_trans:
  "rel_option binding_le a b \<Longrightarrow> rel_option binding_le b c \<Longrightarrow> rel_option binding_le a c"
  by (cases a; cases b; cases c) (auto intro: binding_le_trans)

interpretation collected: step_order collected_le
proof
  show "collected_le s s" for s by (simp add: collected_le_def)
  show "collected_le s t \<Longrightarrow> collected_le t u \<Longrightarrow> collected_le s u" for s t u
    unfolding collected_le_def by (blast intro: rel_binding_le_trans)
qed

interpretation walker: step_order walker_le
proof
  show "walker_le s s" for s using collected.le_refl by (simp add: walker_le_def)
  show "walker_le s t \<Longrightarrow> walker_le t u \<Longrightarrow> walker_le s u" for s t u
    unfolding walker_le_def using collected.le_trans by metis
qed

lemmas walker_le_intros = walker.le_refl walker.seqO_le walker.foldO_le

lemma with_binding_le:
  assumes "\<And>b. binding_le b (f b)" shows "walker_le w (with_binding f w)"
  using assms by (cases "w_binding w") (simp_all add: walker_le_def collected_le_def with_binding_def)

lemma set_binding_le: "rel_option binding_le (w_binding w) b \<Longrightarrow> walker_le w (w\<lparr>w_binding := b\<rparr>)"
  by (simp add: walker_le_def collected_le_def)

lemma add_literal_constructor_le: "rel_option binding_le b (add_literal_constructor n b)"
  by (cases b) (simp_all add: add_literal_constructor_def binding_le_def)

lemma bind_literal_node_le: "rel_option binding_le b (snd (bind_literal_node c p e b))"
  unfolding bind_literal_node_def Let_def
  by (auto split: sum.splits intro: add_literal_constructor_le rel_binding_le_trans)

lemma bind_literal_loop_le: "rel_option binding_le b (snd (bind_literal_loop limit c p work visited b))"
proof (induction limit c p work visited b rule: bind_literal_loop.induct)
  case (2 limit c p expr work visited b)
  obtain r b1 where n: "bind_literal_node c p expr b = (r, b1)" by (cases "bind_literal_node c p expr b")
  have le: "rel_option binding_le b b1" using bind_literal_node_le [of b c p expr] by (simp add: n)
  show ?case
  proof (cases "Suc visited > limit")
    case False
    show ?thesis
    proof (cases "\<exists>nxt. r = Inr (Some nxt)")
      case True
      then obtain nxt where r: "r = Inr (Some nxt)" ..
      have "rel_option binding_le b1 (snd (bind_literal_loop limit c p (rev nxt @ work) (Suc visited) b1))"
        using "2.IH" [OF False n [symmetric]] r by blast
      with n False le r show ?thesis by (auto intro: rel_binding_le_trans)
    next
      case other: False
      then show ?thesis using n False le by (auto split: sum.splits option.splits)
    qed
  qed simp
qed simp

lemma BindLiteral_le: "rel_option binding_le b (snd (BindLiteral limits v c p b))"
  unfolding BindLiteral_def by (rule bind_literal_loop_le)

lemma Reject_le: "walker_le w (Reject r m n f w)"
  by (auto simp: walker_le_def collected_le_def Reject_def)

lemma BindTime_le: "walker_le w (snd (BindTime cx e context c p w))"
proof -
  obtain r b where r: "BindLiteral (cx_limits cx) e c p (w_binding w) = (r, b)"
    by (cases "BindLiteral (cx_limits cx) e c p (w_binding w)")
  have "walker_le w (w\<lparr>w_binding := b\<rparr>)"
    using BindLiteral_le [of "w_binding w" "cx_limits cx" e c p] by (intro set_binding_le) (simp add: r)
  then show ?thesis
    unfolding BindTime_def r
    by (auto split: sum.splits bool.splits intro: walker.le_refl Reject_le walker.le_trans)
qed

lemma Implied_le: "walker_le w (Implied ns w)"
  unfolding Implied_def by (rule with_binding_le) (simp add: binding_le_def)

lemma Function_le: "walker_le w (Function n v w)"
  by (auto simp: walker_le_def collected_le_def Function_def Let_def)

lemma ref_parameter_le: "walker_le w (ref_parameter v k w)"
  unfolding ref_parameter_def
  by (auto simp: binding_le_def Let_def split: option.splits intro!: with_binding_le walker.le_refl)

lemma ref_table_le: "walker_le w (snd (ref_table v k w))"
  unfolding ref_table_def
  by (auto simp: binding_le_def split: sum.splits intro!: with_binding_le walker.le_refl)

lemma ref_collate_le: "walker_le w (ref_collate v k w)"
  unfolding ref_collate_def by (auto simp: binding_le_def intro!: with_binding_le walker.le_refl)

lemma ref_bind_time_le: "walker_le w (snd (ref_bind_time cx v k w))"
  unfolding ref_bind_time_def by (auto intro!: walker_le_intros BindTime_le)

lemma ref_sample_le: "walker_le w (ref_sample v k w)"
  unfolding ref_sample_def Let_def by (auto intro: Reject_le walker.le_refl)

lemma ref_cast_le: "walker_le w (snd (ref_cast v k w))"
  unfolding ref_cast_def Let_def by (auto intro: walker.le_refl)

lemma ref_type_le: "walker_le w (snd (ref_type cx v k w))"
  unfolding ref_type_def by (auto intro!: walker_le_intros BindTime_le)

lemma ref_operator_le: "walker_le w (ref_operator v k w)"
  unfolding ref_operator_def Let_def
  by (simp add: Implied_le walker.le_refl walker.le_trans [OF Implied_le Function_le])

lemma ref_lambda_le: "walker_le w (ref_lambda v k w)"
  unfolding ref_lambda_def by (auto intro: Implied_le walker.le_refl)

lemma ref_column_le: "walker_le w (ref_column v k w)"
  unfolding ref_column_def Let_def
  by (auto split: option.splits intro: Implied_le walker.le_refl walker.le_trans [OF Implied_le Implied_le])

lemma call_window_le: "walker_le w (call_window v k n w)"
  unfolding call_window_def by (auto simp: binding_le_def Let_def intro!: with_binding_le walker.le_refl)

lemma call_implied_le: "walker_le w (call_implied v n w)"
  unfolding call_implied_def Let_def
  by (simp add: Implied_le walker.le_refl walker.le_trans [OF Implied_le Implied_le])

lemma call_table_function_le: "walker_le w (snd (call_table_function cx v e n w))"
  unfolding call_table_function_def Let_def
  by (auto simp: binding_le_def intro!: walker_le_intros BindTime_le with_binding_le)

lemma call_unnest_le: "walker_le w (snd (call_unnest cx v n w))"
  unfolding call_unnest_def by (auto intro!: walker_le_intros BindTime_le)

lemma add_unsupported_quantile_le: "walker_le w (add_unsupported_quantile n w)"
  unfolding add_unsupported_quantile_def by (rule with_binding_le) (auto simp: binding_le_def)

lemma quantile_fraction_le: "walker_le w (snd (quantile_fraction cx n a w))"
proof -
  obtain r b where r: "BindLiteral (cx_limits cx) a True False (w_binding w) = (r, b)"
    by (cases "BindLiteral (cx_limits cx) a True False (w_binding w)")
  have "walker_le w (w\<lparr>w_binding := b\<rparr>)"
    using BindLiteral_le [of "w_binding w" "cx_limits cx" a True False] by (intro set_binding_le) (simp add: r)
  then show ?thesis
    unfolding quantile_fraction_def r
    by (auto split: sum.splits bool.splits intro: add_unsupported_quantile_le walker.le_trans)
qed

lemma call_quantile_le: "walker_le w (snd (call_quantile cx v n w))"
  unfolding call_quantile_def Let_def
  by (auto split: sum.splits intro!: walker.le_refl walker.foldO_le quantile_fraction_le
      intro: walker.le_trans [OF add_unsupported_quantile_le])

lemma call_dispatcher_le: "walker_le w (snd (call_dispatcher v n w))"
  unfolding call_dispatcher_def Let_def
  by (auto simp: binding_le_def split: sum.splits
      intro!: walker.le_refl with_binding_le walker.le_trans [OF with_binding_le with_binding_le])

lemma call_dynamic_le: "walker_le w (call_dynamic v e n w)"
  by (auto simp: call_dynamic_def walker_le_def collected_le_def)

lemma ref_show_le: "walker_le w (ref_show cx v k w)"
  unfolding ref_show_def by (auto intro: Reject_le walker.le_refl)

lemma ref_call_le: "walker_le w (snd (ref_call cx v k e w))"
proof -
  have pre: "walker_le w (call_implied v n (call_window v k n w))" for k n
    by (rule walker.le_trans [OF call_window_le call_implied_le])
  show ?thesis
    unfolding ref_call_def Let_def
    by (auto intro!: walker.le_refl walker.seqO_le call_unnest_le call_quantile_le call_dynamic_le
        walker.le_trans [OF pre call_table_function_le] walker.le_trans [OF Function_le call_dispatcher_le])
qed

lemma References_le: "walker_le w (snd (References cx v k e w))"
  unfolding References_def
  by (auto intro!: walker.seqO_le ref_type_le ref_show_le
      walker.le_trans [OF ref_parameter_le ref_table_le] walker.le_trans [OF ref_collate_le ref_bind_time_le]
      walker.le_trans [OF ref_sample_le ref_cast_le]
      walker.le_trans [OF walker.le_trans [OF walker.le_trans [OF ref_operator_le ref_lambda_le] ref_column_le] ref_call_le])

section \<open>The loop\<close>

lemma CheckNode_None:
  assumes "CheckNode cx work w = (None, w')"
  shows "w_nodes w' = Suc (w_nodes w)" and "w_nodes w' \<le> l_nodes (cx_limits cx)"
    and "wk_depth work \<le> l_depth (cx_limits cx)"
    and "\<exists>children kind. node_children (cx_inventory cx) work = Inr (children, kind) \<and>
      w_pending w' = rev children @ w_pending w"
    and "collected_le w w'"
proof -
  from assms have lim: "Suc (w_nodes w) \<le> l_nodes (cx_limits cx)" "wk_depth work \<le> l_depth (cx_limits cx)"
    by (auto simp: CheckNode_def Let_def split: if_split_asm)
  from assms lim obtain children kind where nc: "node_children (cx_inventory cx) work = Inr (children, kind)"
    by (auto simp: CheckNode_def Let_def split: if_split_asm sum.splits)
  define w2 where "w2 = w\<lparr>w_nodes := Suc (w_nodes w), w_pending := rev children @ w_pending w\<rparr>"
  have c2: "collected_le w w2" using collected.le_refl [of w] by (simp add: collected_le_def w2_def)
  have "walker_le w2 w'"
  proof (cases kind)
    case None
    with assms nc lim show ?thesis by (simp add: CheckNode_def w2_def walker.le_refl)
  next
    case (Some k)
    with assms nc lim have "References cx (wk_value work) k (wk_edge work) w2 = (None, w')"
      by (simp add: CheckNode_def w2_def)
    then show ?thesis using References_le [of w2 cx "wk_value work" k "wk_edge work"] by simp
  qed
  then have "w_nodes w' = w_nodes w2" "w_pending w' = w_pending w2" "collected_le w2 w'"
    by (simp_all add: walker_le_def)
  with c2 lim nc show "w_nodes w' = Suc (w_nodes w)" "w_nodes w' \<le> l_nodes (cx_limits cx)"
      "wk_depth work \<le> l_depth (cx_limits cx)" "collected_le w w'"
      "\<exists>children kind. node_children (cx_inventory cx) work = Inr (children, kind) \<and>
        w_pending w' = rev children @ w_pending w"
    by (auto simp: w2_def intro: collected.le_trans)
qed

text \<open>\<open>Check\<close> runs until the work list is empty; the node limit bounds it.\<close>

function walk :: "WalkContext \<Rightarrow> walk_step" where
  "walk cx w = (case w_pending w of
     [] \<Rightarrow> (None, w)
   | work # rest \<Rightarrow>
       (case CheckNode cx work (w\<lparr>w_pending := rest\<rparr>) of
          (Some s, w') \<Rightarrow> (Some s, w')
        | (None, w') \<Rightarrow> walk cx w'))"
  by pat_completeness auto
termination
proof (relation "measure (\<lambda>(cx, w). l_nodes (cx_limits cx) - w_nodes w)")
  fix cx w work rest x y
  assume "(x, y) = CheckNode cx work (w\<lparr>w_pending := rest\<rparr>)" and "x = None"
  then have "CheckNode cx work (w\<lparr>w_pending := rest\<rparr>) = (None, y)" by simp
  from CheckNode_None(1,2) [OF this]
  show "((cx, y), cx, w) \<in> measure (\<lambda>(cx, w). l_nodes (cx_limits cx) - w_nodes w)" by simp
qed simp

declare walk.simps [simp del]

definition Check :: "WalkContext \<Rightarrow> json_ptr \<Rightarrow> string \<Rightarrow> walk_step" where
  "Check cx v expected w = walk cx (w\<lparr>w_pending :=
     \<lparr>wk_value = v, wk_expected = expected, wk_depth = 0, wk_edge = []\<rparr> # w_pending w\<rparr>)"

definition ineligible_message :: "string \<Rightarrow> nat \<Rightarrow> string" where
  "ineligible_message canonical occurrences = ''function is not allowed: '' @ canonical @
     (if occurrences > 1 then '' ('' @ to_string occurrences @ '' occurrences)'' else [])"

definition screen_function :: "WalkContext \<Rightarrow> string \<times> nat \<Rightarrow> Walker \<Rightarrow> Walker" where
  "screen_function cx entry w =
     (let name = fst entry;
          w1 = with_binding (\<lambda>b. b\<lparr>caller_functions := ins (Lower name) (caller_functions b)\<rparr>) w
      in if Layers_All (\<lambda>p. FunctionEligible (inv_defaults (cx_inventory cx)) p name) (cx_layers cx) then w1
         else w1\<lparr>w_violations := std_insert Violation_key
           ((violation rules_FUNCTION (ineligible_message (Lower name) (snd entry)))
              \<lparr>v_function_name := Lower name,
               v_position := (case map_of (w_function_positions w) name of None \<Rightarrow> -1 | Some found \<Rightarrow> found)\<rparr>)
           (w_violations w1)\<rparr>)"

definition Validate ::
    "Inventory \<Rightarrow> json_ptr \<Rightarrow> Policy \<Rightarrow> BindingPolicy option \<Rightarrow> Policy option \<Rightarrow> Limits \<Rightarrow>
     Result \<times> BindingPolicy option" where
  "Validate inventory doc policy binding ceil limits =
     (let cx = \<lparr>cx_inventory = inventory,
                cx_layers = \<lparr>ceiling_layer = (case ceil of Some c \<Rightarrow> c | None \<Rightarrow> policy), request_layer = policy\<rparr>,
                cx_limits = limits\<rparr>;
          start = \<lparr>w_binding = binding, w_violations = [], w_functions = [], w_function_positions = [],
                   w_nodes = 0, w_pending = []\<rparr>
      in case Check cx doc ''root'' start of
           (Some s, w) \<Rightarrow>
             (empty_result\<lparr>r_code := (if stop_rule s = rules_LIMIT then codes_FORBIDDEN else codes_UNSUPPORTED),
                r_violations := [violation (stop_rule s) (stop_message s)]\<rparr>, w_binding w)
         | (None, w) \<Rightarrow>
             (let w1 = fold (screen_function cx) (w_functions w) w
              in (empty_result\<lparr>r_allowed := (w_violations w1 = []),
                    r_code := (if w_violations w1 = [] then codes_OK else codes_FORBIDDEN),
                    r_violations := w_violations w1\<rparr>, w_binding w1)))"

section \<open>Literal syntax\<close>

text \<open>
  What a bind-time position accepts, as a grammar: constants, parameters, casts of literals and, where
  containers are admitted, list, struct and row constructors over literals, spelled unqualified or
  through \<open>system.main\<close>, without filter or order.
\<close>

inductive literal_form :: "bool \<Rightarrow> bool \<Rightarrow> json_ptr \<Rightarrow> bool" for containers pivot_names where
  const: "Field e ''class'' = ''CONSTANT'' \<or> Field e ''class'' = ''PARAMETER'' \<Longrightarrow> literal_form containers pivot_names e"
| column: "pivot_names \<Longrightarrow> Field e ''class'' = ''COLUMN_REF'' \<Longrightarrow> arr_size (obj_get e ''column_names'') = 1 \<Longrightarrow>
    literal_form containers pivot_names e"
| cast: "Field e ''class'' = ''CAST'' \<Longrightarrow> literal_form containers pivot_names (obj_get e ''child'') \<Longrightarrow>
    literal_form containers pivot_names e"
| container: "literal_container containers pivot_names e \<Longrightarrow> obj_get e ''filter'' = None \<Longrightarrow>
    arr_size (obj_get (obj_get e ''order_bys'') ''orders'') = 0 \<Longrightarrow>
    (Field e ''class'' = ''FUNCTION'' \<Longrightarrow>
       \<exists>path. WrittenPath e True = Inr path \<and> constructor_path path (Lower (Field e ''function_name''))) \<Longrightarrow>
    (\<And>a. a \<in> set (Arguments e) \<Longrightarrow> literal_form containers pivot_names a) \<Longrightarrow>
    literal_form containers pivot_names e"

lemma bind_literal_node_sound:
  assumes "bind_literal_node c p e b = (Inr (Some nxt), b')" and "\<And>a. a \<in> set nxt \<Longrightarrow> literal_form c p a"
  shows "literal_form c p e"
proof -
  consider "Field e ''class'' = ''CONSTANT'' \<or> Field e ''class'' = ''PARAMETER''"
    | "p" "Field e ''class'' = ''COLUMN_REF''" "arr_size (obj_get e ''column_names'') = 1"
    | "Field e ''class'' = ''CAST''" "nxt = [obj_get e ''child'']"
    | "literal_container c p e" "obj_get e ''filter'' = None"
      "arr_size (obj_get (obj_get e ''order_bys'') ''orders'') = 0" "nxt = Arguments e"
      "Field e ''class'' = ''FUNCTION'' \<longrightarrow>
       (\<exists>path. WrittenPath e True = Inr path \<and> constructor_path path (Lower (Field e ''function_name'')))"
    using assms(1) unfolding bind_literal_node_def Let_def by (auto split: if_split_asm sum.splits)
  then show ?thesis
    by cases (use assms(2) in \<open>auto intro: literal_form.intros\<close>)
qed

lemma bind_literal_loop_sound:
  assumes "bind_literal_loop limit c p work visited b = (Inr True, b')"
  shows "\<forall>e\<in>set work. literal_form c p e"
  using assms
proof (induction limit c p work visited b rule: bind_literal_loop.induct)
  case (2 limit c p expr work visited b)
  from "2.prems" have lim: "\<not> Suc visited > limit" by (auto split: if_split_asm)
  with "2.prems" obtain nxt b1 where n: "bind_literal_node c p expr b = (Inr (Some nxt), b1)"
    and rest: "bind_literal_loop limit c p (rev nxt @ work) (Suc visited) b1 = (Inr True, b')"
    by (auto split: if_split_asm sum.splits option.splits prod.splits)
  from "2.IH" [OF lim n [symmetric] refl refl rest] bind_literal_node_sound [OF n] show ?case by auto
qed simp

lemma BindLiteral_sound: "BindLiteral limits e c p b = (Inr True, b') \<Longrightarrow> literal_form c p e"
  unfolding BindLiteral_def by (drule bind_literal_loop_sound) simp

lemma BindTime_sound:
  assumes "BindTime cx e context c p w = (None, w')"
  shows "e = None \<or> literal_form c p e \<or> w_violations w' \<noteq> []"
  using assms by (auto simp: BindTime_def Reject_def split: if_split_asm prod.splits sum.splits bool.splits
      dest: BindLiteral_sound)

section \<open>What the walk records\<close>

definition is_call :: "string \<Rightarrow> bool" where
  "is_call k \<longleftrightarrow> k = ''FunctionExpression'' \<or> k = ''WindowExpression''"

definition is_limit :: "string \<Rightarrow> bool" where
  "is_limit k \<longleftrightarrow> k = ''LimitModifier'' \<or> k = ''LimitPercentModifier'' \<or> k = ''LegacyLimitPercentModifier''"

text \<open>
  What must be known of a node of grammar kind \<open>k\<close> once it has been visited: the names it writes have
  been collected, and whatever policy forbids of it has left a violation.
\<close>

definition call_recorded :: "json_ptr \<Rightarrow> string \<Rightarrow> Walker \<Rightarrow> bool" where
  "call_recorded v e w \<longleftrightarrow>
     (let name = Lower (Field v ''function_name'')
      in name \<in> fst ` set (w_functions w) \<and> (DynamicSql e name \<longrightarrow> w_violations w \<noteq> []) \<and>
         (name \<in> set DispatchingAggregators \<longrightarrow>
            (\<forall>b. w_binding w = Some b \<longrightarrow> name \<in> set (caller_dispatchers b))))"

definition table_recorded :: "json_ptr \<Rightarrow> Walker \<Rightarrow> bool" where
  "table_recorded v w \<longleftrightarrow> (\<forall>b. w_binding w = Some b \<longrightarrow>
     (\<exists>p. WrittenPath v False = Inr p \<and> p \<in> set (caller_table_names b)))"

definition parameter_recorded :: "json_ptr \<Rightarrow> Walker \<Rightarrow> bool" where
  "parameter_recorded v w \<longleftrightarrow> (\<forall>b. w_binding w = Some b \<longrightarrow>
     Lower (Field v ''identifier'') \<in> fst ` set (caller_parameters b))"

definition collate_recorded :: "json_ptr \<Rightarrow> Walker \<Rightarrow> bool" where
  "collate_recorded v w \<longleftrightarrow> (\<forall>b. w_binding w = Some b \<longrightarrow>
     caller_collates b \<and> Lower (Field v ''collation'') \<in> set (caller_collation_names b))"

definition limit_recorded :: "json_ptr \<Rightarrow> Walker \<Rightarrow> bool" where
  "limit_recorded v w \<longleftrightarrow> w_violations w \<noteq> [] \<or>
     (\<forall>x. obj_get v ''limit'' = Some x \<or> obj_get v ''offset'' = Some x \<longrightarrow> literal_form False False (Some x))"

definition show_recorded :: "Layers \<Rightarrow> json_ptr \<Rightarrow> Walker \<Rightarrow> bool" where
  "show_recorded l v w \<longleftrightarrow> obj_get v ''query'' \<noteq> None \<or> w_violations w \<noteq> [] \<or>
     Layers_All (\<lambda>p. \<not> tables p \<and> blocked_tables p = []) l"

definition node_recorded :: "WalkContext \<Rightarrow> string \<Rightarrow> json_ptr \<Rightarrow> string \<Rightarrow> Walker \<Rightarrow> bool" where
  "node_recorded cx k v e w \<longleftrightarrow>
     (is_call k \<longrightarrow> call_recorded v e w) \<and>
     (k = ''BaseTableRef'' \<longrightarrow> table_recorded v w) \<and>
     (k = ''ParameterExpression'' \<longrightarrow> parameter_recorded v w) \<and>
     (k = ''CollateExpression'' \<longrightarrow> collate_recorded v w) \<and>
     (is_limit k \<longrightarrow> limit_recorded v w) \<and>
     (k = ''ShowRef'' \<longrightarrow> show_recorded (cx_layers cx) v w)"

lemma collected_le_D:
  assumes "collected_le w w'"
  shows "w_violations w \<noteq> [] \<Longrightarrow> w_violations w' \<noteq> []"
    and "n \<in> fst ` set (w_functions w) \<Longrightarrow> n \<in> fst ` set (w_functions w')"
    and "w_binding w' = Some b' \<Longrightarrow> \<exists>b. w_binding w = Some b \<and> binding_le b b'"
proof -
  have v: "set (w_violations w) \<subseteq> set (w_violations w')" and f: "fst ` set (w_functions w) \<subseteq> fst ` set (w_functions w')"
    and b: "rel_option binding_le (w_binding w) (w_binding w')"
    using assms by (simp_all add: collected_le_def)
  show "w_violations w \<noteq> [] \<Longrightarrow> w_violations w' \<noteq> []" using v by auto
  show "n \<in> fst ` set (w_functions w) \<Longrightarrow> n \<in> fst ` set (w_functions w')" using f by blast
  show "w_binding w' = Some b' \<Longrightarrow> \<exists>b. w_binding w = Some b \<and> binding_le b b'"
    using b by (cases "w_binding w") simp_all
qed

lemma binding_le_D:
  assumes "binding_le b b'"
  shows "p \<in> fst ` set (caller_parameters b) \<Longrightarrow> p \<in> fst ` set (caller_parameters b')"
    and "t \<in> set (caller_table_names b) \<Longrightarrow> t \<in> set (caller_table_names b')"
    and "caller_collates b \<Longrightarrow> caller_collates b'"
    and "n \<in> set (caller_collation_names b) \<Longrightarrow> n \<in> set (caller_collation_names b')"
    and "d \<in> set (caller_dispatchers b) \<Longrightarrow> d \<in> set (caller_dispatchers b')"
  using assms unfolding binding_le_def by (simp_all add: subset_iff)

text \<open>Facts about the collected names survive every later step.\<close>

lemma binding_fact_mono:
  assumes "\<forall>b. w_binding w = Some b \<longrightarrow> P b" and "collected_le w w'"
    and "\<And>b b'. binding_le b b' \<Longrightarrow> P b \<Longrightarrow> P b'"
  shows "\<forall>b. w_binding w' = Some b \<longrightarrow> P b"
  using assms(1,3) collected_le_D(3) [OF assms(2)] by blast

lemma call_recorded_mono:
  assumes rec: "call_recorded v e w" and le: "collected_le w w'" shows "call_recorded v e w'"
proof -
  define name where "name = Lower (Field v ''function_name'')"
  have r: "name \<in> fst ` set (w_functions w)" "DynamicSql e name \<longrightarrow> w_violations w \<noteq> []"
      "name \<in> set DispatchingAggregators \<longrightarrow> (\<forall>b. w_binding w = Some b \<longrightarrow> name \<in> set (caller_dispatchers b))"
    using rec by (simp_all add: call_recorded_def Let_def name_def)
  have "name \<in> set DispatchingAggregators \<longrightarrow> (\<forall>b. w_binding w' = Some b \<longrightarrow> name \<in> set (caller_dispatchers b))"
  proof
    assume "name \<in> set DispatchingAggregators"
    with r(3) have "\<forall>b. w_binding w = Some b \<longrightarrow> name \<in> set (caller_dispatchers b)" by simp
    from binding_fact_mono [OF this le] show "\<forall>b. w_binding w' = Some b \<longrightarrow> name \<in> set (caller_dispatchers b)"
      using binding_le_D(5) by simp
  qed
  moreover have "name \<in> fst ` set (w_functions w')" using collected_le_D(2) [OF le] r(1) by blast
  moreover have "DynamicSql e name \<longrightarrow> w_violations w' \<noteq> []" using collected_le_D(1) [OF le] r(2) by blast
  ultimately show ?thesis by (simp add: call_recorded_def Let_def name_def)
qed

lemma recorded_mono:
  assumes le: "collected_le w w'"
  shows "table_recorded v w \<Longrightarrow> table_recorded v w'"
    and "parameter_recorded v w \<Longrightarrow> parameter_recorded v w'"
    and "collate_recorded v w \<Longrightarrow> collate_recorded v w'"
    and "limit_recorded v w \<Longrightarrow> limit_recorded v w'"
    and "show_recorded l v w \<Longrightarrow> show_recorded l v w'"
proof -
  show "table_recorded v w \<Longrightarrow> table_recorded v w'"
    unfolding table_recorded_def by (erule binding_fact_mono [OF _ le]) (blast dest: binding_le_D(2))
  show "parameter_recorded v w \<Longrightarrow> parameter_recorded v w'"
    unfolding parameter_recorded_def by (erule binding_fact_mono [OF _ le]) (rule binding_le_D(1))
  show "collate_recorded v w \<Longrightarrow> collate_recorded v w'"
    unfolding collate_recorded_def
    by (erule binding_fact_mono [OF _ le]) (simp add: binding_le_D(3,4))
  show "limit_recorded v w \<Longrightarrow> limit_recorded v w'"
    using collected_le_D(1) [OF le] unfolding limit_recorded_def by argo
  show "show_recorded l v w \<Longrightarrow> show_recorded l v w'"
    using collected_le_D(1) [OF le] unfolding show_recorded_def by argo
qed

lemma node_recorded_mono:
  assumes "node_recorded cx k v e w" and le: "collected_le w w'"
  shows "node_recorded cx k v e w'"
  using assms(1) recorded_mono(1-4) [OF le, of v] recorded_mono(5) [OF le, of "cx_layers cx" v]
    call_recorded_mono [OF _ le, of v e]
  unfolding node_recorded_def by argo

lemma seqO_None_D: "seqO r f = (None, t) \<Longrightarrow> \<exists>s. r = (None, s) \<and> f s = (None, t)"
  by (simp add: seqO_eq_None)

lemma seqO_skip [simp]: "seqO r (\<lambda>s. (None, s)) = r"
  by (cases r; cases "fst r") auto

text \<open>A node of one kind passes through the blocks of the other kinds unchanged.\<close>

lemma References_call:
  "is_call k \<Longrightarrow> References cx v k e w = ref_call cx v k e w"
  unfolding is_call_def
  by (elim disjE; simp add: References_def ref_parameter_def ref_table_def ref_collate_def ref_bind_time_def
      ref_sample_def ref_cast_def ref_type_def ref_operator_def ref_lambda_def ref_column_def ref_show_def Let_def)

lemma References_table: "References cx v ''BaseTableRef'' e w = ref_table v ''BaseTableRef'' w"
  by (simp add: References_def ref_parameter_def ref_collate_def ref_bind_time_def ref_sample_def ref_cast_def
      ref_type_def ref_operator_def ref_lambda_def ref_column_def ref_call_def ref_show_def Let_def)

lemma References_parameter:
  "References cx v ''ParameterExpression'' e w = (None, ref_parameter v ''ParameterExpression'' w)"
  by (simp add: References_def ref_table_def ref_collate_def ref_bind_time_def ref_sample_def ref_cast_def
      ref_type_def ref_operator_def ref_lambda_def ref_column_def ref_call_def ref_show_def Let_def)

lemma References_collate:
  "References cx v ''CollateExpression'' e w = (None, ref_collate v ''CollateExpression'' w)"
  by (simp add: References_def ref_parameter_def ref_table_def ref_bind_time_def ref_sample_def ref_cast_def
      ref_type_def ref_operator_def ref_lambda_def ref_column_def ref_call_def ref_show_def Let_def)

lemma References_limit: "is_limit k \<Longrightarrow> References cx v k e w = ref_bind_time cx v k w"
  unfolding is_limit_def
  by (elim disjE; simp add: References_def ref_parameter_def ref_table_def ref_collate_def ref_sample_def
      ref_cast_def ref_type_def ref_operator_def ref_lambda_def ref_column_def ref_call_def ref_show_def Let_def)

lemma References_show: "References cx v ''ShowRef'' e w = (None, ref_show cx v ''ShowRef'' w)"
  by (simp add: References_def ref_parameter_def ref_table_def ref_collate_def ref_bind_time_def ref_sample_def
      ref_cast_def ref_type_def ref_operator_def ref_lambda_def ref_column_def ref_call_def Let_def)

lemma call_dispatcher_records:
  assumes "call_dispatcher v name w = (None, w')" and "name \<in> set DispatchingAggregators"
    and "w_binding w' = Some b'"
  shows "name \<in> set (caller_dispatchers b')"
proof -
  obtain b where b: "w_binding w = Some b"
    using collected_le_D(3) [of w w' b'] call_dispatcher_le [of w v name] assms(1,3)
    by (auto simp: walker_le_def)
  have "w_binding w' = map_option (\<lambda>b. b\<lparr>caller_dispatchers := ins name (caller_dispatchers b)\<rparr>) (w_binding w) \<or>
      (\<exists>f. w_binding w' = map_option (\<lambda>b. f (b\<lparr>caller_dispatchers := ins name (caller_dispatchers b)\<rparr>)) (w_binding w) \<and>
        (\<forall>b. caller_dispatchers (f b) = caller_dispatchers b))"
    using assms(1,2) b unfolding call_dispatcher_def Let_def with_binding_def
    by (auto split: sum.splits if_split_asm)
  then show ?thesis using b assms(3) by auto
qed

lemma ref_call_records:
  assumes "is_call k" and "ref_call cx v k e w = (None, w')"
  shows "call_recorded v e w'"
proof -
  define name where "name = Lower (Field v ''function_name'')"
  from assms obtain w3 w4 where d: "call_dispatcher v name (Function name v w3) = (None, w4)"
    and w': "w' = call_dynamic v e name w4"
    unfolding ref_call_def is_call_def name_def Let_def by (auto dest!: seqO_None_D split: if_split_asm)
  have "name \<in> fst ` set (w_functions (Function name v w3))"
    by (simp add: Function_def Let_def name_def)
  then have "name \<in> fst ` set (w_functions w4)"
    using call_dispatcher_le [of "Function name v w3" v name] d
      collected_le_D(2) [of "Function name v w3" w4 name]
    by (simp add: walker_le_def)
  moreover have "w_functions w' = w_functions w4" "w_binding w' = w_binding w4"
    by (simp_all add: w' call_dynamic_def)
  moreover have "DynamicSql e name \<longrightarrow> w_violations w' \<noteq> []"
    by (simp add: w' call_dynamic_def)
  moreover have "\<forall>b. w_binding w4 = Some b \<longrightarrow> name \<in> set DispatchingAggregators \<longrightarrow> name \<in> set (caller_dispatchers b)"
    using call_dispatcher_records [OF d] by blast
  ultimately show ?thesis by (simp add: call_recorded_def Let_def name_def)
qed

lemma ref_table_records: "ref_table v ''BaseTableRef'' w = (None, w') \<Longrightarrow> table_recorded v w'"
  by (auto simp: ref_table_def table_recorded_def with_binding_def split: if_split_asm sum.splits)

lemma ref_parameter_records: "parameter_recorded v (ref_parameter v ''ParameterExpression'' w)"
  unfolding ref_parameter_def parameter_recorded_def with_binding_def
  by (cases "w_binding w") (auto simp: Let_def split: option.splits dest: map_of_SomeD intro: rev_image_eqI)

lemma ref_collate_records: "collate_recorded v (ref_collate v ''CollateExpression'' w)"
  by (auto simp: ref_collate_def collate_recorded_def with_binding_def)

lemma ref_limit_records:
  assumes "is_limit k" and "ref_bind_time cx v k w = (None, w')"
  shows "limit_recorded v w'"
proof -
  from assms obtain w1 where l: "BindTime cx (obj_get v ''limit'') ''LIMIT'' False False w = (None, w1)"
    and o: "BindTime cx (obj_get v ''offset'') ''OFFSET'' False False w1 = (None, w')"
    by (auto simp: ref_bind_time_def is_limit_def seqO_eq_None split: if_split_asm)
  have "w_violations w1 \<noteq> [] \<Longrightarrow> w_violations w' \<noteq> []"
    using BindTime_le [of w1 cx "obj_get v ''offset''" "''OFFSET''" False False] o collected_le_D(1)
    by (auto simp: walker_le_def)
  with BindTime_sound [OF l] BindTime_sound [OF o] show ?thesis
    unfolding limit_recorded_def by auto
qed

lemma ref_show_records: "show_recorded (cx_layers cx) v (ref_show cx v ''ShowRef'' w)"
  by (auto simp: ref_show_def show_recorded_def Reject_def)

lemma References_records:
  assumes "References cx v k e w = (None, w')" shows "node_recorded cx k v e w'"
  unfolding node_recorded_def
proof (intro conjI impI)
  show "is_call k \<Longrightarrow> call_recorded v e w'"
    using assms References_call ref_call_records by metis
  show "k = ''BaseTableRef'' \<Longrightarrow> table_recorded v w'"
    using assms by (simp add: References_table ref_table_records)
  show "k = ''ParameterExpression'' \<Longrightarrow> parameter_recorded v w'"
    using assms ref_parameter_records [of v w] by (simp add: References_parameter)
  show "k = ''CollateExpression'' \<Longrightarrow> collate_recorded v w'"
    using assms ref_collate_records [of v w] by (simp add: References_collate)
  show "is_limit k \<Longrightarrow> limit_recorded v w'"
    using assms References_limit ref_limit_records by metis
  show "k = ''ShowRef'' \<Longrightarrow> show_recorded (cx_layers cx) v w'"
    using assms ref_show_records [of cx v w] by (simp add: References_show)
qed

section \<open>The walk against the grammar\<close>

text \<open>
  The nodes a statement consists of, as the grammar reads it: an inductive definition that knows
  nothing of work lists or limits.
\<close>

inductive visits :: "Inventory \<Rightarrow> Work \<Rightarrow> Work \<Rightarrow> bool" for inventory r where
  self: "visits inventory r r"
| child: "visits inventory r x \<Longrightarrow> node_children inventory x = Inr (cs, k) \<Longrightarrow> c \<in> set cs \<Longrightarrow> visits inventory r c"

lemma visits_head:
  assumes "visits inventory r x"
  shows "x = r \<or> (\<exists>cs k c. node_children inventory r = Inr (cs, k) \<and> c \<in> set cs \<and> visits inventory c x)"
  using assms
proof induction
  case (child x cs k c)
  from child.IH show ?case
  proof
    assume "x = r"
    with child.hyps show ?thesis by (blast intro: visits.self)
  next
    assume "\<exists>cs k c. node_children inventory r = Inr (cs, k) \<and> c \<in> set cs \<and> visits inventory c x"
    with child.hyps show ?thesis by (blast intro: visits.child)
  qed
qed simp

lemma visits_trans: "visits inventory r x \<Longrightarrow> visits inventory x y \<Longrightarrow> visits inventory r y"
  by (rotate_tac) (induction rule: visits.induct, auto intro: visits.child)

definition handled :: "WalkContext \<Rightarrow> Walker \<Rightarrow> Work \<Rightarrow> bool" where
  "handled cx w x \<longleftrightarrow> wk_depth x \<le> l_depth (cx_limits cx) \<and>
     (\<exists>cs k. node_children (cx_inventory cx) x = Inr (cs, k) \<and>
       (\<forall>kind. k = Some kind \<longrightarrow> node_recorded cx kind (wk_value x) (wk_edge x) w))"

lemma handled_mono: "handled cx w x \<Longrightarrow> collected_le w w' \<Longrightarrow> handled cx w' x"
  unfolding handled_def by (blast intro: node_recorded_mono)

lemma CheckNode_handled:
  assumes "CheckNode cx work w = (None, w')" shows "handled cx w' work"
proof -
  obtain children kind where nc: "node_children (cx_inventory cx) work = Inr (children, kind)"
    using CheckNode_None(4) [OF assms] by blast
  have "node_recorded cx k (wk_value work) (wk_edge work) w'" if "kind = Some k" for k
  proof -
    from assms nc that obtain w2 where "References cx (wk_value work) k (wk_edge work) w2 = (None, w')"
      by (auto simp: CheckNode_def Let_def split: if_split_asm)
    then show ?thesis by (rule References_records)
  qed
  with nc CheckNode_None(3) [OF assms] show ?thesis by (auto simp: handled_def)
qed

text \<open>The nodes still to come.\<close>

definition frontier :: "Inventory \<Rightarrow> Work list \<Rightarrow> Work set" where
  "frontier inventory pending = {x. \<exists>r\<in>set pending. visits inventory r x}"

lemma frontier_Cons:
  assumes "node_children inventory work = Inr (children, k)"
  shows "frontier inventory (work # rest) = insert work (frontier inventory (rev children @ rest))"
proof -
  have "visits inventory work x \<Longrightarrow> x = work \<or> (\<exists>r\<in>set children. visits inventory r x)" for x
    using visits_head [of inventory work x] assms by auto
  moreover have "r \<in> set children \<Longrightarrow> visits inventory r x \<Longrightarrow> visits inventory work x" for r x
    using visits_trans [OF visits.child [OF visits.self assms]] by blast
  ultimately show ?thesis
    unfolding frontier_def by (simp add: set_eq_iff) (blast intro: visits.self)
qed

lemma walk_sound:
  assumes "walk cx w = (None, w')"
  shows "collected_le w w' \<and> (\<forall>x\<in>frontier (cx_inventory cx) (w_pending w). handled cx w' x) \<and>
    finite (frontier (cx_inventory cx) (w_pending w)) \<and>
    card (frontier (cx_inventory cx) (w_pending w)) + w_nodes w \<le> w_nodes w' \<and>
    w_nodes w' \<le> max (w_nodes w) (l_nodes (cx_limits cx))"
  using assms
proof (induction cx w rule: walk.induct)
  case (1 cx w)
  show ?case
  proof (cases "w_pending w")
    case Nil
    with "1.prems" show ?thesis
      by (simp add: walk.simps [of cx w] frontier_def collected.le_refl)
  next
    case (Cons work rest)
    let ?w0 = "w\<lparr>w_pending := rest\<rparr>"
    from "1.prems" Cons obtain w1 where c: "CheckNode cx work ?w0 = (None, w1)" and r: "walk cx w1 = (None, w')"
      by (auto simp: walk.simps [of cx w] split: prod.splits option.splits)
    obtain children k where nc: "node_children (cx_inventory cx) work = Inr (children, k)"
        and p1: "w_pending w1 = rev children @ rest"
      using CheckNode_None(4) [OF c] by auto
    note n1 = CheckNode_None(1,2,5) [OF c]
    have ih: "collected_le w1 w'" "\<forall>x\<in>frontier (cx_inventory cx) (w_pending w1). handled cx w' x"
        "finite (frontier (cx_inventory cx) (w_pending w1))"
        "card (frontier (cx_inventory cx) (w_pending w1)) + w_nodes w1 \<le> w_nodes w'"
        "w_nodes w' \<le> max (w_nodes w1) (l_nodes (cx_limits cx))"
      using "1.IH" [OF Cons c [symmetric] refl r] by blast+
    have le: "collected_le w w'"
      using n1(3) ih(1) collected.le_trans [of w w1 w'] by (simp add: collected_le_def)
    have f: "frontier (cx_inventory cx) (w_pending w) = insert work (frontier (cx_inventory cx) (w_pending w1))"
      using frontier_Cons [OF nc, of rest] by (simp add: Cons p1)
    have "handled cx w' work" by (rule handled_mono [OF CheckNode_handled [OF c] ih(1)])
    moreover have "card (insert work (frontier (cx_inventory cx) (w_pending w1))) \<le>
        Suc (card (frontier (cx_inventory cx) (w_pending w1)))" by (rule card_insert_le_m1) simp_all
    ultimately show ?thesis using le ih n1(1,2) unfolding f by auto
  qed
qed

lemma screen_function_le: "collected_le w (screen_function cx entry w)"
  by (cases "w_binding w")
    (auto simp: screen_function_def Let_def collected_le_def with_binding_def binding_le_def)

lemma screen_functions:
  assumes "w' = fold (screen_function cx) fs w"
  shows "collected_le w w'" and "w_functions w' = w_functions w"
    and "w_violations w' = [] \<Longrightarrow> entry \<in> set fs \<Longrightarrow>
      Layers_All (\<lambda>p. FunctionEligible (inv_defaults (cx_inventory cx)) p (fst entry)) (cx_layers cx)"
    and "entry \<in> set fs \<Longrightarrow> w_binding w' = Some b \<Longrightarrow> Lower (fst entry) \<in> set (caller_functions b)"
proof -
  have le: "collected_le w (fold (screen_function cx) fs w)" for fs w
    by (rule collected.fold_le) (rule screen_function_le)
  show "collected_le w w'" unfolding assms by (rule le)
  show "w_functions w' = w_functions w"
    unfolding assms by (induction fs arbitrary: w) (simp_all add: screen_function_def with_binding_def Let_def)
  have keep: "w_binding (fold (screen_function cx) fs w) = Some b \<Longrightarrow>
      \<exists>b0. w_binding w = Some b0 \<and> set (caller_functions b0) \<subseteq> set (caller_functions b)" for fs w b
  proof (induction fs arbitrary: w)
    case (Cons e fs)
    then obtain b1 where b1: "w_binding (screen_function cx e w) = Some b1" "set (caller_functions b1) \<subseteq> set (caller_functions b)"
      by auto
    then show ?case
      by (cases "w_binding w") (auto simp: screen_function_def Let_def with_binding_def split: if_split_asm)
  qed simp
  show "w_violations w' = [] \<Longrightarrow> entry \<in> set fs \<Longrightarrow>
      Layers_All (\<lambda>p. FunctionEligible (inv_defaults (cx_inventory cx)) p (fst entry)) (cx_layers cx)"
    unfolding assms
  proof (induction fs arbitrary: w)
    case (Cons e fs)
    show ?case
    proof (cases "entry = e")
      case True
      have "w_violations (screen_function cx e w) = []"
        using le [of "screen_function cx e w" fs] Cons.prems(1) by (auto simp: collected_le_def)
      with True show ?thesis by (auto simp: screen_function_def Let_def split: if_split_asm)
    next
      case False
      then show ?thesis using Cons by simp
    qed
  qed simp
  show "entry \<in> set fs \<Longrightarrow> w_binding w' = Some b \<Longrightarrow> Lower (fst entry) \<in> set (caller_functions b)"
    unfolding assms
  proof (induction fs arbitrary: w)
    case (Cons e fs)
    show ?case
    proof (cases "entry = e")
      case True
      obtain b0 where "w_binding (screen_function cx e w) = Some b0" "set (caller_functions b0) \<subseteq> set (caller_functions b)"
        using keep [of fs "screen_function cx e w" b] Cons.prems(2) by auto
      with True show ?thesis
        by (cases "w_binding w") (auto simp: screen_function_def Let_def with_binding_def split: if_split_asm)
    next
      case False
      then show ?thesis using Cons by simp
    qed
  qed simp
qed

section \<open>Occurrences\<close>

lemma Function_counts:
  "map_of (w_functions (Function n v w)) m =
     (if m = Lower n then Some (Suc (case map_of (w_functions w) m of Some c \<Rightarrow> c | None \<Rightarrow> 0))
      else map_of (w_functions w) m)"
  by (simp add: Function_def Let_def)

lemma Function_positions:
  "map_of (w_function_positions (Function n v w)) m =
     (if m = Lower n \<and> Position v \<ge> 0
      then Some (case map_of (w_function_positions w) m of Some q \<Rightarrow> min (Position v) q | None \<Rightarrow> Position v)
      else map_of (w_function_positions w) m)"
  by (auto simp: Function_def Let_def min_def split: option.splits)

definition occurrences :: "string \<Rightarrow> (string \<times> json_ptr) list \<Rightarrow> (string \<times> json_ptr) list" where
  "occurrences m os = filter (\<lambda>(n, v). Lower n = m) os"

definition known_positions :: "string \<Rightarrow> (string \<times> json_ptr) list \<Rightarrow> int list" where
  "known_positions m os = filter (\<lambda>p. p \<ge> 0) (map (\<lambda>(n, v). Position v) (occurrences m os))"

definition earliest :: "string \<Rightarrow> (string \<times> json_ptr) list \<Rightarrow> int option" where
  "earliest m os = (if known_positions m os = [] then None else Some (Min (set (known_positions m os))))"

lemma known_positions_simps [simp]:
  "known_positions m [] = []"
  "known_positions m ((n, v) # os) =
     (if Lower n = m \<and> Position v \<ge> 0 then Position v # known_positions m os else known_positions m os)"
  by (simp_all add: known_positions_def occurrences_def)

lemma fold_Function_positions:
  "map_of (w_function_positions (fold (\<lambda>(n, v). Function n v) os w)) m =
     (case (map_of (w_function_positions w) m, earliest m os) of
        (None, e) \<Rightarrow> e | (Some q, None) \<Rightarrow> Some q | (Some q, Some p) \<Rightarrow> Some (min q p))"
proof (induction os arbitrary: w)
  case Nil
  show ?case by (simp add: earliest_def split: option.splits)
next
  case (Cons o1 os)
  obtain n v where o1: "o1 = (n, v)" by (cases o1)
  have e: "earliest m ((n, v) # os) = (if Lower n = m \<and> Position v \<ge> 0
      then Some (case earliest m os of None \<Rightarrow> Position v | Some p \<Rightarrow> min (Position v) p) else earliest m os)"
    by (simp add: earliest_def)
  have "map_of (w_function_positions (fold (\<lambda>(n, v). Function n v) (o1 # os) w)) m =
      (case (map_of (w_function_positions (Function n v w)) m, earliest m os) of
        (None, e) \<Rightarrow> e | (Some q, None) \<Rightarrow> Some q | (Some q, Some p) \<Rightarrow> Some (min q p))"
    by (simp add: o1 Cons.IH)
  then show ?case
    unfolding Function_positions o1 e
    by (auto simp: min.assoc min.commute min.left_commute split: option.splits)
qed

lemma fold_Function_counts:
  "map_of (w_functions (fold (\<lambda>(n, v). Function n v) os w)) m =
     (if occurrences m os = [] then map_of (w_functions w) m
      else Some (length (occurrences m os) + (case map_of (w_functions w) m of Some c \<Rightarrow> c | None \<Rightarrow> 0)))"
proof (induction os arbitrary: w)
  case (Cons o1 os)
  obtain n v where o1: "o1 = (n, v)" by (cases o1)
  show ?case by (auto simp: o1 Cons.IH Function_counts occurrences_def split: option.splits)
qed (simp add: occurrences_def)

section \<open>Properties\<close>

definition empty_walker :: "BindingPolicy option \<Rightarrow> Walker" where
  "empty_walker binding = \<lparr>w_binding = binding, w_violations = [], w_functions = [], w_function_positions = [],
     w_nodes = 0, w_pending = []\<rparr>"

definition root_work :: "json_ptr \<Rightarrow> Work" where
  "root_work doc = \<lparr>wk_value = doc, wk_expected = ''root'', wk_depth = 0, wk_edge = []\<rparr>"

definition walk_context :: "Inventory \<Rightarrow> Policy \<Rightarrow> Policy option \<Rightarrow> Limits \<Rightarrow> WalkContext" where
  "walk_context inventory policy ceil limits = \<lparr>cx_inventory = inventory,
     cx_layers = \<lparr>ceiling_layer = (case ceil of Some c \<Rightarrow> c | None \<Rightarrow> policy), request_layer = policy\<rparr>,
     cx_limits = limits\<rparr>"

text \<open>An accepted statement comes from a finished walk whose screened names left no violation.\<close>

lemma Validate_allowed:
  assumes "Validate inventory doc policy binding ceil limits = (res, binding')" and "r_allowed res"
  obtains w w1 where "walk (walk_context inventory policy ceil limits)
      ((empty_walker binding)\<lparr>w_pending := [root_work doc]\<rparr>) = (None, w)"
    and "w1 = fold (screen_function (walk_context inventory policy ceil limits)) (w_functions w) w"
    and "w_violations w1 = []" and "w_binding w1 = binding'"
proof -
  let ?cx = "walk_context inventory policy ceil limits"
  obtain s w where c: "walk ?cx ((empty_walker binding)\<lparr>w_pending := [root_work doc]\<rparr>) = (s, w)"
    by (cases "walk ?cx ((empty_walker binding)\<lparr>w_pending := [root_work doc]\<rparr>)")
  then have c': "Check ?cx doc ''root'' (empty_walker binding) = (s, w)"
    by (simp add: Check_def root_work_def empty_walker_def)
  have v: "Validate inventory doc policy binding ceil limits = (case Check ?cx doc ''root'' (empty_walker binding) of
       (Some s, w) \<Rightarrow>
         (empty_result\<lparr>r_code := (if stop_rule s = rules_LIMIT then codes_FORBIDDEN else codes_UNSUPPORTED),
            r_violations := [violation (stop_rule s) (stop_message s)]\<rparr>, w_binding w)
     | (None, w) \<Rightarrow>
         (let w1 = fold (screen_function ?cx) (w_functions w) w
          in (empty_result\<lparr>r_allowed := (w_violations w1 = []),
                r_code := (if w_violations w1 = [] then codes_OK else codes_FORBIDDEN),
                r_violations := w_violations w1\<rparr>, w_binding w1)))"
    unfolding Validate_def walk_context_def empty_walker_def Let_def by (rule refl)
  have "s = None" using assms v c' by (cases s) (auto simp: empty_result_def)
  with assms v c c' that show ?thesis by (auto simp: Let_def)
qed

text \<open>What the grammar asks of an object: its fields are distinct, known to the rule, and include the required ones.\<close>

definition conforms :: "Rule \<Rightarrow> json_ptr \<Rightarrow> bool" where
  "conforms rule v \<longleftrightarrow> is_obj v \<and> distinct (map fst (obj_members v)) \<and>
     set (map fst (obj_members v)) \<subseteq> {name. rule_fields rule name \<noteq> None} \<and>
     set (rule_required rule) \<subseteq> set (map fst (obj_members v))"

lemma check_fields_None:
  "check_fields rule names seen = None \<Longrightarrow>
   distinct names \<and> set names \<inter> set seen = {} \<and> set names \<subseteq> {name. rule_fields rule name \<noteq> None}"
proof (induction names arbitrary: seen)
  case (Cons name names)
  then have "name \<notin> set seen" "rule_fields rule name \<noteq> None" "check_fields rule names (ins name seen) = None"
    by (auto split: if_splits)
  with Cons.IH [of "ins name seen"] show ?case by auto
qed simp

lemma node_shape_conforms:
  assumes "node_shape rule kind v = None" and "is_obj v"
  shows "conforms rule v"
proof -
  from assms(1) have r: "find (\<lambda>name. obj_get v name = None) (rule_required rule) = None"
    and f: "check_fields rule (map fst (obj_members v)) [] = None"
    by (auto simp: node_shape_def split: if_splits option.splits)
  from r have "set (rule_required rule) \<subseteq> set (map fst (obj_members v))"
    by (auto simp: find_None_iff obj_get_def map_of_eq_None_iff)
  with check_fields_None [OF f] assms(2) show ?thesis by (simp add: conforms_def)
qed

lemma node_children_conforms:
  assumes "node_children inventory x = Inr (cs, Some kind)"
  shows "\<exists>rule. inv_rules inventory kind = Some rule \<and> conforms rule (wk_value x) \<and>
    (\<forall>(name, child) \<in> set (obj_members (wk_value x)). name \<noteq> ''cte_map'' \<longrightarrow>
       (\<exists>c \<in> set cs. wk_value c = Some child \<and> wk_edge c = name))"
proof -
  from assms obtain rule ctes where r: "inv_rules inventory kind = Some rule" "is_obj (wk_value x)"
    "node_shape rule kind (wk_value x) = None" "cs = ctes @ field_children rule (wk_value x) (wk_depth x)"
    by (auto simp: node_children_def Let_def bindE_eq_Inr split: if_splits option.splits)
  have "\<exists>c \<in> set cs. wk_value c = Some child \<and> wk_edge c = name"
    if "(name, child) \<in> set (obj_members (wk_value x))" "name \<noteq> ''cte_map''" for name child
    unfolding r(4) using that
    by (intro bexI [of _ "\<lparr>wk_value = Some child, wk_expected = the (rule_fields rule name),
          wk_depth = wk_depth x + 1, wk_edge = name\<rparr>"]) (force simp: field_children_def)+
  with r node_shape_conforms show ?thesis by blast
qed


definition sample_call :: json where
  "sample_call = JObj [(''class'', JStr ''FUNCTION''), (''type'', JStr ''FUNCTION''), (''function_name'', JStr ''Sum''),
     (''query_location'', JUint 7),
     (''children'', JArr [JObj [(''class'', JStr ''CONSTANT''), (''type'', JStr ''VALUE_CONSTANT''), (''value'', JNull)]])]"

definition sample_statement :: json where
  "sample_statement = JObj [(''node'', sample_call)]"

definition sample_embedded :: Inventory where
  "sample_embedded = (case make_Inventory (Some sample_grammar) (Some sample_defaults) of
     Inr data \<Rightarrow> data | Inl _ \<Rightarrow> \<lparr>inv_rules = Map.empty, inv_dispatch = Map.empty, inv_defaults = []\<rparr>)"

definition sample_limits :: Limits where
  "sample_limits = \<lparr>l_bytes = 1000, l_nodes = 40, l_depth = 20\<rparr>"

definition sample_outcome :: "Result \<times> BindingPolicy option" where
  "sample_outcome = Validate sample_embedded (Some sample_statement) sample_policy (Some empty_binding) None sample_limits"

definition sample_call_work :: Work where
  "sample_call_work = \<lparr>wk_value = Some sample_call, wk_expected = ''ParsedExpression'', wk_depth = 1, wk_edge = ''node''\<rparr>"

lemma sample_call_visited: "visits sample_embedded (root_work (Some sample_statement)) sample_call_work"
proof -
  have c: "(case node_children sample_embedded (root_work (Some sample_statement)) of
      Inr (cs, k) \<Rightarrow> cs = [sample_call_work] | Inl _ \<Rightarrow> False)"
    by code_simp
  then obtain k where "node_children sample_embedded (root_work (Some sample_statement)) = Inr ([sample_call_work], k)"
    by (auto split: sum.splits)
  then show ?thesis by (auto intro: visits.child [OF visits.self])
qed




text \<open>The text walk always decides: on every document, policy and limits it returns a result whose
  verdict is \<open>ok\<close> exactly when there is no violation, and otherwise \<open>forbidden\<close> or
  \<open>unsupported\<close> with at least one violation; a refusal for size is \<open>forbidden\<close> under the
  limit rule, and no engine error is ever reported by it.\<close>

lemma Validate_decides:
  "let res = fst (Validate inventory doc policy binding ceil limits)
   in (r_allowed res \<longleftrightarrow> r_violations res = []) \<and>
      (r_allowed res \<longleftrightarrow> r_code res = codes_OK) \<and>
      r_code res \<in> {codes_OK, codes_FORBIDDEN, codes_UNSUPPORTED} \<and>
      \<not> (r_code res = codes_UNSUPPORTED \<and> rules_LIMIT \<in> v_rule ` set (r_violations res)) \<and>
      r_error_type res = [] \<and> r_error_message res = []"
  unfolding Validate_def Let_def
  by (auto simp: empty_result_def violation_def split: prod.splits option.splits)

text \<open>Occurrences are counted and positioned exactly: after any sequence of recorded names, the
  count of a name is the number of its occurrences in any spelling and its position the least
  known position among them.\<close>

lemma Function_occurrences:
  "map_of (w_functions (fold (\<lambda>(n, v). Function n v) os (empty_walker binding))) m =
     (if occurrences m os = [] then None else Some (length (occurrences m os))) \<and>
   map_of (w_function_positions (fold (\<lambda>(n, v). Function n v) os (empty_walker binding))) m = earliest m os"
  using fold_Function_counts [of os "empty_walker binding" m] fold_Function_positions [of os "empty_walker binding" m]
  by (simp add: empty_walker_def split: option.splits)

text \<open>C21. Bind-time positions accept literal syntax only: whenever the check passes, the expression is
  built from constants, parameters, casts and admitted constructors, so nothing in it can be
  evaluated before authorization.\<close>

theorem BindLiteral_accepts_only_literals:
  assumes "BindLiteral limits e containers pivot_names binding = (Inr True, binding')"
  shows "literal_form containers pivot_names e"
  using assms by (rule BindLiteral_sound)

theorem BindLiteral_accepts_only_literals_witness:
  "\<exists>b. BindLiteral sample_limits (Some (JObj [(''class'', JStr ''CAST''), (''child'', JObj [(''class'', JStr ''CONSTANT'')])]))
     False False (Some empty_binding) = (Inr True, b) \<and>
   literal_form False False (Some (JObj [(''class'', JStr ''CAST''), (''child'', JObj [(''class'', JStr ''CONSTANT'')])]))"
proof -
  have h: "BindLiteral sample_limits (Some (JObj [(''class'', JStr ''CAST''), (''child'', JObj [(''class'', JStr ''CONSTANT'')])]))
     False False (Some empty_binding) = (Inr True, Some empty_binding)" by code_simp
  show ?thesis using h BindLiteral_accepts_only_literals [OF h] by blast
qed

end
