(* ===== verification/Text_Check.thy ===== *)
theory Text_Check
  imports Grammar_Walk Engine_Objects
begin

text \<open>
  The binding boundary (\<open>CheckText\<close> in \<open>src/src/check.cpp\<close>): the statement's text is parsed, its
  kind and size are checked and its serialized tree is walked, before anything binds. The engine's
  parser, serializer and JSON writer are the functions of the parameter \<open>TextEngine\<close>, with the
  compiled-in grammar.
\<close>

datatype SQLStatement =
    SelectStatement (st_query: string) QueryNode
  | CreateStatement (st_query: string) CreateInfo
  | MultiStatement (st_query: string) "SQLStatement list"
  | OtherStatement (st_query: string) string

record TextEngine =
  te_parse :: "string \<Rightarrow> exn + SQLStatement list"
  te_serialize :: "QueryNode \<Rightarrow> json"
  te_written :: "json \<Rightarrow> nat"
  te_inventory :: Inventory

record Unit =
  u_statement :: "SQLStatement option"
  u_binding :: BindingPolicy
  u_provenance :: Provenance
  u_pivot_enums :: Names

record TextCheck =
  tc_result :: Result
  tc_units :: "Unit list"

section \<open>Statements\<close>

definition SerializeStatement :: "TextEngine \<Rightarrow> QueryNode \<Rightarrow> json" where
  "SerializeStatement engine select =
     JObj [(''error'', JBool False), (''statements'', JArr [te_serialize engine select])]"

definition pivot_prefix :: string where "pivot_prefix = ''__pivot_enum_''"
definition pivot_uuid :: string where "pivot_uuid = ''xxxxxxxx-xxxx-xxxx-xxxx-xxxxxxxxxxxx''"

definition hex_char :: "char \<Rightarrow> bool" where
  "hex_char c \<longleftrightarrow> of_char c \<ge> (48 :: nat) \<and> of_char c \<le> (57 :: nat) \<or> of_char c \<ge> (97 :: nat) \<and> of_char c \<le> (102 :: nat)"

definition PivotEnumName :: "string \<Rightarrow> bool" where
  "PivotEnumName name \<longleftrightarrow>
     length name = length pivot_prefix + length pivot_uuid \<and> take (length pivot_prefix) name = pivot_prefix \<and>
     list_all2 (\<lambda>u c. if u = CHR ''-'' then c = CHR ''-'' else hex_char c) pivot_uuid (drop (length pivot_prefix) name)"

definition PivotEnumInfo :: "CreateInfo \<Rightarrow> bool" where
  "PivotEnumInfo info \<longleftrightarrow>
     ci_type info = TYPE_ENTRY \<and> ci_temporary info \<and> \<not> ci_internal info \<and> ci_replace_on_conflict info \<and>
     ci_type_invalid info \<and> PivotEnumName (ci_name info)"

fun select_query :: "ParsedQuery option \<Rightarrow> QueryNode option" where
  "select_query (Some (SelectQuery node)) = Some node"
| "select_query _ = None"

fun PivotEnumStatement :: "SQLStatement \<Rightarrow> bool" where
  "PivotEnumStatement (CreateStatement _ info) \<longleftrightarrow>
     PivotEnumInfo info \<and> ci_catalog info = [] \<and> ci_schema info = [] \<and> select_query (ci_query info) \<noteq> None"
| "PivotEnumStatement _ \<longleftrightarrow> False"

abbreviation TEMP_CATALOG :: string where "TEMP_CATALOG \<equiv> ''temp''"

definition PivotEnumPlan :: "LogicalOperator \<Rightarrow> bool" where
  "PivotEnumPlan plan \<longleftrightarrow>
     op_type plan = LOGICAL_CREATE_TYPE \<and> length (op_children plan) = 1 \<and>
     (case op_create plan of
        None \<Rightarrow> False
      | Some info \<Rightarrow> PivotEnumInfo info \<and> ci_catalog info = TEMP_CATALOG \<and> ci_query info = None)"

fun is_select :: "SQLStatement \<Rightarrow> bool" where
  "is_select (SelectStatement _ _) \<longleftrightarrow> True"
| "is_select _ \<longleftrightarrow> False"

text \<open>The SELECT a statement stands for: itself, or the one that defines a dynamic PIVOT's enum type.\<close>

fun statement_select :: "SQLStatement \<Rightarrow> QueryNode option" where
  "statement_select (SelectStatement _ node) = Some node"
| "statement_select (CreateStatement q info) =
     (if PivotEnumStatement (CreateStatement q info) then select_query (ci_query info) else None)"
| "statement_select _ = None"

section \<open>Units\<close>

definition empty_unit :: "SQLStatement option \<Rightarrow> BindingPolicy \<Rightarrow> Unit" where
  "empty_unit statement binding =
     \<lparr>u_statement = statement, u_binding = binding, u_provenance = empty_provenance, u_pivot_enums = []\<rparr>"

definition Unattributed :: Unit where
  "Unattributed = (empty_unit None empty_binding)\<lparr>u_provenance := empty_provenance\<lparr>unattributed := True\<rparr>\<rparr>"

definition text_result :: "Result \<Rightarrow> TextCheck" where
  "text_result r = \<lparr>tc_result = r, tc_units = []\<rparr>"

definition allowed_result :: Result where
  "allowed_result = empty_result\<lparr>r_allowed := True, r_code := codes_OK\<rparr>"

section \<open>The check of a text\<close>

text \<open>Up to the parsed statement: a decision already, or the one statement.\<close>

definition ParseText :: "TextEngine \<Rightarrow> Limits \<Rightarrow> string \<Rightarrow> exn + (TextCheck + SQLStatement)" where
  "ParseText engine limits sql =
     (if CHR 0x00 \<in> set sql then Inl (InvalidInputException ''SQL contains a NUL byte'')
      else if length sql > l_bytes limits
      then Inr (Inl (text_result (FixedLimitExceeded ''SQL exceeds fixed input size limit'')))
      else bindE (te_parse engine sql) (\<lambda>statements.
        if statements = [] then Inl (InvalidInputException ''SQL contains no statements'')
        else if length statements > MAX_STATEMENTS
        then Inr (Inl (text_result (FixedLimitExceeded ''statement count exceeds fixed limit'')))
        else Inr (Inr (hd statements))))"

definition validate_unit :: "TextEngine \<Rightarrow> Layers \<Rightarrow> Limits \<Rightarrow> json \<Rightarrow> Result \<times> BindingPolicy option" where
  "validate_unit engine layers limits ast =
     Validate (te_inventory engine) (Some ast) (request_layer layers) (Some empty_binding)
       (Some (ceiling_layer layers)) limits"

definition unit_binding :: "BindingPolicy option \<Rightarrow> BindingPolicy" where
  "unit_binding binding = (case binding of Some b \<Rightarrow> b | None \<Rightarrow> empty_binding)"

definition CheckSelectText :: "TextEngine \<Rightarrow> Layers \<Rightarrow> Limits \<Rightarrow> SQLStatement \<Rightarrow> TextCheck" where
  "CheckSelectText engine layers limits statement =
     (case statement_select statement of
        None \<Rightarrow> text_result UnsupportedStatement
      | Some select \<Rightarrow>
          (let ast = SerializeStatement engine select
           in if te_written engine ast > l_bytes limits
              then text_result (FixedLimitExceeded ''serialized AST exceeds fixed size limit'')
              else
                (let (r, binding) = validate_unit engine layers limits ast
                 in if r_allowed r
                    then \<lparr>tc_result = r, tc_units = [empty_unit (Some statement) (unit_binding binding)]\<rparr>
                    else text_result r)))"

definition CheckNestedText :: "TextEngine \<Rightarrow> Layers \<Rightarrow> Limits \<Rightarrow> string \<Rightarrow> exn + TextCheck" where
  "CheckNestedText engine layers limits sql =
     bindE (ParseText engine limits sql) (\<lambda>parsed. case parsed of
         Inl check \<Rightarrow> Inr check
       | Inr statement \<Rightarrow> Inr (CheckSelectText engine layers limits statement))"

fun batch_enum :: "SQLStatement \<Rightarrow> Names \<Rightarrow> Names" where
  "batch_enum (CreateStatement _ info) enums = std_insert (\<lambda>x. x) (ci_name info) enums"
| "batch_enum _ enums = enums"

text \<open>The loop over a batch: what was admitted so far, the enum types created so far.\<close>

fun check_batch ::
    "TextEngine \<Rightarrow> Layers \<Rightarrow> Limits \<Rightarrow> SQLStatement list \<Rightarrow> Unit list \<Rightarrow> Names \<Rightarrow> exn + TextCheck" where
  "check_batch engine layers limits [] units enums = Inr \<lparr>tc_result = allowed_result, tc_units = units\<rparr>"
| "check_batch engine layers limits (statement # rest) units enums =
     bindE (CheckNestedText engine layers limits (st_query statement)) (\<lambda>part.
       if \<not> r_allowed (tc_result part) then Inr \<lparr>tc_result = tc_result part, tc_units = units\<rparr>
       else if length (tc_units part) \<noteq> 1 then Inr (text_result UnsupportedStatement)
       else check_batch engine layers limits rest
              (units @ [(hd (tc_units part))\<lparr>u_pivot_enums := enums\<rparr>]) (batch_enum statement enums))"

definition CheckBatchText :: "TextEngine \<Rightarrow> Layers \<Rightarrow> Limits \<Rightarrow> SQLStatement list \<Rightarrow> exn + TextCheck" where
  "CheckBatchText engine layers limits statements =
     (if length statements < 2 \<or> \<not> is_select (last statements) then Inr (text_result UnsupportedStatement)
      else if \<not> list_all PivotEnumStatement (butlast statements) then Inr (text_result UnsupportedStatement)
      else check_batch engine layers limits statements [] [])"

definition CheckStatementText :: "TextEngine \<Rightarrow> Layers \<Rightarrow> string \<Rightarrow> Limits \<Rightarrow> bool \<Rightarrow> exn + TextCheck" where
  "CheckStatementText engine layers sql limits nested =
     (if nested then CheckNestedText engine layers limits sql
      else bindE (ParseText engine limits sql) (\<lambda>parsed. case parsed of
          Inl check \<Rightarrow> Inr check
        | Inr (MultiStatement _ statements) \<Rightarrow> CheckBatchText engine layers limits statements
        | Inr statement \<Rightarrow> Inr (CheckSelectText engine layers limits statement)))"

definition CheckText :: "TextEngine \<Rightarrow> Layers \<Rightarrow> string \<Rightarrow> Limits \<Rightarrow> exn + TextCheck" where
  "CheckText engine layers sql limits = CheckStatementText engine layers sql limits False"

section \<open>What the text check admits\<close>

text \<open>A unit the engine may bind: a SELECT, or the SELECT of a pivot enum type, whose serialized tree is
  within the size limit and passed the walk under both layers, with the names that walk recorded.\<close>

definition admitted_unit :: "TextEngine \<Rightarrow> Layers \<Rightarrow> Limits \<Rightarrow> Unit \<Rightarrow> bool" where
  "admitted_unit engine layers limits u \<longleftrightarrow>
     (case Option.bind (u_statement u) statement_select of
        None \<Rightarrow> False
      | Some select \<Rightarrow>
          te_written engine (SerializeStatement engine select) \<le> l_bytes limits \<and>
          r_allowed (fst (validate_unit engine layers limits (SerializeStatement engine select))) \<and>
          u_binding u = unit_binding (snd (validate_unit engine layers limits (SerializeStatement engine select))) \<and>
          u_provenance u = empty_provenance)"

lemma validate_unit_violations:
  "r_allowed (fst (validate_unit engine layers limits ast)) \<longleftrightarrow>
   r_violations (fst (validate_unit engine layers limits ast)) = []"
  unfolding validate_unit_def Validate_def Let_def
  by (auto simp: empty_result_def split: prod.splits option.splits)

text \<open>A text check is consistent: its units are admitted, a decision has violations iff it denies, and an
  allowing one has something to bind.\<close>

definition wf_text :: "TextEngine \<Rightarrow> Layers \<Rightarrow> Limits \<Rightarrow> TextCheck \<Rightarrow> bool" where
  "wf_text engine layers limits check \<longleftrightarrow>
     list_all (admitted_unit engine layers limits) (tc_units check) \<and>
     (r_allowed (tc_result check) \<longleftrightarrow> r_violations (tc_result check) = []) \<and>
     (r_allowed (tc_result check) \<longrightarrow> tc_units check \<noteq> [])"

lemma wf_text_denied:
  "\<not> r_allowed r \<Longrightarrow> r_violations r \<noteq> [] \<Longrightarrow> wf_text engine layers limits (text_result r)"
  by (simp add: wf_text_def text_result_def)

lemma wf_text_refusals [simp]:
  "wf_text engine layers limits (text_result UnsupportedStatement)"
  "wf_text engine layers limits (text_result (FixedLimitExceeded m))"
  by (simp_all add: wf_text_denied UnsupportedStatement_def FixedLimitExceeded_def empty_result_def)

lemma wf_CheckSelectText: "wf_text engine layers limits (CheckSelectText engine layers limits statement)"
proof (cases "statement_select statement")
  case (Some select)
  obtain r b where v: "validate_unit engine layers limits (SerializeStatement engine select) = (r, b)"
    by (cases "validate_unit engine layers limits (SerializeStatement engine select)")
  with validate_unit_violations [of engine layers limits "SerializeStatement engine select"] Some show ?thesis
    by (simp add: CheckSelectText_def Let_def wf_text_denied)
       (simp add: wf_text_def admitted_unit_def empty_unit_def)
qed (simp add: CheckSelectText_def)

lemma ParseText_D:
  assumes "ParseText engine limits sql = Inr parsed"
  shows "CHR 0x00 \<notin> set sql" and "\<And>check. parsed = Inl check \<Longrightarrow> wf_text engine layers limits check \<and> tc_units check = []"
    and "\<And>st. parsed = Inr st \<Longrightarrow> length sql \<le> l_bytes limits \<and> te_parse engine sql = Inr [st]"
proof -
  show "CHR 0x00 \<notin> set sql" using assms by (auto simp: ParseText_def)
  show "wf_text engine layers limits check \<and> tc_units check = []" if "parsed = Inl check" for check
    using assms that
    by (auto simp: ParseText_def bindE_def text_result_def [symmetric] split: sum.splits if_splits)
       (simp_all add: text_result_def)
  show "length sql \<le> l_bytes limits \<and> te_parse engine sql = Inr [st]" if "parsed = Inr st" for st
  proof -
    have single: "xs = [hd xs]" if "xs \<noteq> []" "\<not> 1 < length xs" for xs :: "SQLStatement list"
      using that by (cases xs) auto
    show ?thesis
      using assms that by (auto simp: ParseText_def bindE_def split: sum.splits if_splits dest: single)
  qed
qed

lemma CheckNestedText_wf:
  "CheckNestedText engine layers limits sql = Inr part \<Longrightarrow> wf_text engine layers limits part"
  by (auto simp: CheckNestedText_def bindE_def wf_CheckSelectText dest: ParseText_D(2) split: sum.splits)

lemma admitted_unit_enums [simp]:
  "admitted_unit engine layers limits (u\<lparr>u_pivot_enums := enums\<rparr>) = admitted_unit engine layers limits u"
  by (simp add: admitted_unit_def split: option.splits)

lemma check_batch_wf:
  assumes "check_batch engine layers limits statements units enums = Inr check"
    and "list_all (admitted_unit engine layers limits) units" and "statements \<noteq> [] \<or> units \<noteq> []"
  shows "wf_text engine layers limits check"
  using assms
proof (induction statements arbitrary: units enums)
  case (Cons st rest)
  then obtain part where part: "CheckNestedText engine layers limits (st_query st) = Inr part"
    by (auto simp: bindE_def split: sum.splits)
  note wf = CheckNestedText_wf [OF part]
  show ?case
  proof (cases "r_allowed (tc_result part) \<and> length (tc_units part) = 1")
    case True
    then have "admitted_unit engine layers limits (hd (tc_units part))"
      using wf by (auto simp: wf_text_def length_Suc_conv)
    with Cons.prems True part show ?thesis
      by (intro Cons.IH [of "units @ [(hd (tc_units part))\<lparr>u_pivot_enums := enums\<rparr>]" "batch_enum st enums"]) simp_all
  next
    case False
    show ?thesis
    proof (cases "r_allowed (tc_result part)")
      case True
      with Cons.prems(1) part False show ?thesis by auto
    next
      case denied: False
      with Cons.prems(1,2) part wf show ?thesis by (auto simp: wf_text_def)
    qed
  qed
qed (auto simp: wf_text_def allowed_result_def empty_result_def)

lemma CheckText_wf:
  assumes "CheckText engine layers sql limits = Inr check"
  shows "wf_text engine layers limits check"
proof -
  from assms obtain parsed where p: "ParseText engine limits sql = Inr parsed"
    by (auto simp: CheckText_def CheckStatementText_def bindE_def split: sum.splits)
  have batch: "wf_text engine layers limits c" if "CheckBatchText engine layers limits sts = Inr c" for sts c
    using that check_batch_wf [of engine layers limits sts "[]" "[]" c]
    by (cases "sts = []") (auto simp: CheckBatchText_def split: if_splits)
  show ?thesis
    using assms p ParseText_D(2) [OF p] batch wf_CheckSelectText
    by (auto simp: CheckText_def CheckStatementText_def split: sum.splits SQLStatement.splits)
qed

section \<open>Properties\<close>

text \<open>C8. The binding boundary admits only reads. Whatever the parser and the serializer do, a text check
  that returns saw no NUL byte, and every unit it hands on to a binder is a SELECT or the SELECT
  defining a pivot enum type, from text within the size limit, whose serialized tree is within it too
  and was accepted by the grammar walk under both layers. An allowing check has a unit; a denying one
  has a violation.\<close>

theorem CheckText_admits_only_reads:
  assumes "CheckText engine layers sql limits = Inr check"
  shows "CHR 0x00 \<notin> set sql \<and> list_all (admitted_unit engine layers limits) (tc_units check) \<and>
    (tc_units check \<noteq> [] \<longrightarrow> length sql \<le> l_bytes limits) \<and>
    (if r_allowed (tc_result check) then tc_units check \<noteq> [] else r_violations (tc_result check) \<noteq> [])"
proof -
  from assms obtain parsed where p: "ParseText engine limits sql = Inr parsed"
    and q: "(case parsed of Inl c \<Rightarrow> Inr c | Inr (MultiStatement _ sts) \<Rightarrow> CheckBatchText engine layers limits sts
        | Inr st \<Rightarrow> Inr (CheckSelectText engine layers limits st)) = Inr check"
    by (auto simp: CheckText_def CheckStatementText_def bindE_def split: sum.splits)
  have "length sql \<le> l_bytes limits" if "tc_units check \<noteq> []"
    using that q ParseText_D(2,3) [OF p] by (cases parsed) auto
  with CheckText_wf [OF assms] ParseText_D(1) [OF p] show ?thesis by (simp add: wf_text_def)
qed

text \<open>A parser of one statement, and a serializer that wraps it in the sample tree.\<close>

definition sample_query :: QueryNode where "sample_query = QueryNode ''SELECT sum(NULL)'' []"

definition sample_engine :: TextEngine where
  "sample_engine = \<lparr>te_parse = (\<lambda>sql. Inr [SelectStatement sql sample_query]), te_serialize = (\<lambda>_. sample_statement),
     te_written = (\<lambda>_. 100), te_inventory = sample_embedded\<rparr>"

theorem CheckText_admits_only_reads_witness:
  "\<exists>check. CheckText sample_engine sample_layers ''SELECT sum(NULL)'' sample_limits = Inr check \<and>
     list_all (admitted_unit sample_engine sample_layers sample_limits) (tc_units check)"
proof -
  have "\<exists>check. CheckText sample_engine sample_layers ''SELECT sum(NULL)'' sample_limits = Inr check"
    by (simp add: CheckText_def CheckStatementText_def ParseText_def bindE_def sample_engine_def sample_limits_def)
  then obtain check where h: "CheckText sample_engine sample_layers ''SELECT sum(NULL)'' sample_limits = Inr check" ..
  show ?thesis using h CheckText_admits_only_reads [OF h] by blast
qed

end
