(* ===== verification/Plan_Check.thy ===== *)
theory Plan_Check
  imports Authorization_Model Text_Check
begin

text \<open>
  The execution boundary (\<open>CheckPlan\<close> in \<open>src/src/check.cpp\<close>): a bound plan is read-only, contains
  reviewed operators only, scans what the private bind of the same statement scanned, and its objects
  and functions are authorized. The state is the unit, whose provenance the private pass fills, the
  counts left of the private bind's record, and the result.
\<close>

datatype PlanOrigin = PRIVATE | ENGINE | PRESCREEN

datatype StatementReturnType = QUERY_RESULT | CHANGED_ROWS | NOTHING

text \<open>A modified database, and whether its modification only creates catalog entries.\<close>

record StatementProperties =
  sp_modified_databases :: "(string \<times> bool) list"
  sp_return_type :: StatementReturnType

record PlanState =
  ps_unit :: Unit
  ps_remaining :: "((string \<times> NamePath \<times> string) \<times> nat) list"
  ps_remaining_functions :: "(string \<times> nat) list"
  ps_result :: Result

definition ReadOperator :: "nat \<Rightarrow> LogicalOperatorType \<Rightarrow> bool" where
  "ReadOperator major t =
     (case t of
        LOGICAL_CREATE_TYPE \<Rightarrow> False
      | LOGICAL_OTHER _ \<Rightarrow> False
      | LOGICAL_SECURE_VIEW \<Rightarrow> major \<ge> 2
      | _ \<Rightarrow> True)"

definition ModifiesDatabase :: "StatementProperties \<Rightarrow> bool \<Rightarrow> bool" where
  "ModifiesDatabase properties pivot_enum \<longleftrightarrow>
     list_ex (\<lambda>(database, only_creates). \<not> pivot_enum \<or> database \<noteq> TEMP_CATALOG \<or> \<not> only_creates)
       (sp_modified_databases properties)"

section \<open>Scan accounting\<close>

definition count_of :: "('k \<times> nat) list \<Rightarrow> 'k \<Rightarrow> nat" where
  "count_of m k = (case map_of m k of Some n \<Rightarrow> n | None \<Rightarrow> 0)"

definition violate :: "Violation \<Rightarrow> string \<Rightarrow> PlanState \<Rightarrow> PlanState outcome" where
  "violate v message st = (Some (PermissionException message), st\<lparr>ps_result := add_violation v (ps_result st)\<rparr>)"

definition deny_plan :: "string \<Rightarrow> PlanState \<Rightarrow> PlanState outcome" where
  "deny_plan message = violate (violation rules_STATEMENT message) UNSUPPORTED_STATEMENT"

definition account_table :: "PlanOrigin \<Rightarrow> (string \<times> NamePath \<times> string) \<Rightarrow> Violation \<Rightarrow> PlanState \<Rightarrow> PlanState outcome" where
  "account_table origin key divergence st =
     (if origin = PRIVATE then
        (let pr = u_provenance (ps_unit st);
             pr1 = pr\<lparr>validated_scans := std_put key (count_of (validated_scans pr) key + 1) (validated_scans pr)\<rparr>
         in (None, st\<lparr>ps_unit := (ps_unit st)\<lparr>u_provenance := pr1\<rparr>\<rparr>))
      else if count_of (ps_remaining st) key = 0
      then violate divergence ''plan diverged from the validated statement'' st
      else (None, st\<lparr>ps_remaining := std_put key (count_of (ps_remaining st) key - 1) (ps_remaining st)\<rparr>))"

definition account_function :: "PlanOrigin \<Rightarrow> string \<Rightarrow> Violation \<Rightarrow> PlanState \<Rightarrow> PlanState outcome" where
  "account_function origin key divergence st =
     (if origin = PRIVATE then
        (let pr = u_provenance (ps_unit st);
             pr1 = pr\<lparr>validated_function_scans :=
               std_put key (count_of (validated_function_scans pr) key + 1) (validated_function_scans pr)\<rparr>
         in (None, st\<lparr>ps_unit := (ps_unit st)\<lparr>u_provenance := pr1\<rparr>\<rparr>))
      else if count_of (ps_remaining_functions st) key = 0
      then violate divergence ''plan diverged from the validated statement'' st
      else (None, st\<lparr>ps_remaining_functions :=
             std_put key (count_of (ps_remaining_functions st) key - 1) (ps_remaining_functions st)\<rparr>))"

definition on_result :: "(Result \<Rightarrow> Result outcome) \<Rightarrow> PlanState \<Rightarrow> PlanState outcome" where
  "on_result f st = (case f (ps_result st) of (e, r) \<Rightarrow> (e, st\<lparr>ps_result := r\<rparr>))"

text \<open>The scan of an operator, if it is one the boundary accounts for.\<close>

definition op_scan :: "PlanOrigin \<Rightarrow> LogicalOperator \<Rightarrow> LogicalGet option" where
  "op_scan origin op = (if op_type op = LOGICAL_GET \<and> origin \<noteq> PRESCREEN then op_get op else None)"

definition table_key :: "CatalogEntry \<Rightarrow> string \<times> NamePath \<times> string" where
  "table_key table = Table_key (ObjectKey (ce_catalog table) (ce_schema_path table) (ce_name table))"

definition scan_table ::
    "FunctionGrant list \<Rightarrow> nat \<Rightarrow> Layers \<Rightarrow> PlanOrigin \<Rightarrow> CatalogEntry \<Rightarrow> PlanState \<Rightarrow> PlanState outcome" where
  "scan_table inventory major layers origin table st =
     seqO (account_table origin (table_key table)
         ((violation rules_STATEMENT ''plan scans an object more often than the validated statement did'')
            \<lparr>v_catalog := ce_catalog table, v_schema_path := ce_schema_path table, v_table := ce_name table,
             v_object_type := ''table''\<rparr>) st)
       (\<lambda>st1. on_result (AuthorizeObject inventory major layers (u_binding (ps_unit st1)) table
          (ObjectAttributable (u_provenance (ps_unit st1)) (u_binding (ps_unit st1)) (ce_catalog table)
            (ce_schema_path table) (ce_name table))) st1)"

definition scan_function :: "PlanOrigin \<Rightarrow> string \<Rightarrow> PlanState \<Rightarrow> PlanState outcome" where
  "scan_function origin scan st =
     account_function origin scan
       ((violation rules_STATEMENT ''plan scans a source more often than the validated statement did'')
          \<lparr>v_function_name := scan\<rparr>) st"

definition check_scan ::
    "FunctionGrant list \<Rightarrow> nat \<Rightarrow> Layers \<Rightarrow> PlanOrigin \<Rightarrow> LogicalGet \<Rightarrow> PlanState \<Rightarrow> PlanState outcome" where
  "check_scan inventory major layers origin get st =
     (if OpaqueQuackFunction (bf_name (get_function get)) \<and> get_table get = None
      then deny_plan ''Quack scan lacks a checked table identity'' st
      else case get_table get of
          Some table \<Rightarrow> scan_table inventory major layers origin table st
        | None \<Rightarrow> scan_function origin (bf_name (get_function get)) st)"

section \<open>The check of a plan\<close>

definition operator_readable :: "nat \<Rightarrow> LogicalOperator \<Rightarrow> LogicalOperator \<Rightarrow> bool" where
  "operator_readable major plan op \<longleftrightarrow> ReadOperator major (op_type op) \<or> (PivotEnumPlan plan \<and> op = plan)"

definition check_operator ::
    "(LogicalOperatorType \<Rightarrow> string) \<Rightarrow> FunctionGrant list \<Rightarrow> nat \<Rightarrow> Layers \<Rightarrow> PlanOrigin \<Rightarrow> LogicalOperator \<Rightarrow>
     LogicalOperator \<Rightarrow> PlanState \<Rightarrow> PlanState outcome" where
  "check_operator operator_name inventory major layers origin plan op st =
     (if \<not> operator_readable major plan op
      then deny_plan (''unsupported plan operator: '' @ operator_name (op_type op)) st
      else case op_scan origin op of
          Some get \<Rightarrow> check_scan inventory major layers origin get st
        | None \<Rightarrow> (None, st))"

definition start_accounting :: "PlanOrigin \<Rightarrow> PlanState \<Rightarrow> PlanState" where
  "start_accounting origin st =
     (let pr = u_provenance (ps_unit st);
          pr1 = (if origin = PRIVATE then pr\<lparr>validated_scans := [], validated_function_scans := []\<rparr> else pr)
      in st\<lparr>ps_unit := (ps_unit st)\<lparr>u_provenance := pr1\<rparr>, ps_remaining := validated_scans pr1,
            ps_remaining_functions := validated_function_scans pr1\<rparr>)"

definition check_properties :: "StatementProperties \<Rightarrow> LogicalOperator \<Rightarrow> PlanState \<Rightarrow> PlanState outcome" where
  "check_properties properties plan st =
     (if ModifiesDatabase properties (PivotEnumPlan plan) then deny_plan ''statement modifies a database'' st
      else if sp_return_type properties \<noteq> (if PivotEnumPlan plan then NOTHING else QUERY_RESULT)
      then deny_plan ''statement does not return a query result'' st
      else (None, st))"

definition CheckPlan ::
    "(LogicalOperatorType \<Rightarrow> string) \<Rightarrow> FunctionGrant list \<Rightarrow> nat \<Rightarrow> Layers \<Rightarrow> PlanOrigin \<Rightarrow> StatementProperties \<Rightarrow>
     LogicalOperator \<Rightarrow> Unit \<Rightarrow> Result \<Rightarrow> exn option \<times> Unit \<times> Result" where
  "CheckPlan operator_name inventory major layers origin properties plan unit r =
     (let st = \<lparr>ps_unit = unit, ps_remaining = [], ps_remaining_functions = [], ps_result = r\<rparr>;
          (e, out) = seqO (check_properties properties plan st) (\<lambda>st1.
            seqO (foldO (check_operator operator_name inventory major layers origin plan) (plan_operators plan)
                   (start_accounting origin st1)) (\<lambda>st2.
              on_result (AuthorizePlan inventory major layers (u_binding (ps_unit st2)) (u_provenance (ps_unit st2)) plan)
                st2))
      in (e, ps_unit out, ps_result out))"

section \<open>What attribution reads\<close>

text \<open>A provenance without its scan record: everything authorization depends on.\<close>

definition scanless :: "Provenance \<Rightarrow> Provenance" where
  "scanless pr = pr\<lparr>validated_scans := [], validated_function_scans := []\<rparr>"

lemma scanless_sel [simp]:
  "collation_functions (scanless pr) = collation_functions pr"
  "function_entries (scanless pr) = function_entries pr"
  "caller_implementations (scanless pr) = caller_implementations pr"
  "trusted_implementations (scanless pr) = trusted_implementations pr"
  "authorized_dispatchers (scanless pr) = authorized_dispatchers pr"
  "caller_lookups (scanless pr) = caller_lookups pr"
  "caller_expansions (scanless pr) = caller_expansions pr"
  "caller_expansion_targets (scanless pr) = caller_expansion_targets pr"
  "caller_objects (scanless pr) = caller_objects pr"
  "trusted_objects (scanless pr) = trusted_objects pr"
  "unattributed (scanless pr) = unattributed pr"
  by (simp_all add: scanless_def)

lemma attributable_scanless:
  "ObjectAttributable (scanless pr) = ObjectAttributable pr"
  "plan_attributable (scanless pr) = plan_attributable pr"
  by (intro ext, simp only: ObjectAttributable_def scanless_sel)
     (intro ext, simp only: plan_attributable_def Attributable_def CallerCanName_def scanless_sel)

lemma restore_scanless:
  "definition_edge major (scanless pr) def i = definition_edge major pr def i"
  "restore_origin (scanless pr) i = restore_origin pr i"
  by (simp_all only: definition_edge_def restore_origin_def scanless_sel)

lemma resolve_scanless:
  "resolve_identity major (scanless pr) oc = resolve_identity major pr oc"
  "resolve_callers major binding (scanless pr) oc = resolve_callers major binding pr oc"
  "resolve_grant major policy binding (scanless pr) oc = resolve_grant major policy binding pr oc"
proof -
  show i: "resolve_identity major (scanless pr) oc = resolve_identity major pr oc"
    by (simp only: resolve_identity_def recover_collation_def recover_aggregate_def restore_scanless scanless_sel)
  show c: "resolve_callers major binding (scanless pr) oc = resolve_callers major binding pr oc"
    by (simp only: resolve_callers_def i scanless_sel)
  show "resolve_grant major policy binding (scanless pr) oc = resolve_grant major policy binding pr oc"
    by (simp only: resolve_grant_def i c restore_scanless scanless_sel)
qed

lemma plan_steps_scanless: "plan_steps major binding (scanless pr) plan = plan_steps major binding pr plan"
proof -
  have g: "get_steps major binding (scanless pr) = get_steps major binding pr"
    unfolding get_steps_def [abs_def] attributable_scanless ..
  have "expression_steps major binding (scanless pr) e = expression_steps major binding pr e" for e
    unfolding expression_steps.simps function_steps_def dispatched_steps_def window_steps_def window_occurrences_def
    by (cases e) (simp_all only: expression_steps.simps function_steps_def dispatched_steps_def window_steps_def
      window_occurrences_def attributable_scanless scanless_sel)
  then have "expression_steps major binding (scanless pr) = expression_steps major binding pr" by (rule ext)
  with g show ?thesis by (simp only: plan_steps_def)
qed

lemma AuthorizePlan_scanless:
  "AuthorizePlan inventory major layers binding (scanless pr) plan = AuthorizePlan inventory major layers binding pr plan"
proof -
  have "run_step inventory major binding (scanless pr) p x r = run_step inventory major binding pr p x r" for p x r
    by (cases x) (simp_all only: run_step.simps authorize_occurrence_def resolve_scanless)
  then have "run_step inventory major binding (scanless pr) = run_step inventory major binding pr" by (intro ext)
  then show ?thesis
    by (simp only: AuthorizePlan_def AuthorizePlanAgainst_def [abs_def] plan_steps_scanless)
qed

section \<open>Decisions do not depend on the evidence gathered so far\<close>

lemma foldO_fst_indep:
  assumes "\<And>x s t. x \<in> set xs \<Longrightarrow> fst (f x s) = fst (f x t)"
  shows "fst (foldO f xs s) = fst (foldO f xs t)"
  using assms
proof (induction xs arbitrary: s t)
  case (Cons x xs)
  have "fst (f x s) = fst (f x t)" using Cons.prems by simp
  then show ?case
    using Cons by (cases "f x s"; cases "f x t"; cases "fst (f x s)") auto
qed simp

lemma AuthorizePlan_fst_indep:
  "fst (AuthorizePlan inventory major layers binding pr plan r) = fst (AuthorizePlan inventory major layers binding pr plan r')"
proof -
  have "fst (run_step inventory major binding pr p x s) = fst (run_step inventory major binding pr p x t)" for p x s t
    by (cases x) (simp_all add: authorize_occurrence_def AuthorizeFunction_def deny_with_def Let_def)
  then have "fst (AuthorizePlanAgainst inventory major binding pr plan p s) =
      fst (AuthorizePlanAgainst inventory major binding pr plan p t)" for p s t
    unfolding AuthorizePlanAgainst_def by (intro foldO_fst_indep)
  then show ?thesis
    unfolding AuthorizePlan_def Layers_Each_def seqO_def by (auto split: option.splits) (metis option.distinct(1) option.sel)+
qed

lemma AuthorizeObjectAgainst_fst_indep:
  "r_violations r = r_violations r' \<Longrightarrow>
   fst (AuthorizeObjectAgainst inventory major binding entry a p r) =
   fst (AuthorizeObjectAgainst inventory major binding entry a p r')"
  by (cases "function_refused inventory p binding (entry_identity entry (the (FunctionKind major (ce_type entry)))) a
        (Lower (ce_name entry) \<in> set (caller_functions binding) \<or>
         (\<not> defaults p \<or> \<not> ce_internal entry) \<and> Lower (ce_name entry) \<in> set (system_functions binding))")
     (auto simp: AuthorizeObjectAgainst_def authorize_function_entry_def AuthorizeFunction_def deny_with_def
       authorize_table_entry_def Let_def add_violation_def split: option.splits)

lemma AuthorizeObject_fst_indep:
  assumes "r_violations r = r_violations r'"
  shows "fst (AuthorizeObject inventory major layers binding entry a r) =
    fst (AuthorizeObject inventory major layers binding entry a r')"
proof -
  let ?f = "AuthorizeObjectAgainst inventory major binding entry a"
  have c: "fst (?f (ceiling_layer layers) r) = fst (?f (ceiling_layer layers) r')"
    using AuthorizeObjectAgainst_fst_indep [OF assms] .
  show ?thesis
  proof (cases "fst (?f (ceiling_layer layers) r)")
    case None
    have "r_violations (snd (?f (ceiling_layer layers) r)) = r_violations (snd (?f (ceiling_layer layers) r'))"
      using object_authorizer.quiet None c assms by metis
    from AuthorizeObjectAgainst_fst_indep [OF this] None c show ?thesis
      by (simp add: AuthorizeObject_def Layers_Each_def seqO_def)
  qed (use c in \<open>simp add: AuthorizeObject_def Layers_Each_def seqO_def\<close>)
qed

section \<open>Scan accounting, exactly\<close>

fun table_scan :: "LogicalGet option \<Rightarrow> (string \<times> NamePath \<times> string) list" where
  "table_scan (Some get) = (case get_table get of Some table \<Rightarrow> [table_key table] | None \<Rightarrow> [])"
| "table_scan None = []"

fun function_scan :: "LogicalGet option \<Rightarrow> string list" where
  "function_scan (Some get) = (if get_table get = None then [bf_name (get_function get)] else [])"
| "function_scan None = []"

definition table_scans :: "PlanOrigin \<Rightarrow> LogicalOperator list \<Rightarrow> (string \<times> NamePath \<times> string) list" where
  "table_scans origin ops = concat (map (\<lambda>op. table_scan (op_scan origin op)) ops)"

definition function_scans :: "PlanOrigin \<Rightarrow> LogicalOperator list \<Rightarrow> string list" where
  "function_scans origin ops = concat (map (\<lambda>op. function_scan (op_scan origin op)) ops)"

definition table_ok :: "FunctionGrant list \<Rightarrow> nat \<Rightarrow> Layers \<Rightarrow> BindingPolicy \<Rightarrow> Provenance \<Rightarrow> CatalogEntry \<Rightarrow> bool" where
  "table_ok inventory major layers binding pr table \<longleftrightarrow>
     fst (AuthorizeObject inventory major layers binding table
       (ObjectAttributable pr binding (ce_catalog table) (ce_schema_path table) (ce_name table)) empty_result) = None"

definition operator_ok ::
    "FunctionGrant list \<Rightarrow> nat \<Rightarrow> Layers \<Rightarrow> PlanOrigin \<Rightarrow> BindingPolicy \<Rightarrow> Provenance \<Rightarrow> LogicalOperator \<Rightarrow> LogicalOperator \<Rightarrow> bool" where
  "operator_ok inventory major layers origin binding pr plan op \<longleftrightarrow>
     operator_readable major plan op \<and>
     (case op_scan origin op of
        None \<Rightarrow> True
      | Some get \<Rightarrow> (case get_table get of
            None \<Rightarrow> \<not> OpaqueQuackFunction (bf_name (get_function get))
          | Some table \<Rightarrow> table_ok inventory major layers binding pr table))"

text \<open>What is left of, or was added to, the record by the scans of some operators.\<close>

definition accounted :: "PlanOrigin \<Rightarrow> PlanState \<Rightarrow> LogicalOperator list \<Rightarrow> PlanState \<Rightarrow> bool" where
  "accounted origin st ops st' \<longleftrightarrow>
     (if origin = PRIVATE then
        (\<forall>k. count_of (validated_scans (u_provenance (ps_unit st'))) k =
           count_of (validated_scans (u_provenance (ps_unit st))) k + count_list (table_scans origin ops) k) \<and>
        (\<forall>k. count_of (validated_function_scans (u_provenance (ps_unit st'))) k =
           count_of (validated_function_scans (u_provenance (ps_unit st))) k + count_list (function_scans origin ops) k)
      else
        ps_unit st' = ps_unit st \<and>
        (\<forall>k. count_of (ps_remaining st) k = count_of (ps_remaining st') k + count_list (table_scans origin ops) k) \<and>
        (\<forall>k. count_of (ps_remaining_functions st) k =
           count_of (ps_remaining_functions st') k + count_list (function_scans origin ops) k))"

definition available :: "PlanOrigin \<Rightarrow> PlanState \<Rightarrow> LogicalOperator list \<Rightarrow> bool" where
  "available origin st ops \<longleftrightarrow> origin = PRIVATE \<or>
     (\<forall>k. count_list (table_scans origin ops) k \<le> count_of (ps_remaining st) k) \<and>
     (\<forall>k. count_list (function_scans origin ops) k \<le> count_of (ps_remaining_functions st) k)"

text \<open>What the walk keeps: the text record, everything attribution reads, and no violation so far.\<close>

definition same_context :: "PlanState \<Rightarrow> PlanState \<Rightarrow> bool" where
  "same_context st st' \<longleftrightarrow>
     (ps_unit st')\<lparr>u_provenance := scanless (u_provenance (ps_unit st'))\<rparr> =
     (ps_unit st)\<lparr>u_provenance := scanless (u_provenance (ps_unit st))\<rparr> \<and>
     r_violations (ps_result st') = r_violations (ps_result st)"

lemma count_of_put [simp]: "count_of (std_put k n m) k' = (if k = k' then n else count_of m k')"
  by (simp add: count_of_def)

lemma scans_simps [simp]:
  "table_scans origin [] = []" "function_scans origin [] = []"
  "table_scans origin (op # ops) = table_scan (op_scan origin op) @ table_scans origin ops"
  "function_scans origin (op # ops) = function_scan (op_scan origin op) @ function_scans origin ops"
  by (simp_all add: table_scans_def function_scans_def)

lemma same_contextD:
  assumes "same_context st st'"
  shows "u_binding (ps_unit st') = u_binding (ps_unit st)"
    and "scanless (u_provenance (ps_unit st')) = scanless (u_provenance (ps_unit st))"
    and "r_violations (ps_result st') = r_violations (ps_result st)"
  using assms by (auto simp: same_context_def dest: arg_cong [of _ _ u_binding] arg_cong [of _ _ u_provenance])

lemma table_ok_scanless:
  "scanless pr = scanless pr' \<Longrightarrow> table_ok inventory major layers binding pr table = table_ok inventory major layers binding pr' table"
  by (metis attributable_scanless(1) table_ok_def)

lemma account_table_cases:
  assumes "account_table origin key v st = (e, st')"
  shows "e = None \<Longrightarrow> same_context st st' \<and> (origin \<noteq> PRIVATE \<longrightarrow> ps_unit st' = ps_unit st \<and> ps_remaining_functions st' = ps_remaining_functions st \<and>
      (\<forall>k. count_of (ps_remaining st) k = count_of (ps_remaining st') k + count_list [key] k)) \<and>
    (origin = PRIVATE \<longrightarrow> (\<forall>k. count_of (validated_scans (u_provenance (ps_unit st'))) k =
           count_of (validated_scans (u_provenance (ps_unit st))) k + count_list [key] k) \<and>
       validated_function_scans (u_provenance (ps_unit st')) = validated_function_scans (u_provenance (ps_unit st)))"
    and "e = None \<longleftrightarrow> origin = PRIVATE \<or> 0 < count_of (ps_remaining st) key"
  using assms by (auto simp: account_table_def violate_def Let_def same_context_def scanless_def split: if_splits)

lemma account_function_cases:
  assumes "account_function origin key v st = (e, st')"
  shows "e = None \<Longrightarrow> same_context st st' \<and> (origin \<noteq> PRIVATE \<longrightarrow> ps_unit st' = ps_unit st \<and> ps_remaining st' = ps_remaining st \<and>
      (\<forall>k. count_of (ps_remaining_functions st) k = count_of (ps_remaining_functions st') k + count_list [key] k)) \<and>
    (origin = PRIVATE \<longrightarrow> (\<forall>k. count_of (validated_function_scans (u_provenance (ps_unit st'))) k =
           count_of (validated_function_scans (u_provenance (ps_unit st))) k + count_list [key] k) \<and>
       validated_scans (u_provenance (ps_unit st')) = validated_scans (u_provenance (ps_unit st)))"
    and "e = None \<longleftrightarrow> origin = PRIVATE \<or> 0 < count_of (ps_remaining_functions st) key"
  using assms by (auto simp: account_function_def violate_def Let_def same_context_def scanless_def split: if_splits)

lemma authorize_scan_cases:
  assumes "r_violations (ps_result st) = []"
    and "on_result (AuthorizeObject inventory major layers (u_binding (ps_unit st)) table
      (ObjectAttributable (u_provenance (ps_unit st)) (u_binding (ps_unit st)) (ce_catalog table)
         (ce_schema_path table) (ce_name table))) st = (e, st')"
  shows "e = None \<longleftrightarrow> table_ok inventory major layers (u_binding (ps_unit st)) (u_provenance (ps_unit st)) table"
    and "e = None \<Longrightarrow> same_context st st' \<and> ps_unit st' = ps_unit st \<and> ps_remaining st' = ps_remaining st \<and>
      ps_remaining_functions st' = ps_remaining_functions st"
proof -
  let ?f = "AuthorizeObject inventory major layers (u_binding (ps_unit st)) table
      (ObjectAttributable (u_provenance (ps_unit st)) (u_binding (ps_unit st)) (ce_catalog table)
         (ce_schema_path table) (ce_name table))"
  obtain r where f: "?f (ps_result st) = (e, r)" and st': "st' = st\<lparr>ps_result := r\<rparr>"
    using assms(2) by (auto simp: on_result_def split: prod.splits)
  have "fst (?f (ps_result st)) = fst (?f empty_result)"
    using assms(1) by (intro AuthorizeObject_fst_indep) (simp add: empty_result_def)
  then show "e = None \<longleftrightarrow> table_ok inventory major layers (u_binding (ps_unit st)) (u_provenance (ps_unit st)) table"
    using f by (simp add: table_ok_def)
  have "r_violations r = r_violations (ps_result st)" if "e = None"
    using f that unfolding AuthorizeObject_def by (intro contractD(3) [OF object_authorizer.layers_contract]) auto
  then show "e = None \<Longrightarrow> same_context st st' \<and> ps_unit st' = ps_unit st \<and> ps_remaining st' = ps_remaining st \<and>
      ps_remaining_functions st' = ps_remaining_functions st"
    using st' by (simp add: same_context_def)
qed

lemma same_context_trans: "same_context st1 st2 \<Longrightarrow> same_context st2 st3 \<Longrightarrow> same_context st1 st3"
  by (simp add: same_context_def)

lemma scan_table_step:
  assumes v: "r_violations (ps_result st) = []" and s: "scan_table inventory major layers origin table st = (e, st')"
  shows "e = None \<longleftrightarrow> table_ok inventory major layers (u_binding (ps_unit st)) (u_provenance (ps_unit st)) table \<and>
      (origin = PRIVATE \<or> 0 < count_of (ps_remaining st) (table_key table))"
    and "e = None \<Longrightarrow> same_context st st' \<and>
      (origin \<noteq> PRIVATE \<longrightarrow> ps_unit st' = ps_unit st \<and> ps_remaining_functions st' = ps_remaining_functions st \<and>
        (\<forall>k. count_of (ps_remaining st) k = count_of (ps_remaining st') k + count_list [table_key table] k)) \<and>
      (origin = PRIVATE \<longrightarrow> (\<forall>k. count_of (validated_scans (u_provenance (ps_unit st'))) k =
           count_of (validated_scans (u_provenance (ps_unit st))) k + count_list [table_key table] k) \<and>
         validated_function_scans (u_provenance (ps_unit st')) = validated_function_scans (u_provenance (ps_unit st)))"
proof -
  obtain v1 where v1: "scan_table inventory major layers origin table st =
      seqO (account_table origin (table_key table) v1 st) (\<lambda>st1. on_result (AuthorizeObject inventory major layers
        (u_binding (ps_unit st1)) table (ObjectAttributable (u_provenance (ps_unit st1)) (u_binding (ps_unit st1))
          (ce_catalog table) (ce_schema_path table) (ce_name table))) st1)"
    by (simp add: scan_table_def)
  obtain e1 st1 where a: "account_table origin (table_key table) v1 st = (e1, st1)"
    by (cases "account_table origin (table_key table) v1 st")
  note acc = account_table_cases [OF a]
  have ok: "table_ok inventory major layers (u_binding (ps_unit st1)) (u_provenance (ps_unit st1)) table =
      table_ok inventory major layers (u_binding (ps_unit st)) (u_provenance (ps_unit st)) table"
    and v': "r_violations (ps_result st1) = []" if "e1 = None"
    using same_contextD [of st st1] acc(1) [OF that] v table_ok_scanless by metis+
  show "e = None \<longleftrightarrow> table_ok inventory major layers (u_binding (ps_unit st)) (u_provenance (ps_unit st)) table \<and>
      (origin = PRIVATE \<or> 0 < count_of (ps_remaining st) (table_key table))"
    using s v1 a acc(2) ok v' authorize_scan_cases(1) [of st1] by (cases e1) auto
  show "same_context st st' \<and>
      (origin \<noteq> PRIVATE \<longrightarrow> ps_unit st' = ps_unit st \<and> ps_remaining_functions st' = ps_remaining_functions st \<and>
        (\<forall>k. count_of (ps_remaining st) k = count_of (ps_remaining st') k + count_list [table_key table] k)) \<and>
      (origin = PRIVATE \<longrightarrow> (\<forall>k. count_of (validated_scans (u_provenance (ps_unit st'))) k =
           count_of (validated_scans (u_provenance (ps_unit st))) k + count_list [table_key table] k) \<and>
         validated_function_scans (u_provenance (ps_unit st')) = validated_function_scans (u_provenance (ps_unit st)))"
    if "e = None"
  proof (cases e1)
    case None
    then have o: "on_result (AuthorizeObject inventory major layers
        (u_binding (ps_unit st1)) table (ObjectAttributable (u_provenance (ps_unit st1)) (u_binding (ps_unit st1))
          (ce_catalog table) (ce_schema_path table) (ce_name table))) st1 = (e, st')"
      using s v1 a by simp
    from authorize_scan_cases(2) [OF v' [OF None] o that] acc(1) [OF None] same_context_trans [of st st1 st']
    show ?thesis by simp
  qed (use s v1 a that in simp)
qed

lemma check_operator_step:
  assumes v: "r_violations (ps_result st) = []"
    and s: "check_operator operator_name inventory major layers origin plan op st = (e, st')"
  shows "e = None \<longleftrightarrow>
      operator_ok inventory major layers origin (u_binding (ps_unit st)) (u_provenance (ps_unit st)) plan op \<and>
      available origin st [op]"
    and "e = None \<Longrightarrow> same_context st st' \<and> accounted origin st [op] st'"
proof -
  have deny: "fst (deny_plan m s1) \<noteq> None" for m s1 by (simp add: deny_plan_def violate_def)
  consider (bad) "\<not> operator_readable major plan op"
    | (none) "operator_readable major plan op" "op_scan origin op = None"
    | (table) get table where "operator_readable major plan op" "op_scan origin op = Some get" "get_table get = Some table"
    | (opaque) get where "operator_readable major plan op" "op_scan origin op = Some get" "get_table get = None"
        "OpaqueQuackFunction (bf_name (get_function get))"
    | (func) get where "operator_readable major plan op" "op_scan origin op = Some get" "get_table get = None"
        "\<not> OpaqueQuackFunction (bf_name (get_function get))"
    by (metis option.exhaust)
  then have "(e = None \<longleftrightarrow>
      operator_ok inventory major layers origin (u_binding (ps_unit st)) (u_provenance (ps_unit st)) plan op \<and>
      available origin st [op]) \<and> (e = None \<longrightarrow> same_context st st' \<and> accounted origin st [op] st')"
  proof cases
    case bad
    then obtain m where "deny_plan m st = (e, st')" using s by (auto simp only: check_operator_def if_True simp_thms)
    with deny [of m st] bad show ?thesis by (auto simp: operator_ok_def)
  next
    case none
    then show ?thesis
      using s by (auto simp: check_operator_def operator_ok_def available_def accounted_def same_context_def)
  next
    case table
    then have t: "scan_table inventory major layers origin table st = (e, st')"
      using s by (simp add: check_operator_def check_scan_def)
    from scan_table_step [OF v t] table show ?thesis
      by (auto simp: operator_ok_def available_def accounted_def Suc_le_eq simp del: split_paired_All)
  next
    case opaque
    then have "check_scan inventory major layers origin get st = (e, st')"
      using s by (simp only: check_operator_def not_True_eq_False if_False option.case)
    with opaque obtain m where "deny_plan m st = (e, st')" by (auto simp only: check_scan_def if_True simp_thms)
    with deny [of m st] opaque show ?thesis by (auto simp: operator_ok_def)
  next
    case func
    then obtain w where t: "account_function origin (bf_name (get_function get)) w st = (e, st')"
      using s by (auto simp: check_operator_def check_scan_def scan_function_def)
    from account_function_cases [OF t] func show ?thesis
      by (auto simp: operator_ok_def available_def accounted_def Suc_le_eq)
  qed
  then show "e = None \<longleftrightarrow>
      operator_ok inventory major layers origin (u_binding (ps_unit st)) (u_provenance (ps_unit st)) plan op \<and>
      available origin st [op]" and "e = None \<Longrightarrow> same_context st st' \<and> accounted origin st [op] st'"
    by blast+
qed

lemma operator_ok_context:
  "same_context st st' \<Longrightarrow>
   operator_ok inventory major layers origin (u_binding (ps_unit st')) (u_provenance (ps_unit st')) plan op =
   operator_ok inventory major layers origin (u_binding (ps_unit st)) (u_provenance (ps_unit st)) plan op"
  by (simp add: operator_ok_def same_contextD(1) table_ok_scanless [OF same_contextD(2)] split: option.splits)

text \<open>The walk over any operators returns exactly when each is in order and the record has enough left.\<close>

lemma check_operators_exact:
  assumes "r_violations (ps_result st) = []"
    and "foldO (check_operator operator_name inventory major layers origin plan) ops st = (e, st')"
  shows "(e = None \<longleftrightarrow>
      list_all (operator_ok inventory major layers origin (u_binding (ps_unit st)) (u_provenance (ps_unit st)) plan) ops \<and>
      available origin st ops) \<and> (e = None \<longrightarrow> same_context st st' \<and> accounted origin st ops st')"
  using assms
proof (induction ops arbitrary: st)
  case Nil
  then show ?case by (auto simp: available_def accounted_def same_context_def)
next
  case (Cons op ops)
  let ?check = "check_operator operator_name inventory major layers origin plan"
  obtain e1 st1 where one: "?check op st = (e1, st1)" by (cases "?check op st")
  note step = check_operator_step [OF Cons.prems(1) one]
  have avail: "available origin st (op # ops) \<Longrightarrow> available origin st [op]"
    by (auto simp: available_def intro: add_leD1)
  show ?case
  proof (cases e1)
    case (Some x)
    with one Cons.prems(2) have "e = Some x" by simp
    with Some step(1) avail show ?thesis by auto
  next
    case None
    note ctx = step(2) [OF None]
    have rest: "foldO ?check ops st1 = (e, st')" using one None Cons.prems(2) by simp
    have v1: "r_violations (ps_result st1) = []" using ctx same_contextD(3) Cons.prems(1) by metis
    have ok: "operator_ok inventory major layers origin (u_binding (ps_unit st1)) (u_provenance (ps_unit st1)) plan =
        operator_ok inventory major layers origin (u_binding (ps_unit st)) (u_provenance (ps_unit st)) plan"
      using operator_ok_context ctx by blast
    have av: "available origin st (op # ops) \<longleftrightarrow> available origin st1 ops"
      using ctx step(1) None by (auto simp: available_def accounted_def)
    have acc: "accounted origin st1 ops st' \<Longrightarrow> accounted origin st (op # ops) st'"
      using ctx by (auto simp: accounted_def)
    show ?thesis
      using Cons.IH [OF v1 rest] step(1) None av acc ctx same_context_trans unfolding ok by auto
  qed
qed

section \<open>When the check of a plan returns\<close>

definition plan_start :: "PlanOrigin \<Rightarrow> Unit \<Rightarrow> Result \<Rightarrow> PlanState" where
  "plan_start origin unit r =
     start_accounting origin \<lparr>ps_unit = unit, ps_remaining = [], ps_remaining_functions = [], ps_result = r\<rparr>"

definition properties_ok :: "StatementProperties \<Rightarrow> LogicalOperator \<Rightarrow> bool" where
  "properties_ok properties plan \<longleftrightarrow> \<not> ModifiesDatabase properties (PivotEnumPlan plan) \<and>
     sp_return_type properties = (if PivotEnumPlan plan then NOTHING else QUERY_RESULT)"

lemma CheckPlan_fold:
  assumes "CheckPlan operator_name inventory major layers origin properties plan unit r = (None, unit', r')"
  obtains st where "properties_ok properties plan"
    and "foldO (check_operator operator_name inventory major layers origin plan) (plan_operators plan)
        (plan_start origin unit r) = (None, st)"
    and "AuthorizePlan inventory major layers (u_binding (ps_unit st)) (u_provenance (ps_unit st)) plan (ps_result st) = (None, r')"
    and "unit' = ps_unit st"
proof -
  let ?st = "\<lparr>ps_unit = unit, ps_remaining = [], ps_remaining_functions = [], ps_result = r\<rparr>"
  have p: "check_properties properties plan ?st = (None, st) \<longleftrightarrow> properties_ok properties plan \<and> st = ?st" for st
    by (auto simp: check_properties_def properties_ok_def deny_plan_def violate_def)
  from assms obtain out where out: "seqO (check_properties properties plan ?st) (\<lambda>st1.
      seqO (foldO (check_operator operator_name inventory major layers origin plan) (plan_operators plan)
          (start_accounting origin st1)) (\<lambda>st2.
        on_result (AuthorizePlan inventory major layers (u_binding (ps_unit st2)) (u_provenance (ps_unit st2)) plan)
          st2)) = (None, out)" "unit' = ps_unit out" "r' = ps_result out"
    by (auto simp: CheckPlan_def Let_def split: prod.splits)
  then obtain st where st: "properties_ok properties plan"
    "foldO (check_operator operator_name inventory major layers origin plan) (plan_operators plan)
        (plan_start origin unit r) = (None, st)"
    "on_result (AuthorizePlan inventory major layers (u_binding (ps_unit st)) (u_provenance (ps_unit st)) plan) st = (None, out)"
    by (auto simp: seqO_eq_None p plan_start_def)
  from st(3) out show thesis
    by (intro that [OF st(1,2)]) (auto simp: on_result_def split: prod.splits)
qed

lemma CheckPlan_accepts:
  assumes "properties_ok properties plan"
    and "foldO (check_operator operator_name inventory major layers origin plan) (plan_operators plan)
        (plan_start origin unit r) = (None, st)"
    and "fst (AuthorizePlan inventory major layers (u_binding (ps_unit st)) (u_provenance (ps_unit st)) plan (ps_result st)) = None"
  shows "fst (CheckPlan operator_name inventory major layers origin properties plan unit r) = None"
  using assms
  by (auto simp: CheckPlan_def Let_def check_properties_def properties_ok_def plan_start_def on_result_def
      split: prod.splits)

lemma plan_start_sel:
  "r_violations (ps_result (plan_start origin unit r)) = r_violations r"
  "u_binding (ps_unit (plan_start origin unit r)) = u_binding unit"
  "scanless (u_provenance (ps_unit (plan_start origin unit r))) = scanless (u_provenance unit)"
  "origin \<noteq> PRIVATE \<Longrightarrow> ps_unit (plan_start origin unit r) = unit"
  "origin \<noteq> PRIVATE \<Longrightarrow> ps_remaining (plan_start origin unit r) = validated_scans (u_provenance unit)"
  "origin \<noteq> PRIVATE \<Longrightarrow> ps_remaining_functions (plan_start origin unit r) = validated_function_scans (u_provenance unit)"
  "validated_scans (u_provenance (ps_unit (plan_start PRIVATE unit r))) = []"
  "validated_function_scans (u_provenance (ps_unit (plan_start PRIVATE unit r))) = []"
  by (simp_all add: plan_start_def start_accounting_def scanless_def Let_def)

lemma operator_ok_scanless:
  assumes "scanless pr = scanless pr'"
  shows "operator_ok inventory major layers origin binding pr plan op =
    operator_ok inventory major layers origin binding pr' plan op"
  unfolding operator_ok_def table_ok_scanless [OF assms] ..

text \<open>The private pass leaves in the unit exactly the scans of its plan; the engine pass found them there.\<close>

lemma CheckPlan_walked:
  assumes "r_violations r = []"
    and "CheckPlan operator_name inventory major layers origin properties plan unit r = (None, unit', r')"
  shows "properties_ok properties plan \<and>
    list_all (operator_ok inventory major layers origin (u_binding unit) (u_provenance unit) plan) (plan_operators plan) \<and>
    fst (AuthorizePlan inventory major layers (u_binding unit) (u_provenance unit) plan empty_result) = None \<and>
    u_binding unit' = u_binding unit \<and> scanless (u_provenance unit') = scanless (u_provenance unit) \<and>
    (if origin = PRIVATE then
       (\<forall>k. count_of (validated_scans (u_provenance unit')) k = count_list (table_scans PRIVATE (plan_operators plan)) k) \<and>
       (\<forall>k. count_of (validated_function_scans (u_provenance unit')) k =
          count_list (function_scans PRIVATE (plan_operators plan)) k)
     else unit' = unit \<and>
       (\<forall>k. count_list (table_scans origin (plan_operators plan)) k \<le> count_of (validated_scans (u_provenance unit)) k) \<and>
       (\<forall>k. count_list (function_scans origin (plan_operators plan)) k \<le>
          count_of (validated_function_scans (u_provenance unit)) k))"
proof -
  obtain st where st: "properties_ok properties plan"
    "foldO (check_operator operator_name inventory major layers origin plan) (plan_operators plan)
        (plan_start origin unit r) = (None, st)"
    "AuthorizePlan inventory major layers (u_binding (ps_unit st)) (u_provenance (ps_unit st)) plan (ps_result st) = (None, r')"
    "unit' = ps_unit st"
    by (rule CheckPlan_fold [OF assms(2)])
  have v: "r_violations (ps_result (plan_start origin unit r)) = []" using assms(1) by (simp add: plan_start_sel)
  note exact = check_operators_exact [OF v st(2)]
  then have ctx: "same_context (plan_start origin unit r) st" and acc: "accounted origin (plan_start origin unit r) (plan_operators plan) st"
    by simp_all
  have same: "u_binding (ps_unit st) = u_binding unit" "scanless (u_provenance (ps_unit st)) = scanless (u_provenance unit)"
    using same_contextD [OF ctx] by (simp_all add: plan_start_sel)
  have ops: "operator_ok inventory major layers origin (u_binding (ps_unit (plan_start origin unit r)))
      (u_provenance (ps_unit (plan_start origin unit r))) plan =
      operator_ok inventory major layers origin (u_binding unit) (u_provenance unit) plan"
    using operator_ok_scanless [OF plan_start_sel(3)] by (auto simp: plan_start_sel(2))
  have "fst (AuthorizePlan inventory major layers (u_binding unit) (u_provenance unit) plan empty_result) = None"
    using st(3) same AuthorizePlan_scanless AuthorizePlan_fst_indep by (metis fst_conv)
  moreover have "if origin = PRIVATE then
       (\<forall>k. count_of (validated_scans (u_provenance unit')) k = count_list (table_scans PRIVATE (plan_operators plan)) k) \<and>
       (\<forall>k. count_of (validated_function_scans (u_provenance unit')) k =
          count_list (function_scans PRIVATE (plan_operators plan)) k)
     else unit' = unit \<and>
       (\<forall>k. count_list (table_scans origin (plan_operators plan)) k \<le> count_of (validated_scans (u_provenance unit)) k) \<and>
       (\<forall>k. count_list (function_scans origin (plan_operators plan)) k \<le>
          count_of (validated_function_scans (u_provenance unit)) k)"
  proof (cases "origin = PRIVATE")
    case True
    with acc st(4) show ?thesis by (simp add: accounted_def plan_start_sel count_of_def)
  next
    case False
    with acc exact st(4) show ?thesis by (simp add: accounted_def available_def plan_start_sel)
  qed
  ultimately show ?thesis using st(1,4) exact same unfolding ops by simp
qed

lemma CheckPlan_private_accepts:
  assumes "r_violations r = []" and "properties_ok properties plan"
    and "list_all (operator_ok inventory major layers PRIVATE (u_binding unit) (u_provenance unit) plan) (plan_operators plan)"
    and "fst (AuthorizePlan inventory major layers (u_binding unit) (u_provenance unit) plan empty_result) = None"
  shows "fst (CheckPlan operator_name inventory major layers PRIVATE properties plan unit r) = None"
proof -
  let ?fold = "foldO (check_operator operator_name inventory major layers PRIVATE plan) (plan_operators plan)
        (plan_start PRIVATE unit r)"
  obtain e st where fold: "?fold = (e, st)" by (cases ?fold)
  have v: "r_violations (ps_result (plan_start PRIVATE unit r)) = []" using assms(1) by (simp add: plan_start_sel)
  have "operator_ok inventory major layers PRIVATE (u_binding (ps_unit (plan_start PRIVATE unit r)))
      (u_provenance (ps_unit (plan_start PRIVATE unit r))) plan =
      operator_ok inventory major layers PRIVATE (u_binding unit) (u_provenance unit) plan"
    using operator_ok_scanless [OF plan_start_sel(3)] by (auto simp: plan_start_sel(2))
  with check_operators_exact [OF v fold] assms(3) have none: "e = None"
    and ctx: "same_context (plan_start PRIVATE unit r) st" by (simp_all add: available_def)
  have "fst (AuthorizePlan inventory major layers (u_binding (ps_unit st)) (u_provenance (ps_unit st)) plan (ps_result st)) = None"
    using assms(4) same_contextD [OF ctx] AuthorizePlan_scanless AuthorizePlan_fst_indep plan_start_sel(2,3) by metis
  with fold none assms(2) show ?thesis by (intro CheckPlan_accepts [of properties plan _ _ _ _ _ _ _ st]) simp_all
qed

section \<open>Properties\<close>

lemma AuthorizeObject_table_None:
  assumes "fst (AuthorizeObject inventory major layers binding table True r) = None" and "is_object table"
  shows "Layers_All (\<lambda>p. TableAllowed p (ce_catalog table) (ce_schema_path table) (ce_name table) (ce_internal table)) layers"
proof -
  have k: "FunctionKind major (ce_type table) = None" using assms(2) by (auto simp: is_object_def FunctionKind_def)
  have "TableAllowed p (ce_catalog table) (ce_schema_path table) (ce_name table) (ce_internal table)"
    if "fst (AuthorizeObjectAgainst inventory major binding table True p r) = None" for p r
    using that k assms(2)
    by (auto simp: AuthorizeObjectAgainst_def deny_with_def authorize_table_entry_def Let_def split: if_splits)
  then show ?thesis
    using assms(1) by (auto simp: AuthorizeObject_def Layers_Each_def Layers_All_def seqO_def split: option.splits)
qed

lemma table_ok_allowed:
  assumes "table_ok inventory major layers binding pr table" and "is_object table"
    and "ObjectAttributable pr binding (ce_catalog table) (ce_schema_path table) (ce_name table)"
  shows "Layers_All (\<lambda>p. TableAllowed p (ce_catalog table) (ce_schema_path table) (ce_name table) (ce_internal table)) layers"
  using assms by (intro AuthorizeObject_table_None [of inventory major layers binding table empty_result]) (simp_all add: table_ok_def)

section \<open>What the check leaves in the result\<close>

text \<open>A step that decides nothing by itself, and reports a violation with every permission error and only then.\<close>

definition honest :: "(PlanState \<Rightarrow> PlanState outcome) \<Rightarrow> bool" where
  "honest f \<longleftrightarrow> (\<forall>st e st'. f st = (e, st') \<longrightarrow> r_allowed (ps_result st') = r_allowed (ps_result st) \<and>
     ((\<forall>m. e \<noteq> Some (PermissionException m)) \<longrightarrow> r_violations (ps_result st') = r_violations (ps_result st)))"

lemma honest_seqO:
  assumes "honest f" and "honest g"
  shows "honest (\<lambda>st. seqO (f st) g)"
  unfolding honest_def
proof (intro allI impI)
  fix st e st' assume s: "seqO (f st) g = (e, st')"
  obtain e1 st1 where f: "f st = (e1, st1)" by (cases "f st")
  with assms(1) have F: "r_allowed (ps_result st1) = r_allowed (ps_result st)"
    "(\<forall>m. e1 \<noteq> Some (PermissionException m)) \<Longrightarrow> r_violations (ps_result st1) = r_violations (ps_result st)"
    unfolding honest_def by blast+
  show "r_allowed (ps_result st') = r_allowed (ps_result st) \<and>
     ((\<forall>m. e \<noteq> Some (PermissionException m)) \<longrightarrow> r_violations (ps_result st') = r_violations (ps_result st))"
  proof (cases e1)
    case None
    with s f have "g st1 = (e, st')" by simp
    with assms(2) have "r_allowed (ps_result st') = r_allowed (ps_result st1) \<and>
        ((\<forall>m. e \<noteq> Some (PermissionException m)) \<longrightarrow> r_violations (ps_result st') = r_violations (ps_result st1))"
      unfolding honest_def by blast
    with F None show ?thesis by simp
  qed (use s f F in auto)
qed

lemma honest_foldO:
  assumes "\<And>x. x \<in> set xs \<Longrightarrow> honest (f x)"
  shows "honest (foldO f xs)"
  using assms
proof (induction xs)
  case (Cons x xs)
  then have "honest (\<lambda>st. seqO (f x st) (foldO f xs))" by (intro honest_seqO) simp_all
  moreover have "foldO f (x # xs) = (\<lambda>st. seqO (f x st) (foldO f xs))" by auto
  ultimately show ?case by simp
qed (simp add: honest_def)

lemma honest_on_result: "(\<And>st. contract (f st)) \<Longrightarrow> honest (\<lambda>st. on_result (f st) st)"
  unfolding honest_def
proof (intro allI impI)
  fix st e st' assume c: "\<And>st. contract (f st)" and o: "on_result (f st) st = (e, st')"
  from o obtain r where r: "f st (ps_result st) = (e, r)" "st' = st\<lparr>ps_result := r\<rparr>"
    by (auto simp: on_result_def split: prod.splits)
  from contractD(2,3) [OF c r(1)] r(2) show "r_allowed (ps_result st') = r_allowed (ps_result st) \<and>
     ((\<forall>m. e \<noteq> Some (PermissionException m)) \<longrightarrow> r_violations (ps_result st') = r_violations (ps_result st))"
    by (simp add: evidence_le_def)
qed

lemma honest_before:
  assumes "honest f" and "\<And>st. ps_result (g st) = ps_result st"
  shows "honest (\<lambda>st. f (g st))"
  unfolding honest_def
proof (intro allI impI)
  fix st e st' assume "f (g st) = (e, st')"
  with assms(1) have "r_allowed (ps_result st') = r_allowed (ps_result (g st)) \<and>
     ((\<forall>m. e \<noteq> Some (PermissionException m)) \<longrightarrow> r_violations (ps_result st') = r_violations (ps_result (g st)))"
    unfolding honest_def by blast
  then show "r_allowed (ps_result st') = r_allowed (ps_result st) \<and>
     ((\<forall>m. e \<noteq> Some (PermissionException m)) \<longrightarrow> r_violations (ps_result st') = r_violations (ps_result st))"
    unfolding assms(2) .
qed

lemma honest_violate: "honest (violate v m)" "honest (deny_plan m)"
  by (auto simp: honest_def violate_def deny_plan_def add_violation_def)

lemma honest_account: "honest (account_table origin key v)" "honest (account_function origin name v)"
  by (auto simp: honest_def account_table_def account_function_def violate_def add_violation_def Let_def split: if_splits)

lemma honest_check_operator: "honest (check_operator operator_name inventory major layers origin plan op)"
proof -
  have scan: "honest (scan_table inventory major layers origin table)" for table
    unfolding scan_table_def [abs_def] AuthorizeObject_def
    by (intro honest_seqO honest_account honest_on_result object_authorizer.layers_contract)
  have func: "honest (scan_function origin name)" for name
    unfolding scan_function_def [abs_def] by (rule honest_account)
  have if_honest: "honest (\<lambda>st. if b then f st else g st)" if "honest f" "honest g" for b f g
    using that by (cases b) simp_all
  have "honest (check_scan inventory major layers origin get)" for get
    unfolding check_scan_def [abs_def]
    by (intro if_honest honest_violate) (cases "get_table get"; simp add: scan func)
  moreover have "honest (\<lambda>st. (None, st))" by (simp add: honest_def)
  ultimately show ?thesis
    unfolding check_operator_def [abs_def]
    by (intro if_honest honest_violate) (cases "op_scan origin op"; simp)
qed

lemma CheckPlan_result:
  assumes "CheckPlan operator_name inventory major layers origin properties plan unit r = (e, unit', r')"
  shows "r_allowed r' = r_allowed r"
    and "(\<And>m. e \<noteq> Some (PermissionException m)) \<Longrightarrow> r_violations r' = r_violations r"
proof -
  let ?walk = "\<lambda>st. seqO (foldO (check_operator operator_name inventory major layers origin plan) (plan_operators plan)
      (start_accounting origin st)) (\<lambda>st2. on_result (AuthorizePlan inventory major layers (u_binding (ps_unit st2))
        (u_provenance (ps_unit st2)) plan) st2)"
  have start: "ps_result (start_accounting origin st) = ps_result st" for st
    by (simp add: start_accounting_def Let_def)
  have "honest (foldO (check_operator operator_name inventory major layers origin plan) (plan_operators plan))"
    by (intro honest_foldO honest_check_operator)
  then have "honest (\<lambda>st. foldO (check_operator operator_name inventory major layers origin plan) (plan_operators plan)
      (start_accounting origin st))"
    by (rule honest_before) (rule start)
  then have "honest ?walk"
    unfolding AuthorizePlan_def by (intro honest_seqO honest_on_result plan_authorizer.layers_contract)
  moreover have "honest (check_properties properties plan)"
    by (auto simp: honest_def check_properties_def deny_plan_def violate_def add_violation_def split: if_splits)
  ultimately have "honest (\<lambda>st. seqO (check_properties properties plan st) ?walk)" by (rule honest_seqO [rotated])
  with assms show "r_allowed r' = r_allowed r"
    and "(\<And>m. e \<noteq> Some (PermissionException m)) \<Longrightarrow> r_violations r' = r_violations r"
    unfolding honest_def CheckPlan_def Let_def by (force split: prod.splits)+
qed

definition sample_scan :: LogicalOperator where
  "sample_scan = Operator LOGICAL_GET (Some \<lparr>get_function = sample_function ''system'' ''seq_scan'',
     get_table = Some (sample_entry TABLE_ENTRY ''Orders'')\<rparr>) None [] []"

definition sample_read :: LogicalOperator where
  "sample_read = Operator LOGICAL_PROJECTION None None [] [sample_scan]"

definition sample_properties :: StatementProperties where
  "sample_properties = \<lparr>sp_modified_databases = [], sp_return_type = QUERY_RESULT\<rparr>"

lemma sample_private_returns:
  obtains u r where "CheckPlan (\<lambda>_. []) sample_inventory 1 plan_layers PRIVATE sample_properties sample_read
     (empty_unit None empty_binding) empty_result = (None, u, r)"
proof -
  have u: "u_binding (empty_unit None empty_binding) = empty_binding"
    "u_provenance (empty_unit None empty_binding) = empty_provenance" by (simp_all add: empty_unit_def)
  have "properties_ok sample_properties sample_read" by code_simp
  moreover have "list_all (operator_ok sample_inventory 1 plan_layers PRIVATE empty_binding empty_provenance sample_read)
      (plan_operators sample_read)" by code_simp
  moreover have "fst (AuthorizePlan sample_inventory 1 plan_layers empty_binding empty_provenance sample_read empty_result) = None"
    by code_simp
  ultimately have "fst (CheckPlan (\<lambda>_. []) sample_inventory 1 plan_layers PRIVATE sample_properties sample_read
     (empty_unit None empty_binding) empty_result) = None"
    by (intro CheckPlan_private_accepts) (simp_all add: u empty_result_def)
  then show thesis using that by (metis prod.collapse)
qed

text \<open>The check writes nothing of a unit but its provenance.\<close>

definition unit_text :: "Unit \<Rightarrow> SQLStatement option \<times> BindingPolicy \<times> Names" where
  "unit_text u = (u_statement u, u_binding u, u_pivot_enums u)"

lemma unit_text_provenance [simp]: "unit_text (u\<lparr>u_provenance := pr\<rparr>) = unit_text u"
  by (simp add: unit_text_def)

lemma check_operator_text:
  "unit_text (ps_unit (snd (check_operator operator_name inventory major layers origin plan op st))) = unit_text (ps_unit st)"
proof -
  have deny: "ps_unit (snd (violate v m st)) = ps_unit st" for v m st by (simp add: violate_def)
  have res: "ps_unit (snd (on_result f st)) = ps_unit st" for f st by (simp add: on_result_def split: prod.splits)
  have acc: "unit_text (ps_unit (snd (account_table origin k v st))) = unit_text (ps_unit st)"
    "unit_text (ps_unit (snd (account_function origin f v st))) = unit_text (ps_unit st)" for k f v st
    by (simp_all add: account_table_def account_function_def Let_def deny)
  have "unit_text (ps_unit (snd (scan_table inventory major layers origin table st))) = unit_text (ps_unit st)" for table
    unfolding scan_table_def seqO_def by (simp add: res acc split: option.splits)
  then show ?thesis
    by (simp add: check_operator_def check_scan_def scan_function_def deny_plan_def deny acc split: option.splits)
qed

lemma CheckPlan_text:
  assumes "CheckPlan operator_name inventory major layers origin properties plan unit r = (e, unit', r')"
  shows "unit_text unit' = unit_text unit"
proof -
  have start: "unit_text (ps_unit (start_accounting origin st)) = unit_text (ps_unit st)" for st
    by (simp add: start_accounting_def Let_def)
  have props: "ps_unit (snd (check_properties properties plan st)) = ps_unit st" for st
    by (simp add: check_properties_def deny_plan_def violate_def)
  have walk: "unit_text (ps_unit (snd (foldO (check_operator operator_name inventory major layers origin plan) ops st))) =
      unit_text (ps_unit st)" for ops st
    by (rule foldO_invariant) (simp_all add: check_operator_text)
  have res: "ps_unit (snd (on_result f st)) = ps_unit st" for f st by (simp add: on_result_def split: prod.splits)
  have "unit' = ps_unit (snd (seqO (check_properties properties plan
      \<lparr>ps_unit = unit, ps_remaining = [], ps_remaining_functions = [], ps_result = r\<rparr>) (\<lambda>st1.
      seqO (foldO (check_operator operator_name inventory major layers origin plan) (plan_operators plan)
          (start_accounting origin st1)) (\<lambda>st2.
        on_result (AuthorizePlan inventory major layers (u_binding (ps_unit st2)) (u_provenance (ps_unit st2)) plan) st2))))"
    using assms by (simp add: CheckPlan_def Let_def split: prod.splits)
  then show ?thesis
    unfolding seqO_def by (simp add: props walk start res split: option.splits)
qed

text \<open>And of its provenance nothing but the scans, whatever the outcome.\<close>

definition unit_known :: "Unit \<Rightarrow> Provenance" where
  "unit_known u = scanless (u_provenance u)"

lemma check_operator_known:
  "unit_known (ps_unit (snd (check_operator operator_name inventory major layers origin plan op st))) = unit_known (ps_unit st)"
proof -
  have deny: "ps_unit (snd (violate v m st)) = ps_unit st" for v m st by (simp add: violate_def)
  have res: "ps_unit (snd (on_result f st)) = ps_unit st" for f st by (simp add: on_result_def split: prod.splits)
  have acc: "unit_known (ps_unit (snd (account_table origin k v st))) = unit_known (ps_unit st)"
    "unit_known (ps_unit (snd (account_function origin f v st))) = unit_known (ps_unit st)" for k f v st
    by (simp_all add: account_table_def account_function_def Let_def deny unit_known_def scanless_def)
  have "unit_known (ps_unit (snd (scan_table inventory major layers origin table st))) = unit_known (ps_unit st)" for table
    unfolding scan_table_def seqO_def by (simp add: res acc split: option.splits)
  then show ?thesis
    by (simp add: check_operator_def check_scan_def scan_function_def deny_plan_def deny acc split: option.splits)
qed

lemma CheckPlan_known:
  assumes "CheckPlan operator_name inventory major layers origin properties plan unit r = (e, unit', r')"
  shows "unit_known unit' = unit_known unit"
proof -
  have start: "unit_known (ps_unit (start_accounting origin st)) = unit_known (ps_unit st)" for st
    by (simp add: start_accounting_def Let_def unit_known_def scanless_def)
  have props: "ps_unit (snd (check_properties properties plan st)) = ps_unit st" for st
    by (simp add: check_properties_def deny_plan_def violate_def)
  have walk: "unit_known (ps_unit (snd (foldO (check_operator operator_name inventory major layers origin plan) ops st))) =
      unit_known (ps_unit st)" for ops st
    by (rule foldO_invariant) (simp_all add: check_operator_known)
  have res: "ps_unit (snd (on_result f st)) = ps_unit st" for f st by (simp add: on_result_def split: prod.splits)
  have "unit' = ps_unit (snd (seqO (check_properties properties plan
      \<lparr>ps_unit = unit, ps_remaining = [], ps_remaining_functions = [], ps_result = r\<rparr>) (\<lambda>st1.
      seqO (foldO (check_operator operator_name inventory major layers origin plan) (plan_operators plan)
          (start_accounting origin st1)) (\<lambda>st2.
        on_result (AuthorizePlan inventory major layers (u_binding (ps_unit st2)) (u_provenance (ps_unit st2)) plan) st2))))"
    using assms by (simp add: CheckPlan_def Let_def split: prod.splits)
  then show ?thesis
    unfolding seqO_def by (simp add: props walk start res split: option.splits)
qed

section \<open>What a plan that passes is\<close>

text \<open>
  What the layers ask of a plan bound for a unit: it only reads; every base table it scans that the
  caller reached is allowed; and every function it executes, table functions included, resolves to an
  identity that stands for it and is within what both layers allow.
\<close>

definition plan_allowed ::
    "FunctionGrant list \<Rightarrow> nat \<Rightarrow> Layers \<Rightarrow> PlanOrigin \<Rightarrow> Unit \<Rightarrow> StatementProperties \<Rightarrow> LogicalOperator \<Rightarrow> bool" where
  "plan_allowed inventory major layers origin unit properties plan \<longleftrightarrow>
     \<not> ModifiesDatabase properties (PivotEnumPlan plan) \<and>
     (\<forall>op. op_within plan op \<longrightarrow> ReadOperator major (op_type op) \<or> PivotEnumPlan plan \<and> op = plan) \<and>
     (\<forall>op get table. op_within plan op \<and> op_scan origin op = Some get \<and> get_table get = Some table \<and> is_object table \<and>
        ObjectAttributable (u_provenance unit) (u_binding unit) (ce_catalog table) (ce_schema_path table) (ce_name table) \<longrightarrow>
        Layers_All (\<lambda>p. TableAllowed p (ce_catalog table) (ce_schema_path table) (ce_name table) (ce_internal table)) layers) \<and>
     (\<forall>i0 callers must def. executes major (u_binding unit) (u_provenance unit) plan i0 callers must def \<longrightarrow>
        (let i = resolve_identity major (u_provenance unit) (occurrence i0 callers must def)
         in stands_for (u_provenance unit) i0 i \<and>
            function_within inventory layers (u_binding unit) (u_provenance unit) i callers must def))"

lemma CheckPlan_allowed:
  assumes c: "CheckPlan operator_name inventory major layers origin properties plan unit r = (None, unit', r')"
    and v: "r_violations r = []"
  shows "plan_allowed inventory major layers origin unit properties plan"
proof -
  note walked = CheckPlan_walked [OF v c]
  have op: "operator_ok inventory major layers origin (u_binding unit) (u_provenance unit) plan op" if "op_within plan op" for op
    using walked that by (simp add: list_all_iff set_plan_operators)
  have table: "Layers_All (\<lambda>p. TableAllowed p (ce_catalog table) (ce_schema_path table) (ce_name table) (ce_internal table)) layers"
    if "op_within plan op" "op_scan origin op = Some get" "get_table get = Some table" "is_object table"
      "ObjectAttributable (u_provenance unit) (u_binding unit) (ce_catalog table) (ce_schema_path table) (ce_name table)"
    for op get table
    using op [OF that(1)] that(2-) by (intro table_ok_allowed) (auto simp: operator_ok_def)
  obtain s where s: "AuthorizePlan inventory major layers (u_binding unit) (u_provenance unit) plan empty_result = (None, s)"
    using walked by (metis prod.collapse)
  have "let i = resolve_identity major (u_provenance unit) (occurrence i0 callers must def)
      in stands_for (u_provenance unit) i0 i \<and>
         function_within inventory layers (u_binding unit) (u_provenance unit) i callers must def"
    if "executes major (u_binding unit) (u_provenance unit) plan i0 callers must def" for i0 callers must def
    using AuthorizePlan_executes [OF s that refl] by (simp only: Let_def)
  moreover have "\<not> ModifiesDatabase properties (PivotEnumPlan plan)" using walked by (simp add: properties_ok_def)
  moreover have "\<forall>op. op_within plan op \<longrightarrow> ReadOperator major (op_type op) \<or> PivotEnumPlan plan \<and> op = plan"
    using op by (simp add: operator_ok_def operator_readable_def)
  ultimately show ?thesis unfolding plan_allowed_def by (intro conjI) (use table in blast)+
qed

lemma no_violations: "r_violations empty_result = []"
  by (simp add: empty_result_def)

text \<open>C6. A plan that passes the execution boundary only reads what the policy lets it read. It modifies no
  database, returns what its kind returns, and every operator in it is a reviewed read operator, the root
  of a pivot enum type apart; every base table it scans that the caller reached is allowed by both
  layers; and the engine's plan scans no table and no source more often than the private bind of the
  validated statement recorded.\<close>

theorem CheckPlan_read_only:
  assumes "CheckPlan operator_name inventory major layers origin properties plan unit r = (None, unit', r')"
    and "r_violations r = []" and "op_within plan op"
  shows "\<not> ModifiesDatabase properties (PivotEnumPlan plan) \<and>
    (ReadOperator major (op_type op) \<or> PivotEnumPlan plan \<and> op = plan) \<and>
    (\<forall>get table. op_scan origin op = Some get \<and> get_table get = Some table \<and> is_object table \<and>
       ObjectAttributable (u_provenance unit) (u_binding unit) (ce_catalog table) (ce_schema_path table) (ce_name table) \<longrightarrow>
       Layers_All (\<lambda>p. TableAllowed p (ce_catalog table) (ce_schema_path table) (ce_name table) (ce_internal table)) layers) \<and>
    (origin = ENGINE \<longrightarrow>
       (\<forall>k. count_list (table_scans ENGINE (plan_operators plan)) k \<le> count_of (validated_scans (u_provenance unit)) k) \<and>
       (\<forall>k. count_list (function_scans ENGINE (plan_operators plan)) k \<le>
          count_of (validated_function_scans (u_provenance unit)) k))"
proof -
  note walked = CheckPlan_walked [OF assms(2,1)]
  have "(\<forall>k. count_list (table_scans ENGINE (plan_operators plan)) k \<le> count_of (validated_scans (u_provenance unit)) k) \<and>
       (\<forall>k. count_list (function_scans ENGINE (plan_operators plan)) k \<le>
          count_of (validated_function_scans (u_provenance unit)) k)" if "origin = ENGINE"
    using walked that by simp
  with CheckPlan_allowed [OF assms(1,2), unfolded plan_allowed_def] assms(3) show ?thesis by blast
qed

theorem CheckPlan_read_only_witness:
  "\<exists>u r. CheckPlan (\<lambda>_. []) sample_inventory 1 plan_layers PRIVATE sample_properties sample_read
      (empty_unit None empty_binding) empty_result = (None, u, r) \<and> op_within sample_read sample_scan \<and>
    \<not> ModifiesDatabase sample_properties (PivotEnumPlan sample_read) \<and> ReadOperator 1 (op_type sample_scan)"
proof -
  obtain u r where h: "CheckPlan (\<lambda>_. []) sample_inventory 1 plan_layers PRIVATE sample_properties sample_read
     (empty_unit None empty_binding) empty_result = (None, u, r)"
    by (rule sample_private_returns)
  have w: "op_within sample_read sample_scan"
    by (rule op_child [OF _ op_self]) (simp add: sample_read_def)
  have "ReadOperator 1 (op_type sample_scan) \<or> PivotEnumPlan sample_read \<and> sample_scan = sample_read"
    and "\<not> ModifiesDatabase sample_properties (PivotEnumPlan sample_read)"
    using CheckPlan_read_only [OF h no_violations w] by blast+
  moreover have "\<not> PivotEnumPlan sample_read" by (simp add: PivotEnumPlan_def sample_read_def)
  ultimately show ?thesis using h w by blast
qed

text \<open>C17. Enforcement refuses nothing it validated: if the private pass accepts a plan, then the engine
  pass, run with the unit the private pass left, accepts the same plan with the same properties.\<close>

theorem validated_plan_runs:
  assumes "CheckPlan operator_name inventory major layers PRIVATE properties plan unit r = (None, unit', r')"
    and "r_violations r = []"
  shows "fst (CheckPlan operator_name inventory major layers ENGINE properties plan unit' empty_result) = None"
proof -
  note walked = CheckPlan_walked [OF assms(2,1)]
  let ?fold = "foldO (check_operator operator_name inventory major layers ENGINE plan) (plan_operators plan)
        (plan_start ENGINE unit' empty_result)"
  have scans: "table_scans ENGINE ops = table_scans PRIVATE ops" "function_scans ENGINE ops = function_scans PRIVATE ops" for ops
    by (simp_all add: table_scans_def function_scans_def op_scan_def)
  have ok: "operator_ok inventory major layers ENGINE (u_binding unit') (u_provenance unit') plan =
      operator_ok inventory major layers PRIVATE (u_binding unit) (u_provenance unit) plan"
    using walked operator_ok_scanless [of "u_provenance unit'" "u_provenance unit"]
    by (auto simp: fun_eq_iff operator_ok_def [of _ _ _ ENGINE] operator_ok_def [of _ _ _ PRIVATE] op_scan_def)
  obtain e st where fold: "?fold = (e, st)" by (cases ?fold)
  have v: "r_violations (ps_result (plan_start ENGINE unit' empty_result)) = []"
    by (simp add: plan_start_sel empty_result_def)
  note exact = check_operators_exact [OF v fold]
  have none: "e = None"
    using exact walked ok by (simp add: available_def plan_start_sel scans)
  then have "ps_unit st = unit'" using exact by (simp add: accounted_def plan_start_sel)
  moreover have "fst (AuthorizePlan inventory major layers (u_binding unit') (u_provenance unit') plan (ps_result st)) = None"
    using walked AuthorizePlan_scanless AuthorizePlan_fst_indep by metis
  ultimately show ?thesis
    using walked fold none by (intro CheckPlan_accepts [of properties plan _ _ _ _ _ _ _ st]) simp_all
qed

theorem validated_plan_runs_witness:
  "\<exists>u r. CheckPlan (\<lambda>_. []) sample_inventory 1 plan_layers PRIVATE sample_properties sample_read
      (empty_unit None empty_binding) empty_result = (None, u, r) \<and>
    fst (CheckPlan (\<lambda>_. []) sample_inventory 1 plan_layers ENGINE sample_properties sample_read u empty_result) = None"
proof -
  obtain u r where h: "CheckPlan (\<lambda>_. []) sample_inventory 1 plan_layers PRIVATE sample_properties sample_read
     (empty_unit None empty_binding) empty_result = (None, u, r)"
    by (rule sample_private_returns)
  show ?thesis using h validated_plan_runs [OF h no_violations] by blast
qed

end
