(* ===== verification/Policy_Options.thy ===== *)
theory Policy_Options
  imports Function_Policy Json_Model "HOL-Library.Multiset"
begin

text \<open>
  Policy options (\<open>src/src/options.cpp\<close>): decoding of typed options and of JSON policy
  documents into a policy, and the canonical value a policy is stored as. DuckDB values are a
  datatype that carries the logical type of every value; a decoding error is
  \<open>Inl (InvalidArgument message)\<close>. The policy an option list is applied to is a local copy
  at every call, so a failed application is the error alone. Reading JSON text is the engine
  library's and is the parameter \<open>read_json\<close>.
\<close>

section \<open>DuckDB values\<close>

datatype LogicalType =
    T_BOOLEAN
  | T_BIGINT
  | T_VARCHAR
  | T_SQLNULL
  | T_LIST LogicalType
  | T_STRUCT "(string \<times> LogicalType) list"
  | T_OTHER string

datatype LogicalTypeId = ID_BOOLEAN | ID_BIGINT | ID_VARCHAR | ID_SQLNULL | ID_LIST | ID_STRUCT | ID_OTHER string

fun type_id :: "LogicalType \<Rightarrow> LogicalTypeId" where
  "type_id T_BOOLEAN = ID_BOOLEAN"
| "type_id T_BIGINT = ID_BIGINT"
| "type_id T_VARCHAR = ID_VARCHAR"
| "type_id T_SQLNULL = ID_SQLNULL"
| "type_id (T_LIST _) = ID_LIST"
| "type_id (T_STRUCT _) = ID_STRUCT"
| "type_id (T_OTHER n) = ID_OTHER n"

datatype Value =
    VNull LogicalType
  | VBool bool
  | VBigint int
  | VVarchar string
  | VList LogicalType "Value list"
  | VStruct "(string \<times> LogicalType) list" "Value list"
  | VOther string

fun type_of :: "Value \<Rightarrow> LogicalType" where
  "type_of (VNull t) = t"
| "type_of (VBool _) = T_BOOLEAN"
| "type_of (VBigint _) = T_BIGINT"
| "type_of (VVarchar _) = T_VARCHAR"
| "type_of (VList t _) = T_LIST t"
| "type_of (VStruct fs _) = T_STRUCT fs"
| "type_of (VOther n) = T_OTHER n"

definition IsNull :: "Value \<Rightarrow> bool" where
  "IsNull v = (case v of VNull _ \<Rightarrow> True | _ \<Rightarrow> False)"

definition ListType_GetChildType :: "LogicalType \<Rightarrow> LogicalType" where
  "ListType_GetChildType t = (case t of T_LIST c \<Rightarrow> c | _ \<Rightarrow> T_SQLNULL)"

definition ListValue_GetChildren :: "Value \<Rightarrow> Value list" where
  "ListValue_GetChildren v = (case v of VList _ vs \<Rightarrow> vs | _ \<Rightarrow> [])"

definition StructType_GetChildTypes :: "LogicalType \<Rightarrow> (string \<times> LogicalType) list" where
  "StructType_GetChildTypes t = (case t of T_STRUCT fs \<Rightarrow> fs | _ \<Rightarrow> [])"

definition StructValue_GetChildren :: "Value \<Rightarrow> Value list" where
  "StructValue_GetChildren v = (case v of VStruct _ vs \<Rightarrow> vs | _ \<Rightarrow> [])"

definition GetString :: "Value \<Rightarrow> string" where
  "GetString v = (case v of VVarchar s \<Rightarrow> s | _ \<Rightarrow> [])"

definition GetBool :: "Value \<Rightarrow> bool" where
  "GetBool v = (case v of VBool b \<Rightarrow> b | _ \<Rightarrow> False)"

abbreviation invalid :: "string \<Rightarrow> exn + 'a" where
  "invalid m \<equiv> Inl (InvalidArgument m)"

section \<open>Option shapes\<close>

datatype OptionKind = DEFAULTS | ALLOWED_FUNCTIONS | BLOCKED_FUNCTIONS | ALLOWED_TABLES | BLOCKED_TABLES

record OptionSpec =
  o_name :: string
  o_kind :: OptionKind
  o_element :: LogicalTypeId

definition Options :: "OptionSpec list" where
  "Options =
     [\<lparr>o_name = ''use_default_functions'', o_kind = DEFAULTS, o_element = ID_BOOLEAN\<rparr>,
      \<lparr>o_name = ''allowed_functions'', o_kind = ALLOWED_FUNCTIONS, o_element = ID_STRUCT\<rparr>,
      \<lparr>o_name = ''blocked_functions'', o_kind = BLOCKED_FUNCTIONS, o_element = ID_STRUCT\<rparr>,
      \<lparr>o_name = ''allowed_tables'', o_kind = ALLOWED_TABLES, o_element = ID_STRUCT\<rparr>,
      \<lparr>o_name = ''blocked_tables'', o_kind = BLOCKED_TABLES, o_element = ID_STRUCT\<rparr>]"

definition FindOption :: "string \<Rightarrow> exn + OptionSpec" where
  "FindOption name = (case find (\<lambda>option. o_name option = name) Options of
     Some option \<Rightarrow> Inr option | None \<Rightarrow> invalid (''unknown option: '' @ name))"

definition OptionNames :: "string list" where
  "OptionNames = map o_name Options"

definition FunctionOption :: "string \<Rightarrow> bool" where
  "FunctionOption name \<longleftrightarrow> name = ''allowed_functions'' \<or> name = ''blocked_functions''"

definition MigrationError :: "string \<Rightarrow> string" where
  "MigrationError name = name @ '': legacy rule shape is unsupported; migrate to policy v2 '' @
     (if FunctionOption name then ''{catalog?, schema_path, name, type?}''
      else ''{catalog?, schema_path, table}'') @
     '' rules; schema_path is a nonempty list of schema components''"

definition rule_word :: "string \<Rightarrow> string" where
  "rule_word name = (if FunctionOption name then ''function'' else ''table'')"

definition leaf_word :: "string \<Rightarrow> string" where
  "leaf_word name = (if FunctionOption name then ''name'' else ''table'')"

fun check_rule_keys :: "string \<Rightarrow> string list \<Rightarrow> Names \<Rightarrow> exn + Names" where
  "check_rule_keys name [] fds = Inr fds"
| "check_rule_keys name (key # keys) fds =
     (if key \<in> set fds \<or>
         (key \<noteq> ''catalog'' \<and> key \<noteq> ''schema_path'' \<and> key \<noteq> leaf_word name \<and>
          \<not> (FunctionOption name \<and> key = ''type''))
      then invalid (name @ '': unknown '' @ rule_word name @ '' rule field: '' @ key)
      else check_rule_keys name keys (ins key fds))"

definition CheckRuleFields :: "string \<Rightarrow> string list \<Rightarrow> exn + unit" where
  "CheckRuleFields name keys =
     (if ''schema'' \<in> set keys then invalid (MigrationError name)
      else bindE (check_rule_keys name keys []) (\<lambda>fds.
        if ''schema_path'' \<notin> set fds \<or> leaf_word name \<notin> set fds
        then invalid (name @ '': '' @ rule_word name @ '' rules require schema_path and '' @ leaf_word name)
        else Inr ()))"

definition CheckOptionShape :: "string \<Rightarrow> Value \<Rightarrow> exn + unit" where
  "CheckOptionShape name value =
     bindE (FindOption name) (\<lambda>spec.
       if IsNull value then Inr ()
       else if o_element spec = ID_BOOLEAN then
         (if type_of value \<noteq> T_BOOLEAN then invalid (name @ '' requires BOOLEAN'') else Inr ())
       else
         (let message = name @ '' requires STRUCT[]''
          in if type_id (type_of value) \<noteq> ID_LIST then invalid message
             else if FunctionOption name \<and>
                type_id (ListType_GetChildType (type_of value)) = ID_VARCHAR
             then invalid (MigrationError name)
             else if type_id (ListType_GetChildType (type_of value)) \<noteq> o_element spec \<and>
                list_ex (\<lambda>entry. \<not> IsNull entry) (ListValue_GetChildren value)
             then invalid message
             else Inr ()))"

definition schema_component :: "Value \<Rightarrow> exn + string" where
  "schema_component part =
     (if IsNull part \<or> type_id (type_of part) \<noteq> ID_VARCHAR
      then invalid ''schema_path requires non-NULL string components''
      else
        (let text = GetString part
         in if text = [] \<or> CHR 0x00 \<in> set text
            then invalid ''schema_path components must be nonempty and NUL-free''
            else Inr (Lower text)))"

definition SchemaPath :: "Value \<Rightarrow> exn + NamePath" where
  "SchemaPath value =
     (if IsNull value \<or> type_id (type_of value) \<noteq> ID_LIST
      then invalid ''schema_path requires a nonempty VARCHAR[]''
      else bindE (mapE schema_component (ListValue_GetChildren value)) (\<lambda>path.
        if path = [] then invalid ''schema_path must be nonempty'' else Inr path))"

definition PathValue :: "NamePath \<Rightarrow> Value" where
  "PathValue path = VList T_VARCHAR (map VVarchar path)"

definition CheckArguments :: "(string \<times> Value) list \<Rightarrow> exn + unit" where
  "CheckArguments arguments =
     foldE (\<lambda>(name, value) _.
       if name = ''json'' then
         (if length arguments \<noteq> 1
          then invalid ''json and typed Gatekeeper options are mutually exclusive''
          else if \<not> IsNull value \<and> type_id (type_of value) \<noteq> ID_VARCHAR
          then invalid ''json requires VARCHAR''
          else Inr ())
       else CheckOptionShape name value) arguments ()"

section \<open>JSON documents\<close>

definition JsonString :: "json_ptr \<Rightarrow> string \<Rightarrow> exn + string" where
  "JsonString value path = (case value of Some (JStr s) \<Rightarrow> Inr s
     | _ \<Rightarrow> invalid (path @ '': expected JSON string''))"

fun json_members :: "string \<Rightarrow> (string \<times> json) list \<Rightarrow> Names \<Rightarrow> exn + (string \<times> json) list" where
  "json_members path [] seen = Inr []"
| "json_members path ((name, value) # ms) seen =
     (if name \<in> set seen then invalid (path @ '': duplicate JSON field: '' @ name)
      else bindE (json_members path ms (ins name seen)) (\<lambda>fds. Inr ((name, value) # fds)))"

definition JsonObject :: "json_ptr \<Rightarrow> string \<Rightarrow> exn + (string \<times> json) list" where
  "JsonObject object path =
     (if \<not> is_obj object then invalid (path @ '': expected JSON object'')
      else json_members path (obj_members object) [])"

definition rule_type :: "string \<Rightarrow> (string \<times> LogicalType) list" where
  "rule_type name =
     (if FunctionOption name
      then [(''catalog'', T_VARCHAR), (''schema_path'', T_LIST T_VARCHAR), (''name'', T_VARCHAR),
            (''type'', T_VARCHAR)]
      else [(''catalog'', T_VARCHAR), (''schema_path'', T_LIST T_VARCHAR),
            (leaf_word name, T_VARCHAR)])"

definition json_rule_field ::
    "string \<Rightarrow> string \<Rightarrow> string \<times> json \<Rightarrow> Value list \<Rightarrow> exn + Value list" where
  "json_rule_field name path field fds =
     (let (key, value) = field
      in if key = ''schema_path'' then
           (if \<not> is_arr (Some value) then invalid ''schema_path requires JSON array''
            else bindE (mapE (\<lambda>part. JsonString (Some part) (path @ ''.schema_path'')) (arr_items (Some value)))
              (\<lambda>parts. Inr (fds[1 := PathValue parts])))
         else
           (let index = (if key = ''catalog'' then 0 else if key = leaf_word name then 2 else 3)
            in if is_null (Some value) then Inr fds
               else bindE (JsonString (Some value) (path @ ''.'' @ key))
                 (\<lambda>text. Inr (fds[index := VVarchar text]))))"

definition empty_rule_fields :: "string \<Rightarrow> Value list" where
  "empty_rule_fields name =
     (replicate (if FunctionOption name then 4 else 3) (VNull T_VARCHAR))[1 := VNull (T_LIST T_VARCHAR)]"

definition json_list_type :: "string \<Rightarrow> LogicalTypeId \<Rightarrow> LogicalType" where
  "json_list_type name element =
     (if element = ID_VARCHAR \<and> \<not> FunctionOption name then T_VARCHAR else T_STRUCT (rule_type name))"

definition json_entry :: "string \<Rightarrow> LogicalTypeId \<Rightarrow> nat \<times> json \<Rightarrow> exn + Value" where
  "json_entry name element indexed =
     (let (i, entry) = indexed;
          path = ''options.'' @ name @ ''['' @ to_string i @ '']''
      in if is_null (Some entry) then Inr (VNull (json_list_type name element))
         else if element = ID_VARCHAR then bindE (JsonString (Some entry) path) (\<lambda>s. Inr (VVarchar s))
         else if FunctionOption name \<and> is_str (Some entry) then invalid (MigrationError name)
         else bindE (JsonObject (Some entry) path) (\<lambda>object.
           bindE (CheckRuleFields name (map fst object)) (\<lambda>_.
           bindE (foldE (json_rule_field name path) object (empty_rule_fields name)) (\<lambda>fds.
             Inr (VStruct (rule_type name) fds)))))"

definition JsonOption :: "string \<Rightarrow> json \<Rightarrow> exn + Value" where
  "JsonOption name value =
     bindE (FindOption name) (\<lambda>spec.
       if is_null (Some value) then Inr (VNull T_SQLNULL)
       else if o_element spec = ID_BOOLEAN then
         (case value of JBool b \<Rightarrow> Inr (VBool b) | _ \<Rightarrow> invalid (name @ '' requires JSON boolean''))
       else if \<not> is_arr (Some value) then invalid (name @ '' requires JSON array'')
       else bindE (mapE (json_entry name (o_element spec)) (enumerate 0 (arr_items (Some value))))
         (\<lambda>entries. Inr (VList (json_list_type name (o_element spec)) entries)))"

abbreviation policy_schema_url :: string where
  "policy_schema_url \<equiv>
     ''https://raw.githubusercontent.com/nozzle/duckdb-gatekeeper/main/docs/policy-v2.schema.json''"

definition is_version_2 :: "json \<Rightarrow> bool" where
  "is_version_2 v = (case v of JUint w \<Rightarrow> w = 2 | JSint w \<Rightarrow> w = 2 | JReal r \<Rightarrow> r = 2 | _ \<Rightarrow> False)"

definition json_policy_field ::
    "string \<times> json \<Rightarrow> bool \<times> json option \<Rightarrow> exn + bool \<times> json option" where
  "json_policy_field field state =
     (let (key, value) = field; (version, options) = state
      in if key = ''version'' then
           (if \<not> is_version_2 value then invalid ''policy JSON version must be 2''
            else Inr (True, options))
         else if key = ''options'' then Inr (version, Some value)
         else if key = ''$schema'' then
           bindE (JsonString (Some value) ''$schema'') (\<lambda>url.
             if url \<noteq> policy_schema_url then invalid ''unknown policy JSON $schema''
             else Inr (version, options))
         else invalid (''unknown policy JSON field: '' @ key))"

text \<open>\<open>read_json text\<close> is the document, or the position and message of a syntax error.\<close>

definition JsonOptions ::
    "(string \<Rightarrow> (nat \<times> string) + json) \<Rightarrow> Value \<Rightarrow> exn + (string \<times> Value) list" where
  "JsonOptions read_json input =
     (if IsNull input then invalid ''NULL json argument''
      else case read_json (GetString input) of
        Inl (pos, msg) \<Rightarrow> invalid (''invalid policy JSON at byte '' @ to_string pos @ '': '' @ msg)
      | Inr doc \<Rightarrow>
          bindE (JsonObject (Some doc) ''policy'') (\<lambda>fds.
          bindE (foldE json_policy_field fds (False, None)) (\<lambda>(version, options).
            case options of
              None \<Rightarrow> invalid ''policy JSON requires version and options''
            | Some opts \<Rightarrow>
                if \<not> version then invalid ''policy JSON requires version and options''
                else bindE (JsonObject (Some opts) ''options'')
                  (mapE (\<lambda>(name, value). bindE (JsonOption name value) (\<lambda>v. Inr (name, v)))))))"

section \<open>Applying options\<close>

definition decode_field ::
    "string \<Rightarrow> (string \<times> LogicalType) \<times> Value \<Rightarrow> Table \<times> string \<Rightarrow> exn + Table \<times> string" where
  "decode_field name field state =
     (let ((key, _), value) = field; (table, function_type) = state; functions = FunctionOption name
      in if key = ''schema_path'' then
           bindE (SchemaPath value) (\<lambda>path. Inr (table\<lparr>t_schema_path := path\<rparr>, function_type))
         else if IsNull value \<and> (key = ''catalog'' \<or> (functions \<and> key = ''type''))
         then Inr (table, function_type)
         else if IsNull value \<or> type_id (type_of value) \<noteq> ID_VARCHAR
         then invalid (''expected '' @ rule_word name @ '' identifier string'')
         else if GetString value = [] \<or> CHR 0x00 \<in> set (GetString value)
         then invalid (rule_word name @ '' identifiers must be nonempty and NUL-free'')
         else
           (let text = Lower (GetString value);
                table1 = (if key = ''catalog'' then table\<lparr>t_catalog := text\<rparr> else table);
                table2 = (if key = leaf_word name then table1\<lparr>t_table := text\<rparr> else table1)
            in if functions \<and> key = ''type'' then
                 (if \<not> SupportedFunctionKind text then invalid (''unsupported function type: '' @ text)
                  else Inr (table2, text))
               else Inr (table2, function_type)))"

definition decode_rule :: "string \<Rightarrow> Value \<Rightarrow> exn + Table \<times> string" where
  "decode_rule name entry =
     (if IsNull entry \<or> type_id (type_of entry) \<noteq> ID_STRUCT
      then invalid (''expected '' @ rule_word name @ '' rule struct'')
      else foldE (decode_field name)
        (zip (StructType_GetChildTypes (type_of entry)) (StructValue_GetChildren entry))
        (\<lparr>t_catalog = [], t_schema_path = [], t_table = []\<rparr>, []))"

definition grant_of :: "Table \<times> string \<Rightarrow> FunctionGrant" where
  "grant_of decoded = \<lparr>g_catalog = t_catalog (fst decoded), g_schema_path = t_schema_path (fst decoded),
     g_name = t_table (fst decoded), g_type = snd decoded\<rparr>"

definition set_rules :: "OptionKind \<Rightarrow> (Table \<times> string) list \<Rightarrow> Policy \<Rightarrow> Policy" where
  "set_rules kind decoded policy = (case kind of
     DEFAULTS \<Rightarrow> policy
   | ALLOWED_FUNCTIONS \<Rightarrow>
       policy\<lparr>allowed_functions := std_insert_all FunctionGrant_key (map grant_of decoded) []\<rparr>
   | BLOCKED_FUNCTIONS \<Rightarrow>
       policy\<lparr>blocked_functions := std_insert_all FunctionGrant_key (map grant_of decoded) []\<rparr>
   | ALLOWED_TABLES \<Rightarrow>
       policy\<lparr>tables := True, allowed_tables := std_insert_all Table_key (map fst decoded) []\<rparr>
   | BLOCKED_TABLES \<Rightarrow>
       policy\<lparr>blocked_tables := std_insert_all Table_key (map fst decoded) []\<rparr>)"

definition apply_option :: "string \<times> Value \<Rightarrow> Policy \<Rightarrow> exn + Policy" where
  "apply_option option policy =
     (let (name, value) = option
      in bindE (FindOption name) (\<lambda>spec.
         bindE (CheckOptionShape name value) (\<lambda>_.
           if IsNull value then invalid (''NULL option: '' @ name)
           else if o_kind spec = DEFAULTS then Inr (policy\<lparr>defaults := GetBool value\<rparr>)
           else if type_id (type_of value) \<noteq> ID_LIST
           then invalid (name @ '' requires a list of structs'')
           else
             (let entry_type = ListType_GetChildType (type_of value)
              in bindE (if type_id entry_type = ID_STRUCT
                        then CheckRuleFields name (map fst (StructType_GetChildTypes entry_type))
                        else Inr ()) (\<lambda>_.
                 bindE (mapE (decode_rule name) (ListValue_GetChildren value)) (\<lambda>decoded.
                   Inr (set_rules (o_kind spec) decoded policy)))))))"

fun apply_options_from :: "Names \<Rightarrow> (string \<times> Value) list \<Rightarrow> Policy \<Rightarrow> exn + Policy" where
  "apply_options_from seen [] policy = Inr policy"
| "apply_options_from seen (option # options) policy =
     (if fst option \<in> set seen then invalid (''duplicate option: '' @ fst option)
      else bindE (apply_option option policy) (apply_options_from (ins (fst option) seen) options))"

definition ApplyOptions :: "Policy \<Rightarrow> (string \<times> Value) list \<Rightarrow> exn + Policy" where
  "ApplyOptions policy options = apply_options_from [] options policy"

definition ApplyArguments ::
    "(string \<Rightarrow> (nat \<times> string) + json) \<Rightarrow> Policy \<Rightarrow> (string \<times> Value) list \<Rightarrow> exn + Policy" where
  "ApplyArguments read_json policy arguments =
     bindE (CheckArguments arguments) (\<lambda>_.
       if length arguments = 1 \<and> fst (hd arguments) = ''json''
       then bindE (JsonOptions read_json (snd (hd arguments))) (ApplyOptions policy)
       else ApplyOptions policy arguments)"

section \<open>The canonical policy value\<close>

definition grant_value :: "FunctionGrant \<Rightarrow> Value" where
  "grant_value g = VStruct (rule_type ''allowed_functions'')
     [VVarchar (g_catalog g), PathValue (g_schema_path g), VVarchar (g_name g), VVarchar (g_type g)]"

definition table_value :: "Table \<Rightarrow> Value" where
  "table_value t = VStruct (rule_type ''allowed_tables'')
     [VVarchar (t_catalog t), PathValue (t_schema_path t), VVarchar (t_table t)]"

definition policy_type :: "(string \<times> LogicalType) list" where
  "policy_type =
     [(''use_default_functions'', T_BOOLEAN),
      (''allowed_functions'', T_LIST (T_STRUCT (rule_type ''allowed_functions''))),
      (''blocked_functions'', T_LIST (T_STRUCT (rule_type ''blocked_functions''))),
      (''allowed_tables'', T_LIST (T_STRUCT (rule_type ''allowed_tables''))),
      (''blocked_tables'', T_LIST (T_STRUCT (rule_type ''blocked_tables''))),
      (''restrict_tables'', T_BOOLEAN)]"

definition PolicyValue :: "Policy \<Rightarrow> Value" where
  "PolicyValue policy = VStruct policy_type
     [VBool (defaults policy),
      VList (T_STRUCT (rule_type ''allowed_functions'')) (map grant_value (allowed_functions policy)),
      VList (T_STRUCT (rule_type ''blocked_functions'')) (map grant_value (blocked_functions policy)),
      VList (T_STRUCT (rule_type ''allowed_tables'')) (map table_value (allowed_tables policy)),
      VList (T_STRUCT (rule_type ''blocked_tables'')) (map table_value (blocked_tables policy)),
      VBool (tables policy)]"

definition canonical_field :: "string \<Rightarrow> (string \<times> LogicalType) \<times> Value \<Rightarrow> exn + Value" where
  "canonical_field name field =
     (let ((key, _), value) = field
      in if IsNull value then invalid (''NULL policy field: '' @ name @ ''.'' @ key)
         else if (key = ''catalog'' \<or> (FunctionOption name \<and> key = ''type'')) \<and> GetString value = []
         then Inr (VNull T_VARCHAR)
         else Inr value)"

definition canonical_entry :: "string \<Rightarrow> LogicalType \<Rightarrow> Value \<Rightarrow> exn + Value" where
  "canonical_entry name entry_type entry =
     (if IsNull entry then invalid (''NULL policy field: '' @ name @ '' entry'')
      else bindE (mapE (canonical_field name)
          (zip (StructType_GetChildTypes (type_of entry)) (StructValue_GetChildren entry)))
        (\<lambda>values. Inr (VStruct (StructType_GetChildTypes entry_type) values)))"

definition CanonicalIdentities :: "string \<Rightarrow> Value \<Rightarrow> exn + Value" where
  "CanonicalIdentities name value =
     (let entry_type = ListType_GetChildType (type_of value)
      in bindE (mapE (canonical_entry name entry_type) (ListValue_GetChildren value))
           (\<lambda>entries. Inr (VList entry_type entries)))"

definition read_policy_field ::
    "(string \<times> LogicalType) \<times> Value \<Rightarrow> (string \<times> Value) list \<times> bool \<Rightarrow> exn + (string \<times> Value) list \<times> bool" where
  "read_policy_field field state =
     (let ((name, _), value) = field; (options, tables) = state
      in if IsNull value then invalid (''NULL policy field: '' @ name)
         else if name = ''restrict_tables'' then Inr (options, GetBool value)
         else if name = ''allowed_tables'' \<or> name = ''blocked_tables'' \<or>
                 name = ''allowed_functions'' \<or> name = ''blocked_functions''
         then bindE (CanonicalIdentities name value) (\<lambda>v. Inr (options @ [(name, v)], tables))
         else Inr (options @ [(name, value)], tables))"

definition ReadPolicy :: "Value \<Rightarrow> exn + Policy" where
  "ReadPolicy value =
     (if IsNull value \<or> type_of value \<noteq> type_of (PolicyValue default_policy)
      then invalid ''gatekeeper_policy requires the complete canonical policy STRUCT''
      else bindE (foldE read_policy_field
          (zip (StructType_GetChildTypes (type_of value)) (StructValue_GetChildren value)) ([], False))
        (\<lambda>(options, restrict).
          bindE (ApplyOptions default_policy options) (\<lambda>policy.
            if \<not> restrict \<and> allowed_tables policy \<noteq> []
            then invalid ''nonempty allowed_tables requires restrict_tables = true''
            else Inr (policy\<lparr>tables := restrict\<rparr>))))"

section \<open>Well-typed values\<close>

text \<open>
  What DuckDB guarantees of every value it hands to the extension: the children of a list have
  the list's child type, and a struct has one child of the declared type per field.
\<close>

fun well_typed :: "Value \<Rightarrow> bool" where
  "well_typed (VList t vs) \<longleftrightarrow> list_all (\<lambda>v. type_of v = t) vs \<and> list_all well_typed vs"
| "well_typed (VStruct fs vs) \<longleftrightarrow> map type_of vs = map snd fs \<and> list_all well_typed vs"
| "well_typed _ \<longleftrightarrow> True"

section \<open>Decoding\<close>

lemma value_simps [simp]:
  "IsNull (VVarchar s) = False" "IsNull (VList t vs) = False" "IsNull (VStruct fs vs) = False"
  "IsNull (VNull t) = True" "IsNull (VBool b) = False"
  "GetString (VVarchar s) = s" "GetBool (VBool b) = b"
  "ListValue_GetChildren (VList t vs) = vs" "ListType_GetChildType (T_LIST t) = t"
  "StructType_GetChildTypes (T_STRUCT fs) = fs" "StructValue_GetChildren (VStruct fs vs) = vs"
  by (simp_all add: IsNull_def GetString_def GetBool_def ListValue_GetChildren_def
      ListType_GetChildType_def StructType_GetChildTypes_def StructValue_GetChildren_def)

lemma not_IsNull_type:
  "\<not> IsNull v \<Longrightarrow> type_id (type_of v) = ID_STRUCT \<Longrightarrow> \<exists>fs vs. v = VStruct fs vs"
  "\<not> IsNull v \<Longrightarrow> type_id (type_of v) = ID_LIST \<Longrightarrow> \<exists>t vs. v = VList t vs"
  "\<not> IsNull v \<Longrightarrow> type_id (type_of v) = ID_VARCHAR \<Longrightarrow> \<exists>s. v = VVarchar s"
  by (cases v; simp)+

lemma wf_identifier_Lower:
  "s \<noteq> [] \<Longrightarrow> CHR 0x00 \<notin> set s \<Longrightarrow> wf_identifier (Lower s)"
  by (simp add: wf_identifier_def)

lemma schema_component_Inr: "schema_component v = Inr s \<Longrightarrow> wf_identifier s"
  by (auto simp: schema_component_def Let_def wf_identifier_Lower split: if_splits)

lemma SchemaPath_wf: "SchemaPath v = Inr p \<Longrightarrow> wf_path p"
proof -
  assume "SchemaPath v = Inr p"
  then have p: "list_all2 (\<lambda>v s. schema_component v = Inr s) (ListValue_GetChildren v) p" "p \<noteq> []"
    by (auto simp: SchemaPath_def bindE_eq_Inr mapE_eq_Inr_iff split: if_splits)
  from p(1) have "list_all wf_identifier p"
    by (induction rule: list_all2_induct) (simp_all add: schema_component_Inr)
  with p(2) show ?thesis by (simp add: wf_path_def)
qed

lemma SchemaPath_PathValue:
  assumes "wf_path p" shows "SchemaPath (PathValue p) = Inr p"
proof -
  have "schema_component (VVarchar part) = Inr part" if "part \<in> set p" for part
    using wf_identifierD [OF wf_pathD(2) [OF assms that]] by (simp add: schema_component_def)
  then have "mapE schema_component (map VVarchar p) = Inr p"
    by (induction p) simp_all
  then show ?thesis using wf_pathD(1) [OF assms] by (simp add: SchemaPath_def PathValue_def)
qed

text \<open>What is known of a rule after the fields named \<open>keys\<close> have been decoded.\<close>

definition decoded_ok :: "string \<Rightarrow> string set \<Rightarrow> Table \<times> string \<Rightarrow> bool" where
  "decoded_ok name keys st \<longleftrightarrow>
     (t_catalog (fst st) = [] \<or> wf_identifier (t_catalog (fst st))) \<and>
     (snd st = [] \<or> SupportedFunctionKind (snd st)) \<and>
     (''schema_path'' \<in> keys \<longrightarrow> wf_path (t_schema_path (fst st))) \<and>
     (leaf_word name \<in> keys \<longrightarrow> wf_identifier (t_table (fst st)))"

lemma leaf_word_neq [simp]: "leaf_word name \<noteq> ''schema_path''" "leaf_word name \<noteq> ''catalog''"
  "leaf_word name \<noteq> ''type''" "''catalog'' \<noteq> leaf_word name" "''type'' \<noteq> leaf_word name"
  "''schema_path'' \<noteq> leaf_word name"
  by (simp_all add: leaf_word_def)

text \<open>The three ways a field is decoded.\<close>

lemma decode_field_path:
  "decode_field name ((''schema_path'', t), v) (table, ft) =
     bindE (SchemaPath v) (\<lambda>path. Inr (table\<lparr>t_schema_path := path\<rparr>, ft))"
  by (simp add: decode_field_def)

lemma decode_field_null:
  assumes "key \<noteq> ''schema_path''" and "IsNull v"
  shows "decode_field name ((key, t), v) st =
    (if key = ''catalog'' \<or> FunctionOption name \<and> key = ''type'' then Inr st
     else invalid (''expected '' @ rule_word name @ '' identifier string''))"
  using assms by (simp add: decode_field_def split_beta Let_def)

definition set_field :: "string \<Rightarrow> string \<Rightarrow> string \<Rightarrow> Table \<times> string \<Rightarrow> Table \<times> string" where
  "set_field name key text st =
     ((if key = leaf_word name then (fst st)\<lparr>t_table := text\<rparr>
       else if key = ''catalog'' then (fst st)\<lparr>t_catalog := text\<rparr> else fst st),
      if FunctionOption name \<and> key = ''type'' then text else snd st)"

lemma decode_field_text:
  assumes "key \<noteq> ''schema_path''"
  shows "decode_field name ((key, t), VVarchar s) st =
    (if s = [] \<or> CHR 0x00 \<in> set s
     then invalid (rule_word name @ '' identifiers must be nonempty and NUL-free'')
     else if FunctionOption name \<and> key = ''type'' \<and> \<not> SupportedFunctionKind (Lower s)
     then invalid (''unsupported function type: '' @ Lower s)
     else Inr (set_field name key (Lower s) st))"
  using assms leaf_word_neq [of name]
  by (cases "key = leaf_word name"; cases "key = ''catalog''"; cases "key = ''type''")
    (simp_all add: decode_field_def set_field_def Let_def split_beta)

lemma decode_field_other:
  assumes "key \<noteq> ''schema_path''" and "\<not> IsNull v" and "decode_field name ((key, t), v) st = Inr st'"
  obtains s where "v = VVarchar s"
proof -
  from assms have "type_id (type_of v) = ID_VARCHAR"
    by (simp add: decode_field_def split_beta split: if_split_asm)
  with assms(2) show ?thesis using not_IsNull_type(3) that by blast
qed

lemma set_field_ok:
  assumes "wf_identifier text" and "FunctionOption name \<and> key = ''type'' \<Longrightarrow> SupportedFunctionKind text"
    and "key \<noteq> ''schema_path''" and "decoded_ok name keys st"
  shows "decoded_ok name (insert key keys) (set_field name key text st)"
  using assms leaf_word_neq [of name] unfolding decoded_ok_def set_field_def by (simp split: if_split)

lemma decode_field_ok:
  assumes dec: "decode_field name ((key, t), v) st = Inr st'" and ok: "decoded_ok name keys st"
  shows "decoded_ok name (insert key keys) st'"
proof -
  obtain table ft where st: "st = (table, ft)" by (cases st)
  consider "key = ''schema_path''" | "key \<noteq> ''schema_path''" "IsNull v"
    | "key \<noteq> ''schema_path''" "\<not> IsNull v" by blast
  then show ?thesis
  proof cases
    case 1
    with dec obtain p where "SchemaPath v = Inr p" "st' = (table\<lparr>t_schema_path := p\<rparr>, ft)"
      by (auto simp: decode_field_path st bindE_eq_Inr)
    with 1 ok SchemaPath_wf [of v p] show ?thesis by (simp add: decoded_ok_def st)
  next
    case 2
    then have "st' = st" "key = ''catalog'' \<or> key = ''type''"
      using dec by (auto simp: decode_field_null split: if_split_asm)
    with 2 ok leaf_word_neq [of name] show ?thesis unfolding decoded_ok_def by (metis insertE)
  next
    case 3
    obtain s where v: "v = VVarchar s" by (rule decode_field_other [OF 3 dec])
    with dec have "s \<noteq> []" "CHR 0x00 \<notin> set s" "st' = set_field name key (Lower s) st"
      "FunctionOption name \<and> key = ''type'' \<Longrightarrow> SupportedFunctionKind (Lower s)"
      using decode_field_text [OF 3(1)] by (simp_all split: if_split_asm)
    with set_field_ok [OF wf_identifier_Lower _ 3(1) ok] show ?thesis by blast
  qed
qed

lemma decode_fields_ok:
  assumes "foldE (decode_field name) fvs st = Inr st'" and "decoded_ok name keys st"
  shows "decoded_ok name (fst ` fst ` set fvs \<union> keys) st'"
  using assms
proof (induction fvs arbitrary: st keys)
  case (Cons fv fvs)
  obtain key t v where fv: "fv = ((key, t), v)" by (metis prod.exhaust)
  from Cons.prems(1) obtain st1 where s: "decode_field name fv st = Inr st1"
      "foldE (decode_field name) fvs st1 = Inr st'"
    by (auto simp: bindE_eq_Inr)
  from Cons.IH [OF s(2) decode_field_ok [OF s(1) [unfolded fv] Cons.prems(2)]]
  show ?case by (simp add: fv)
qed simp

lemma check_rule_keys_Inr: "check_rule_keys name keys fs = Inr fs' \<Longrightarrow> set fs' = set keys \<union> set fs"
  by (induction name keys fs arbitrary: fs' rule: check_rule_keys.induct) (auto split: if_splits)

lemma CheckRuleFields_keys:
  assumes "CheckRuleFields name keys = Inr u"
  shows "''schema_path'' \<in> set keys" and "leaf_word name \<in> set keys"
  using assms check_rule_keys_Inr
  by (fastforce simp: CheckRuleFields_def bindE_eq_Inr split: if_splits)+

lemma decode_rule_ok:
  assumes dec: "decode_rule name entry = Inr st" and typed: "well_typed entry" "type_of entry = T_STRUCT fs"
    and checked: "CheckRuleFields name (map fst fs) = Inr u"
  shows "wf_table (fst st)" and "wf_grant (grant_of st)"
proof -
  from dec typed obtain vs where entry: "entry = VStruct fs vs"
    using not_IsNull_type(1) [of entry] by (auto simp: decode_rule_def split: if_splits)
  have "length vs = length fs" using typed(1) by (auto simp: entry dest: map_eq_imp_length_eq)
  then have keys: "fst ` fst ` set (zip fs vs) = set (map fst fs)"
    by (metis image_set list.set_map map_fst_zip)
  have fold: "foldE (decode_field name) (zip fs vs)
      (\<lparr>t_catalog = [], t_schema_path = [], t_table = []\<rparr>, []) = Inr st"
    using dec by (simp add: decode_rule_def entry)
  have "decoded_ok name {} (\<lparr>t_catalog = [], t_schema_path = [], t_table = []\<rparr>, [])"
    by (simp add: decoded_ok_def)
  from decode_fields_ok [OF fold this] have ok: "decoded_ok name (set (map fst fs)) st"
    by (simp only: keys Un_empty_right)
  then show "wf_table (fst st)" "wf_grant (grant_of st)"
    using CheckRuleFields_keys [OF checked]
    by (simp_all add: decoded_ok_def wf_table_def wf_grant_def grant_of_def)
qed

section \<open>Options as independent updates\<close>

text \<open>
  The update an option makes does not depend on the policy it is applied to: one field each,
  and no two options share a field.
\<close>

definition option_effect :: "string \<times> Value \<Rightarrow> exn + (Policy \<Rightarrow> Policy)" where
  "option_effect option =
     (let (name, value) = option
      in bindE (FindOption name) (\<lambda>spec.
         bindE (CheckOptionShape name value) (\<lambda>_.
           if IsNull value then invalid (''NULL option: '' @ name)
           else if o_kind spec = DEFAULTS then Inr (\<lambda>p. p\<lparr>defaults := GetBool value\<rparr>)
           else if type_id (type_of value) \<noteq> ID_LIST
           then invalid (name @ '' requires a list of structs'')
           else
             (let entry_type = ListType_GetChildType (type_of value)
              in bindE (if type_id entry_type = ID_STRUCT
                        then CheckRuleFields name (map fst (StructType_GetChildTypes entry_type))
                        else Inr ()) (\<lambda>_.
                 bindE (mapE (decode_rule name) (ListValue_GetChildren value)) (\<lambda>decoded.
                   Inr (set_rules (o_kind spec) decoded)))))))"

lemma bindE_assoc: "bindE (bindE m f) g = bindE m (\<lambda>x. bindE (f x) g)"
  by (cases m) simp_all

lemma apply_option_effect: "apply_option option p = bindE (option_effect option) (\<lambda>f. Inr (f p))"
  unfolding apply_option_def option_effect_def
  by (simp add: split_beta Let_def bindE_assoc if_distrib [of "\<lambda>m. bindE m _"] cong: if_cong)

text \<open>The shape of every effect: the kind is the one the option's name determines.\<close>

definition effect_of :: "OptionKind \<Rightarrow> (Policy \<Rightarrow> Policy) \<Rightarrow> bool" where
  "effect_of kind f \<longleftrightarrow> (if kind = DEFAULTS then \<exists>b. f = (\<lambda>p. p\<lparr>defaults := b\<rparr>)
     else \<exists>decoded. f = set_rules kind decoded)"

lemma option_effect_shape:
  assumes "option_effect (name, v) = Inr f"
  obtains spec where "FindOption name = Inr spec" and "effect_of (o_kind spec) f"
proof -
  from assms obtain spec where spec: "FindOption name = Inr spec"
    by (auto simp: option_effect_def bindE_eq_Inr)
  have "effect_of (o_kind spec) f"
  proof (cases "o_kind spec = DEFAULTS")
    case True
    with assms spec show ?thesis
      by (auto simp: option_effect_def bindE_eq_Inr effect_of_def split: if_split_asm)
  next
    case False
    with assms spec show ?thesis
      by (auto simp: option_effect_def bindE_eq_Inr effect_of_def Let_def split: if_split_asm)
  qed
  with spec that show ?thesis by blast
qed

lemma FindOption_Inr: "FindOption n = Inr spec \<Longrightarrow> spec \<in> set Options \<and> o_name spec = n"
  by (auto simp: FindOption_def find_Some_iff split: option.splits)

lemma FindOption_kind_inj:
  assumes "FindOption m = Inr sm" and "FindOption n = Inr sn" and "o_kind sm = o_kind sn"
  shows "m = n"
proof -
  have "sm \<in> set Options" "o_name sm = m" using FindOption_Inr [OF assms(1)] by simp_all
  moreover have "sn \<in> set Options" "o_name sn = n" using FindOption_Inr [OF assms(2)] by simp_all
  ultimately show ?thesis using assms(3) unfolding Options_def by auto
qed

lemma effects_commute:
  assumes "effect_of j f" and "effect_of k g" and "j \<noteq> k"
  shows "f (g p) = g (f p)"
  using assms by (cases j; cases k) (auto simp: effect_of_def set_rules_def)

lemma option_effects_commute:
  assumes "option_effect (m, v) = Inr f" and "option_effect (n, w) = Inr g" and "m \<noteq> n"
  shows "f \<circ> g = g \<circ> f"
proof -
  obtain sm where sm: "FindOption m = Inr sm" "effect_of (o_kind sm) f"
    by (rule option_effect_shape [OF assms(1)])
  obtain sn where sn: "FindOption n = Inr sn" "effect_of (o_kind sn) g"
    by (rule option_effect_shape [OF assms(2)])
  have "o_kind sm \<noteq> o_kind sn" using FindOption_kind_inj [OF sm(1) sn(1)] assms(3) by blast
  then show ?thesis using effects_commute [OF sm(2) sn(2)] by auto
qed

definition the_effect :: "string \<times> Value \<Rightarrow> Policy \<Rightarrow> Policy" where
  "the_effect option = (case option_effect option of Inr f \<Rightarrow> f | Inl _ \<Rightarrow> id)"

lemma apply_options_from_iff:
  "apply_options_from seen opts p = Inr q \<longleftrightarrow>
     distinct (map fst opts) \<and> set (map fst opts) \<inter> set seen = {} \<and>
     (\<forall>opt\<in>set opts. \<exists>f. option_effect opt = Inr f) \<and> q = fold the_effect opts p"
proof (induction opts arbitrary: seen p)
  case (Cons opt opts)
  show ?case
  proof (cases "option_effect opt")
    case (Inl e)
    then show ?thesis by (simp add: apply_option_effect)
  next
    case (Inr f)
    then have "apply_option opt p = Inr (the_effect opt p)"
      by (simp add: apply_option_effect the_effect_def)
    with Inr show ?thesis by (auto simp: Cons.IH)
  qed
qed auto

lemma ApplyOptions_iff:
  "ApplyOptions p opts = Inr q \<longleftrightarrow> distinct (map fst opts) \<and>
     (\<forall>opt\<in>set opts. \<exists>f. option_effect opt = Inr f) \<and> q = fold the_effect opts p"
  by (simp add: ApplyOptions_def apply_options_from_iff)

lemma fold_effects_permute:
  assumes ok: "\<forall>opt\<in>set opts. \<exists>f. option_effect opt = Inr f" and dist: "distinct (map fst opts)"
    and perm: "mset opts = mset opts'"
  shows "fold the_effect opts = fold the_effect opts'"
proof (rule fold_multiset_equiv [OF _ perm])
  fix x y assume xy: "x \<in> set opts" "y \<in> set opts"
  from ok xy obtain f g where fg: "option_effect x = Inr f" "option_effect y = Inr g" by blast
  show "the_effect x \<circ> the_effect y = the_effect y \<circ> the_effect x"
  proof (cases "fst x = fst y")
    case True
    with dist xy have "x = y" by (auto simp: distinct_map dest: inj_onD)
    then show ?thesis by simp
  next
    case False
    with fg show ?thesis
      using option_effects_commute [of "fst x" "snd x" f "fst y" "snd y" g] by (simp add: the_effect_def)
  qed
qed

section \<open>Well-formedness of decoded policies\<close>

lemma set_rules_wf:
  assumes "wf_policy p" and "list_all (\<lambda>d. wf_table (fst d) \<and> wf_grant (grant_of d)) decoded"
  shows "wf_policy (set_rules kind decoded p)"
proof -
  have g: "list_all wf_grant (std_insert_all FunctionGrant_key (map grant_of decoded) [])"
    and t: "list_all wf_table (std_insert_all Table_key (map fst decoded) [])"
    using assms(2) by (auto simp: list_all_iff)
  show ?thesis using assms(1) g t
    by (cases kind) (auto simp: set_rules_def wf_policy_def)
qed

lemma decoded_entries_wf:
  assumes "mapE (decode_rule name) vs = Inr decoded" and "list_all well_typed vs"
    and "list_all (\<lambda>v. type_of v = T_STRUCT fs) vs" and "CheckRuleFields name (map fst fs) = Inr u"
  shows "list_all (\<lambda>d. wf_table (fst d) \<and> wf_grant (grant_of d)) decoded"
  using assms(1)[unfolded mapE_eq_Inr_iff] assms(2,3)
  by (induction rule: list_all2_induct) (auto dest: decode_rule_ok [OF _ _ _ assms(4)])

lemma decode_rule_null: "IsNull v \<Longrightarrow> \<exists>e. decode_rule name v = Inl e"
  by (simp add: decode_rule_def)

lemma option_effect_wf:
  assumes eff: "option_effect (name, v) = Inr f" and typed: "well_typed v" and wf: "wf_policy p"
  shows "wf_policy (f p)"
proof -
  from eff obtain spec where spec: "FindOption name = Inr spec" "CheckOptionShape name v = Inr ()"
      "\<not> IsNull v"
    by (auto simp: option_effect_def bindE_eq_Inr split: if_split_asm)
  show ?thesis
  proof (cases "o_kind spec = DEFAULTS")
    case True
    with eff spec wf show ?thesis
      by (auto simp: option_effect_def wf_policy_def)
  next
    case False
    with eff spec have lst: "type_id (type_of v) = ID_LIST"
      by (simp add: option_effect_def split: if_split_asm)
    then obtain t vs where v: "v = VList t vs" using not_IsNull_type(2) spec(3) by blast
    from eff spec False obtain decoded where dec: "mapE (decode_rule name) vs = Inr decoded"
        "f = set_rules (o_kind spec) decoded"
        "type_id t = ID_STRUCT \<Longrightarrow> CheckRuleFields name (map fst (StructType_GetChildTypes t)) = Inr ()"
      by (auto simp: option_effect_def v bindE_eq_Inr Let_def split: if_split_asm)
    have entries: "list_all (\<lambda>d. wf_table (fst d) \<and> wf_grant (grant_of d)) decoded"
    proof (cases "\<exists>fs. t = T_STRUCT fs")
      case True
      then obtain fs where t: "t = T_STRUCT fs" ..
      show ?thesis using decoded_entries_wf [OF dec(1), of fs "()"] typed dec(3) by (simp add: v t)
    next
      case False
      then have nostruct: "type_id t \<noteq> ID_STRUCT" by (cases t) auto
      have "vs = []"
      proof (cases vs)
        case (Cons w ws)
        with typed have "type_of w = t" by (simp add: v)
        with nostruct have "\<exists>e. decode_rule name w = Inl e" by (simp add: decode_rule_def)
        with dec(1) Cons show ?thesis by auto
      qed
      with dec(1) show ?thesis by simp
    qed
    show ?thesis unfolding dec(2) by (rule set_rules_wf [OF wf entries])
  qed
qed

lemma ApplyOptions_wf_policy:
  assumes "ApplyOptions p opts = Inr q" and "\<forall>opt\<in>set opts. well_typed (snd opt)" and "wf_policy p"
  shows "wf_policy q"
proof -
  from assms(1) have q: "q = fold the_effect opts p" and ok: "\<forall>opt\<in>set opts. \<exists>f. option_effect opt = Inr f"
    by (simp_all add: ApplyOptions_iff)
  have "wf_policy (fold the_effect opts p)" using ok assms(2,3)
  proof (induction opts arbitrary: p)
    case (Cons opt opts)
    then obtain f where "option_effect opt = Inr f" by auto
    then have "wf_policy (the_effect opt p)"
      using option_effect_wf [of "fst opt" "snd opt" f p] Cons.prems by (simp add: the_effect_def)
    with Cons show ?case by simp
  qed simp
  then show ?thesis by (simp add: q)
qed

lemma default_policy_wf: "wf_policy default_policy"
  by (simp add: wf_policy_def default_policy_def)

section \<open>Reading the canonical value\<close>

definition opt_text :: "string \<Rightarrow> Value" where
  "opt_text s = (if s = [] then VNull T_VARCHAR else VVarchar s)"

definition request_table :: "Table \<Rightarrow> Value" where
  "request_table t = VStruct (rule_type ''allowed_tables'')
     [opt_text (t_catalog t), PathValue (t_schema_path t), VVarchar (t_table t)]"

definition request_grant :: "FunctionGrant \<Rightarrow> Value" where
  "request_grant g = VStruct (rule_type ''allowed_functions'')
     [opt_text (g_catalog g), PathValue (g_schema_path g), VVarchar (g_name g), opt_text (g_type g)]"

lemma FunctionOption_simps [simp]:
  "FunctionOption ''allowed_functions''" "FunctionOption ''blocked_functions''"
  "\<not> FunctionOption ''allowed_tables''" "\<not> FunctionOption ''blocked_tables''"
  by (simp_all add: FunctionOption_def)

lemma rule_type_tables:
  "\<not> FunctionOption name \<Longrightarrow> rule_type name =
     [(''catalog'', T_VARCHAR), (''schema_path'', T_LIST T_VARCHAR), (''table'', T_VARCHAR)]"
  "FunctionOption name \<Longrightarrow> rule_type name =
     [(''catalog'', T_VARCHAR), (''schema_path'', T_LIST T_VARCHAR), (''name'', T_VARCHAR), (''type'', T_VARCHAR)]"
  by (simp_all add: rule_type_def leaf_word_def)

lemma PathValue_simps [simp]: "IsNull (PathValue p) = False" "type_of (PathValue p) = T_LIST T_VARCHAR"
  by (simp_all add: PathValue_def)

lemma canonical_table:
  assumes "\<not> FunctionOption name"
  shows "CanonicalIdentities name (VList (T_STRUCT (rule_type name)) (map table_value ts)) =
    Inr (VList (T_STRUCT (rule_type name)) (map request_table ts))"
proof -
  have "canonical_entry name (T_STRUCT (rule_type name)) (table_value t) = Inr (request_table t)" for t
    using assms
    by (simp add: canonical_entry_def table_value_def request_table_def rule_type_tables canonical_field_def
        opt_text_def)
  then have "mapE (canonical_entry name (T_STRUCT (rule_type name))) (map table_value ts) =
      Inr (map request_table ts)"
    by (induction ts) simp_all
  then show ?thesis by (simp add: CanonicalIdentities_def)
qed

lemma canonical_grant:
  assumes "FunctionOption name"
  shows "CanonicalIdentities name (VList (T_STRUCT (rule_type name)) (map grant_value gs)) =
    Inr (VList (T_STRUCT (rule_type name)) (map request_grant gs))"
proof -
  have "canonical_entry name (T_STRUCT (rule_type name)) (grant_value g) = Inr (request_grant g)" for g
    using assms
    by (simp add: canonical_entry_def grant_value_def request_grant_def rule_type_tables canonical_field_def
        opt_text_def)
  then have "mapE (canonical_entry name (T_STRUCT (rule_type name))) (map grant_value gs) =
      Inr (map request_grant gs)"
    by (induction gs) simp_all
  then show ?thesis by (simp add: CanonicalIdentities_def)
qed

lemma decode_field_identifier:
  assumes "wf_identifier s" and "key \<noteq> ''schema_path''"
    and "FunctionOption name \<longrightarrow> key = ''type'' \<longrightarrow> SupportedFunctionKind s"
  shows "decode_field name ((key, t), VVarchar s) st = Inr (set_field name key s st)"
  using assms wf_identifierD [OF assms(1)] by (auto simp: decode_field_text)

lemma function_kinds_wf: "SupportedFunctionKind s \<Longrightarrow> wf_identifier s"
proof -
  have "list_all wf_identifier function_kinds" by code_simp
  then show "SupportedFunctionKind s \<Longrightarrow> ?thesis" by (simp add: SupportedFunctionKind_def list_all_iff)
qed

text \<open>An absent catalog or type leaves the default, which is the empty string it stands for.\<close>

lemma decode_field_catalog:
  assumes "s = [] \<or> wf_identifier s" and "t_catalog table = []"
  shows "decode_field name ((''catalog'', t), opt_text s) (table, ft) = Inr (table\<lparr>t_catalog := s\<rparr>, ft)"
proof (cases "s = []")
  case True
  with assms(2) show ?thesis by (cases table) (simp add: opt_text_def decode_field_null)
next
  case False
  with assms(1) show ?thesis
    by (simp add: opt_text_def decode_field_identifier set_field_def)
qed

lemma decode_field_type:
  assumes "s = [] \<or> SupportedFunctionKind s" and "FunctionOption name"
  shows "decode_field name ((''type'', t), opt_text s) (table, []) = Inr (table, s)"
proof (cases "s = []")
  case True
  with assms(2) show ?thesis by (simp add: opt_text_def decode_field_null)
next
  case False
  with assms show ?thesis
    by (simp add: opt_text_def decode_field_identifier set_field_def function_kinds_wf)
qed

lemma decode_request_table:
  assumes "\<not> FunctionOption name" and "wf_table t"
  shows "decode_rule name (request_table t) = Inr (t, [])"
proof -
  have w: "t_catalog t = [] \<or> wf_identifier (t_catalog t)" "wf_path (t_schema_path t)" "wf_identifier (t_table t)"
    using assms(2) by (simp_all add: wf_table_def)
  show ?thesis
    using assms(1) SchemaPath_PathValue [OF w(2)] w(3)
    by (simp add: decode_rule_def request_table_def rule_type_tables decode_field_catalog [OF w(1)]
        decode_field_path decode_field_identifier set_field_def leaf_word_def)
qed

lemma decode_request_grant:
  assumes "FunctionOption name" and "wf_grant g"
  shows "decode_rule name (request_grant g) =
    Inr (\<lparr>t_catalog = g_catalog g, t_schema_path = g_schema_path g, t_table = g_name g\<rparr>, g_type g)"
proof -
  have w: "g_catalog g = [] \<or> wf_identifier (g_catalog g)" "wf_path (g_schema_path g)"
      "wf_identifier (g_name g)" "g_type g = [] \<or> SupportedFunctionKind (g_type g)"
    using assms(2) by (auto simp: wf_grant_def)
  show ?thesis
    using assms(1) SchemaPath_PathValue [OF w(2)] w(3)
    by (simp add: decode_rule_def request_grant_def rule_type_tables decode_field_catalog [OF w(1)]
        decode_field_path decode_field_identifier decode_field_type [OF w(4)] set_field_def leaf_word_def)
qed

lemma rule_fields_checked: "CheckRuleFields name (map fst (rule_type name)) = Inr ()"
  by (cases "FunctionOption name") (simp_all add: CheckRuleFields_def rule_type_tables leaf_word_def)

lemma request_list_effect:
  assumes spec: "FindOption name = Inr spec" "o_element spec = ID_STRUCT" "o_kind spec \<noteq> DEFAULTS"
    and dec: "mapE (decode_rule name) vs = Inr decoded"
  shows "option_effect (name, VList (T_STRUCT (rule_type name)) vs) = Inr (set_rules (o_kind spec) decoded)"
  using assms rule_fields_checked [of name] by (simp add: option_effect_def CheckOptionShape_def)

lemma request_tables_effect:
  assumes "FindOption name = Inr spec" "o_element spec = ID_STRUCT" "o_kind spec \<noteq> DEFAULTS"
    and "\<not> FunctionOption name" and "list_all wf_table ts"
  shows "option_effect (name, VList (T_STRUCT (rule_type name)) (map request_table ts)) =
    Inr (set_rules (o_kind spec) (map (\<lambda>t. (t, [])) ts))"
  using assms(4,5)
  by (intro request_list_effect [OF assms(1-3)])
    (induction ts, simp_all add: decode_request_table)

lemma request_grants_effect:
  assumes "FindOption name = Inr spec" "o_element spec = ID_STRUCT" "o_kind spec \<noteq> DEFAULTS"
    and "FunctionOption name" and "list_all wf_grant gs"
  shows "option_effect (name, VList (T_STRUCT (rule_type name)) (map request_grant gs)) =
    Inr (set_rules (o_kind spec) (map (\<lambda>g. (\<lparr>t_catalog = g_catalog g, t_schema_path = g_schema_path g,
      t_table = g_name g\<rparr>, g_type g)) gs))"
  using assms(4,5)
  by (intro request_list_effect [OF assms(1-3)])
    (induction gs, simp_all add: decode_request_grant)

lemma FindOption_simps:
  "FindOption ''use_default_functions'' = Inr \<lparr>o_name = ''use_default_functions'', o_kind = DEFAULTS, o_element = ID_BOOLEAN\<rparr>"
  "FindOption ''allowed_functions'' = Inr \<lparr>o_name = ''allowed_functions'', o_kind = ALLOWED_FUNCTIONS, o_element = ID_STRUCT\<rparr>"
  "FindOption ''blocked_functions'' = Inr \<lparr>o_name = ''blocked_functions'', o_kind = BLOCKED_FUNCTIONS, o_element = ID_STRUCT\<rparr>"
  "FindOption ''allowed_tables'' = Inr \<lparr>o_name = ''allowed_tables'', o_kind = ALLOWED_TABLES, o_element = ID_STRUCT\<rparr>"
  "FindOption ''blocked_tables'' = Inr \<lparr>o_name = ''blocked_tables'', o_kind = BLOCKED_TABLES, o_element = ID_STRUCT\<rparr>"
  by (simp_all add: FindOption_def Options_def)

definition canonical_options :: "Policy \<Rightarrow> (string \<times> Value) list" where
  "canonical_options p =
     [(''use_default_functions'', VBool (defaults p)),
      (''allowed_functions'', VList (T_STRUCT (rule_type ''allowed_functions'')) (map request_grant (allowed_functions p))),
      (''blocked_functions'', VList (T_STRUCT (rule_type ''blocked_functions'')) (map request_grant (blocked_functions p))),
      (''allowed_tables'', VList (T_STRUCT (rule_type ''allowed_tables'')) (map request_table (allowed_tables p))),
      (''blocked_tables'', VList (T_STRUCT (rule_type ''blocked_tables'')) (map request_table (blocked_tables p)))]"

lemma read_policy_fields:
  "foldE read_policy_field (zip policy_type (StructValue_GetChildren (PolicyValue p))) ([], False) =
     Inr (canonical_options p, tables p)"
  by (simp add: policy_type_def PolicyValue_def read_policy_field_def canonical_grant canonical_table
      canonical_options_def)

lemma grant_rebuild: "grant_of (\<lparr>t_catalog = g_catalog g, t_schema_path = g_schema_path g,
      t_table = g_name g\<rparr>, g_type g) = g"
  by (simp add: grant_of_def)

lemma defaults_effect: "option_effect (''use_default_functions'', VBool b) = Inr (\<lambda>p. p\<lparr>defaults := b\<rparr>)"
  by (simp add: option_effect_def FindOption_simps CheckOptionShape_def)

lemma canonical_options_apply:
  assumes "wf_policy p"
  shows "ApplyOptions default_policy (canonical_options p) = Inr (p\<lparr>tables := True\<rparr>)"
proof -
  have w: "list_all wf_grant (allowed_functions p)" "std_ordered FunctionGrant_key (allowed_functions p)"
      "list_all wf_grant (blocked_functions p)" "std_ordered FunctionGrant_key (blocked_functions p)"
      "list_all wf_table (allowed_tables p)" "std_ordered Table_key (allowed_tables p)"
      "list_all wf_table (blocked_tables p)" "std_ordered Table_key (blocked_tables p)"
    using assms by (simp_all add: wf_policy_def)
  note effects = defaults_effect request_grants_effect [OF _ _ _ _ w(1)] request_grants_effect [OF _ _ _ _ w(3)]
    request_tables_effect [OF _ _ _ _ w(5)] request_tables_effect [OF _ _ _ _ w(7)]
  show ?thesis
    unfolding ApplyOptions_def canonical_options_def apply_options_from.simps apply_option_effect
    using w(2,4,6,8)
    by (simp add: effects FindOption_simps set_rules_def grant_rebuild std_insert_all_rebuild comp_def
        default_policy_def)
qed

lemma ReadPolicy_PolicyValue:
  assumes "wf_policy p" shows "ReadPolicy (PolicyValue p) = Inr p"
proof -
  have ty: "type_of (PolicyValue q) = T_STRUCT policy_type" for q by (simp add: PolicyValue_def)
  have "\<not> IsNull (PolicyValue p)" by (simp add: PolicyValue_def)
  then show ?thesis
    using assms read_policy_fields [of p] canonical_options_apply [OF assms]
    by (auto simp: ReadPolicy_def ty wf_policy_def)
qed

section \<open>Options read from JSON\<close>

lemma list_update_typed:
  assumes "map type_of fds = ts" and "list_all well_typed fds" and "well_typed v"
    and "i < length ts \<Longrightarrow> type_of v = ts ! i"
  shows "map type_of (fds[i := v]) = ts \<and> list_all well_typed (fds[i := v])"
proof -
  have "map type_of (fds[i := v]) = ts"
    using assms(1,4) by (cases "i < length fds") (auto simp: list_eq_iff_nth_eq nth_list_update)
  moreover have "set (fds[i := v]) \<subseteq> insert v (set fds)" by (rule set_update_subset_insert)
  ultimately show ?thesis using assms(2,3) by (auto simp: list_all_iff)
qed

lemma rule_type_nth:
  "i < length (map snd (rule_type name)) \<Longrightarrow> i \<in> {0, 2, 3} \<Longrightarrow> T_VARCHAR = map snd (rule_type name) ! i"
  "T_LIST T_VARCHAR = map snd (rule_type name) ! 1"
  by (auto simp: rule_type_def)

lemma json_rule_field_typed:
  assumes "json_rule_field name path field fds = Inr fds'"
    and "map type_of fds = map snd (rule_type name) \<and> list_all well_typed fds"
  shows "map type_of fds' = map snd (rule_type name) \<and> list_all well_typed fds'"
proof -
  obtain key j where field: "field = (key, j)" by (cases field)
  define i :: nat where "i = (if key = ''catalog'' then 0 else if key = leaf_word name then 2 else 3)"
  consider parts where "fds' = fds[1 := PathValue parts]" | "fds' = fds" | s where "fds' = fds[i := VVarchar s]"
    using assms(1) unfolding json_rule_field_def field i_def
    by (auto simp: bindE_eq_Inr Let_def split: if_split_asm)
  then show ?thesis
  proof cases
    case 1
    then show ?thesis using list_update_typed [of fds _ "PathValue parts" 1] assms(2) rule_type_nth(2) [of name]
      by (simp add: PathValue_def list_all_iff)
  next
    case 3
    have "i \<in> {0, 2, 3}" by (simp add: i_def)
    with 3 show ?thesis using list_update_typed [of fds _ "VVarchar s" i] assms(2) rule_type_nth(1) [of i name]
      by simp
  qed (use assms(2) in simp)
qed

lemma empty_rule_fields_typed:
  "map type_of (empty_rule_fields name) = map snd (rule_type name) \<and> list_all well_typed (empty_rule_fields name)"
  by (simp add: empty_rule_fields_def rule_type_def eval_nat_numeral)

lemma json_entry_typed:
  assumes "json_entry name ID_STRUCT indexed = Inr v"
  shows "well_typed v" and "type_of v = T_STRUCT (rule_type name)"
proof -
  have "well_typed v \<and> type_of v = T_STRUCT (rule_type name)"
  proof (cases "is_null (Some (snd indexed))")
    case True
    with assms show ?thesis by (auto simp: json_entry_def json_list_type_def split_beta)
  next
    case False
    with assms obtain object fds path where
      f: "foldE (json_rule_field name path) object (empty_rule_fields name) = Inr fds"
      and v: "v = VStruct (rule_type name) fds"
      by (auto simp: json_entry_def Let_def split_beta bindE_eq_Inr split: if_split_asm)
    from foldE_invariant [OF f, where P = "\<lambda>fds. map type_of fds = map snd (rule_type name) \<and> list_all well_typed fds"]
    show ?thesis using empty_rule_fields_typed json_rule_field_typed by (auto simp: v)
  qed
  then show "well_typed v" "type_of v = T_STRUCT (rule_type name)" by simp_all
qed

lemma Options_elements: "spec \<in> set Options \<Longrightarrow> o_element spec = ID_BOOLEAN \<or> o_element spec = ID_STRUCT"
  by (auto simp: Options_def)

lemma JsonOption_typed:
  assumes "JsonOption name j = Inr v"
  shows "well_typed v" and "CheckOptionShape name v = Inr ()"
proof -
  from assms obtain spec where spec: "FindOption name = Inr spec"
    by (auto simp: JsonOption_def bindE_eq_Inr)
  have el: "o_element spec = ID_BOOLEAN \<or> o_element spec = ID_STRUCT"
    using FindOption_Inr [OF spec] Options_elements by blast
  have "well_typed v \<and> CheckOptionShape name v = Inr ()"
  proof (cases "is_null (Some j) \<or> o_element spec = ID_BOOLEAN")
    case True
    with assms spec show ?thesis
      by (auto simp: JsonOption_def CheckOptionShape_def split: if_split_asm json.splits)
  next
    case False
    with el have st: "o_element spec = ID_STRUCT" by simp
    with False assms spec obtain vs where
      e: "mapE (json_entry name ID_STRUCT) (enumerate 0 (arr_items (Some j))) = Inr vs"
      and v: "v = VList (T_STRUCT (rule_type name)) vs"
      by (auto simp: JsonOption_def bindE_eq_Inr json_list_type_def split: if_split_asm)
    from e have "list_all (\<lambda>v. type_of v = T_STRUCT (rule_type name)) vs \<and> list_all well_typed vs"
      unfolding mapE_eq_Inr_iff by (induction rule: list_all2_induct) (simp_all add: json_entry_typed)
    with spec st v show ?thesis by (simp add: CheckOptionShape_def)
  qed
  then show "well_typed v" "CheckOptionShape name v = Inr ()" by simp_all
qed

lemma JsonOptions_typed:
  assumes "JsonOptions read_json input = Inr opts"
  shows "\<forall>opt\<in>set opts. well_typed (snd opt)"
proof -
  from assms obtain object where
    e: "mapE (\<lambda>(name, value). bindE (JsonOption name value) (\<lambda>v. Inr (name, v))) object = Inr opts"
    by (auto simp: JsonOptions_def bindE_eq_Inr split: if_split_asm sum.splits option.splits)
  then show ?thesis
    unfolding mapE_eq_Inr_iff
    by (induction rule: list_all2_induct) (auto simp: bindE_eq_Inr dest: JsonOption_typed)
qed

lemma ApplyArguments_wf_policy:
  assumes "ApplyArguments read_json p args = Inr q" and "\<forall>arg\<in>set args. well_typed (snd arg)" and "wf_policy p"
  shows "wf_policy q"
proof -
  from assms(1) obtain opts where "ApplyOptions p opts = Inr q" "\<forall>opt\<in>set opts. well_typed (snd opt)"
    using JsonOptions_typed assms(2) by (auto simp: ApplyArguments_def bindE_eq_Inr split: if_split_asm)
  then show ?thesis using ApplyOptions_wf_policy assms(3) by blast
qed

section \<open>NULL in the canonical value\<close>

fun has_null :: "Value \<Rightarrow> bool" where
  "has_null (VNull _) \<longleftrightarrow> True"
| "has_null (VList _ vs) \<longleftrightarrow> list_ex has_null vs"
| "has_null (VStruct _ vs) \<longleftrightarrow> list_ex has_null vs"
| "has_null _ \<longleftrightarrow> False"

lemma has_null_cases: "has_null v \<Longrightarrow> \<not> IsNull v \<Longrightarrow> type_id (type_of v) \<in> {ID_LIST, ID_STRUCT}"
  by (cases v) simp_all

lemma SchemaPath_null_free:
  assumes "SchemaPath v = Inr p" shows "\<not> has_null v"
proof -
  from assms have "\<not> IsNull v" "type_id (type_of v) = ID_LIST"
    by (auto simp: SchemaPath_def split: if_split_asm)
  then obtain t vs where v: "v = VList t vs" using not_IsNull_type(2) by blast
  from assms have "list_all2 (\<lambda>w s. schema_component w = Inr s) vs p"
    by (auto simp: SchemaPath_def v bindE_eq_Inr mapE_eq_Inr_iff split: if_split_asm)
  then have "\<not> list_ex has_null vs"
  proof (induction rule: list_all2_induct)
    case (Cons w ws s ss)
    then have "\<not> IsNull w" "type_id (type_of w) = ID_VARCHAR"
      by (auto simp: schema_component_def split: if_split_asm)
    then have "\<not> has_null w" using has_null_cases [of w] by auto
    with Cons show ?case by simp
  qed simp
  then show ?thesis by (simp add: v)
qed

lemma decode_field_null_free:
  assumes "decode_field name ((key, t), v) st = Inr st'" and "\<not> IsNull v"
  shows "\<not> has_null v"
proof (cases "key = ''schema_path''")
  case True
  with assms show ?thesis
    by (cases st) (auto simp: decode_field_path bindE_eq_Inr dest: SchemaPath_null_free)
next
  case False
  show ?thesis by (rule decode_field_other [OF False assms(2,1)]) simp
qed

lemma decode_fields_null_free:
  assumes "foldE (decode_field name) fvs st = Inr st'" and "(f, v) \<in> set fvs" and "\<not> IsNull v"
  shows "\<not> has_null v"
  using assms
proof (induction fvs arbitrary: st)
  case (Cons fv fvs)
  from Cons.prems(1) obtain st1 where st1: "decode_field name fv st = Inr st1"
      "foldE (decode_field name) fvs st1 = Inr st'"
    by (auto simp: bindE_eq_Inr)
  show ?case
  proof (cases "(f, v) = fv")
    case True
    then show ?thesis using decode_field_null_free [of name "fst f" "snd f" v] st1(1) Cons.prems(3)
      by (metis prod.collapse)
  next
    case False
    then show ?thesis using Cons.IH [OF st1(2)] Cons.prems(2,3) by auto
  qed
qed simp

text \<open>The canonical reading of a field keeps every non-empty value and rejects NULL.\<close>

lemma canonical_field_null:
  assumes "canonical_field name ((key, t), v) = Inr w" and "\<not> IsNull w \<Longrightarrow> \<not> has_null w"
    and "type_of v = T_VARCHAR \<or> key = ''schema_path''"
  shows "\<not> has_null v"
proof -
  from assms(1) have v: "\<not> IsNull v" by (auto simp: canonical_field_def split: if_split_asm)
  show ?thesis
  proof (cases "key = ''schema_path''")
    case True
    with assms(1) v have "w = v" by (simp add: canonical_field_def)
    with assms(2) v show ?thesis by simp
  next
    case False
    with assms(3) v show ?thesis using has_null_cases [of v] by auto
  qed
qed

lemma rule_type_fields: "(key, t) \<in> set (rule_type name) \<Longrightarrow> t = T_VARCHAR \<or> key = ''schema_path''"
  by (auto simp: rule_type_def split: if_split_asm)

lemma canonical_entry_null:
  assumes can: "canonical_entry name (T_STRUCT (rule_type name)) entry = Inr entry'"
    and dec: "decode_rule name entry' = Inr d"
    and typed: "well_typed entry" "type_of entry = T_STRUCT (rule_type name)"
  shows "\<not> has_null entry"
proof -
  let ?fs = "rule_type name"
  from can have "\<not> IsNull entry" by (auto simp: canonical_entry_def split: if_split_asm)
  with typed(2) obtain vs where e: "entry = VStruct ?fs vs" using not_IsNull_type(1) [of entry] by auto
  from can obtain ws where ws: "mapE (canonical_field name) (zip ?fs vs) = Inr ws" and e': "entry' = VStruct ?fs ws"
    by (auto simp: canonical_entry_def e bindE_eq_Inr split: if_split_asm)
  have len: "length vs = length ?fs" using typed(1) by (auto simp: e dest: map_eq_imp_length_eq)
  with ws have lws: "length ws = length ?fs" by (auto dest: mapE_eq_Inr_length)
  have "\<not> has_null (vs ! i)" if i: "i < length vs" for i
  proof -
    have f: "canonical_field name (?fs ! i, vs ! i) = Inr (ws ! i)"
      using ws i len unfolding mapE_eq_Inr_iff by (auto simp: list_all2_conv_all_nth)
    have mem: "(?fs ! i, ws ! i) \<in> set (zip ?fs ws)" using i len lws by (auto simp: set_zip)
    have ok: "\<not> IsNull (ws ! i) \<Longrightarrow> \<not> has_null (ws ! i)"
      using dec decode_fields_null_free [OF _ mem] by (auto simp: decode_rule_def e')
    have "snd (?fs ! i) = T_VARCHAR \<or> fst (?fs ! i) = ''schema_path''"
      using rule_type_fields [of "fst (?fs ! i)" "snd (?fs ! i)" name] i len by (simp add: nth_mem)
    moreover have "type_of (vs ! i) = snd (?fs ! i)"
      using typed(1) i len by (metis e nth_map well_typed.simps(2))
    ultimately show ?thesis
      using canonical_field_null [of name "fst (?fs ! i)" "snd (?fs ! i)" "vs ! i" "ws ! i"] f ok by simp
  qed
  then show ?thesis by (auto simp: e list_ex_iff in_set_conv_nth)
qed

lemma canonical_rules_null:
  assumes can: "CanonicalIdentities name v = Inr w" and eff: "option_effect (name, w) = Inr f"
    and spec: "FindOption name = Inr spec" "o_kind spec \<noteq> DEFAULTS"
    and typed: "well_typed v" "type_of v = T_LIST (T_STRUCT (rule_type name))" and nn: "\<not> IsNull v"
  shows "\<not> has_null v"
proof -
  from nn typed(2) obtain vs where v: "v = VList (T_STRUCT (rule_type name)) vs"
    using not_IsNull_type(2) [of v] by auto
  from can obtain ws where ws: "list_all2 (\<lambda>x y. canonical_entry name (T_STRUCT (rule_type name)) x = Inr y) vs ws"
      and w: "w = VList (T_STRUCT (rule_type name)) ws"
    by (auto simp: CanonicalIdentities_def v Let_def bindE_eq_Inr mapE_eq_Inr_iff)
  from eff spec obtain ds where "list_all2 (\<lambda>x y. decode_rule name x = Inr y) ws ds"
    by (auto simp: option_effect_def w bindE_eq_Inr mapE_eq_Inr_iff split: if_split_asm)
  then have "list_all (\<lambda>x. \<exists>d. decode_rule name x = Inr d) ws"
    by (induction rule: list_all2_induct) auto
  with ws typed(1) have "\<not> list_ex has_null vs"
    unfolding v
    by (induction rule: list_all2_induct) (auto dest: canonical_entry_null)
  then show ?thesis by (simp add: v)
qed

lemma ReadPolicy_shape:
  assumes "ReadPolicy v = Inr p" and "well_typed v"
  obtains a b c d e f where "v = VStruct policy_type [a, b, c, d, e, f]"
proof -
  from assms(1) have v: "\<not> IsNull v" "type_of v = T_STRUCT policy_type"
    by (auto simp: ReadPolicy_def PolicyValue_def split: if_split_asm)
  then obtain vs where vs: "v = VStruct policy_type vs" using not_IsNull_type(1) [of v] by auto
  with assms(2) have "length vs = length policy_type" by (auto dest: map_eq_imp_length_eq)
  then have "length vs = 6" by (simp add: policy_type_def)
  then obtain a b c d e f where "vs = [a, b, c, d, e, f]"
    by (auto simp: numeral_eq_Suc length_Suc_conv)
  with vs that show ?thesis by blast
qed

lemma read_policy_fields_Inr:
  assumes "foldE read_policy_field (zip policy_type [a, b, c, d, e, f]) ([], False) = Inr (opts, restrict)"
  obtains b' c' d' e' where "list_all (\<lambda>x. \<not> IsNull x) [a, b, c, d, e, f]"
    and "CanonicalIdentities ''allowed_functions'' b = Inr b'"
    and "CanonicalIdentities ''blocked_functions'' c = Inr c'"
    and "CanonicalIdentities ''allowed_tables'' d = Inr d'"
    and "CanonicalIdentities ''blocked_tables'' e = Inr e'"
    and "opts = [(''use_default_functions'', a), (''allowed_functions'', b'), (''blocked_functions'', c'),
      (''allowed_tables'', d'), (''blocked_tables'', e')]" and "restrict = GetBool f"
  using assms
  by (simp add: policy_type_def read_policy_field_def bindE_eq_Inr split: if_split_asm)
    (fastforce simp: bindE_eq_Inr)

lemma ReadPolicy_null_free:
  assumes read: "ReadPolicy v = Inr p" and typed: "well_typed v"
  shows "\<not> has_null v"
proof -
  obtain a b c d e f where v: "v = VStruct policy_type [a, b, c, d, e, f]"
    by (rule ReadPolicy_shape [OF read typed])
  from read obtain opts restrict q where
    fold: "foldE read_policy_field (zip policy_type [a, b, c, d, e, f]) ([], False) = Inr (opts, restrict)"
    and app: "ApplyOptions default_policy opts = Inr q"
    by (auto simp: ReadPolicy_def PolicyValue_def v bindE_eq_Inr split: if_split_asm prod.splits)
  obtain b' c' d' e' where nn: "list_all (\<lambda>x. \<not> IsNull x) [a, b, c, d, e, f]"
    and can: "CanonicalIdentities ''allowed_functions'' b = Inr b'" "CanonicalIdentities ''blocked_functions'' c = Inr c'"
      "CanonicalIdentities ''allowed_tables'' d = Inr d'" "CanonicalIdentities ''blocked_tables'' e = Inr e'"
    and opts: "opts = [(''use_default_functions'', a), (''allowed_functions'', b'), (''blocked_functions'', c'),
      (''allowed_tables'', d'), (''blocked_tables'', e')]"
    by (rule read_policy_fields_Inr [OF fold]) (rule that)
  from app have eff: "\<exists>g. option_effect (''allowed_functions'', b') = Inr g"
      "\<exists>g. option_effect (''blocked_functions'', c') = Inr g"
      "\<exists>g. option_effect (''allowed_tables'', d') = Inr g" "\<exists>g. option_effect (''blocked_tables'', e') = Inr g"
    by (simp_all add: ApplyOptions_iff opts)
  from typed have ty: "type_of a = T_BOOLEAN" "type_of f = T_BOOLEAN" "list_all well_typed [a, b, c, d, e, f]"
    "type_of b = T_LIST (T_STRUCT (rule_type ''allowed_functions''))"
    "type_of c = T_LIST (T_STRUCT (rule_type ''blocked_functions''))"
    "type_of d = T_LIST (T_STRUCT (rule_type ''allowed_tables''))"
    "type_of e = T_LIST (T_STRUCT (rule_type ''blocked_tables''))"
    by (simp_all add: v policy_type_def)
  from eff obtain gb gc gd ge where g: "option_effect (''allowed_functions'', b') = Inr gb"
      "option_effect (''blocked_functions'', c') = Inr gc"
      "option_effect (''allowed_tables'', d') = Inr gd" "option_effect (''blocked_tables'', e') = Inr ge"
    by blast
  have "\<not> has_null b" using canonical_rules_null [OF can(1) g(1) FindOption_simps(2)] nn ty(3,4) by simp
  moreover have "\<not> has_null c" using canonical_rules_null [OF can(2) g(2) FindOption_simps(3)] nn ty(3,5) by simp
  moreover have "\<not> has_null d" using canonical_rules_null [OF can(3) g(3) FindOption_simps(4)] nn ty(3,6) by simp
  moreover have "\<not> has_null e" using canonical_rules_null [OF can(4) g(4) FindOption_simps(5)] nn ty(3,7) by simp
  moreover have "\<not> has_null a" "\<not> has_null f"
    using has_null_cases [of a] has_null_cases [of f] nn ty by auto
  ultimately show ?thesis by (simp add: v)
qed

section \<open>Properties\<close>

definition sample_arguments :: "(string \<times> Value) list" where
  "sample_arguments =
     [(''allowed_tables'', VList (T_STRUCT [(''schema_path'', T_LIST T_VARCHAR), (''table'', T_VARCHAR)])
        [VStruct [(''schema_path'', T_LIST T_VARCHAR), (''table'', T_VARCHAR)]
           [VList T_VARCHAR [VVarchar ''Reporting''], VVarchar ''*''],
         VStruct [(''schema_path'', T_LIST T_VARCHAR), (''table'', T_VARCHAR)]
           [VList T_VARCHAR [VVarchar ''Main''], VVarchar ''Orders'']]),
      (''use_default_functions'', VBool False)]"

definition no_json :: "string \<Rightarrow> (nat \<times> string) + json" where
  "no_json s = Inl (0, ''input length is 0'')"

text \<open>C15. What configuration stores is what enforcement later reads: any policy that typed or JSON
  arguments decode to is well-formed, and reading its canonical setting value gives back the same
  policy, rule sets in the same order and \<open>restrict_tables\<close> included.\<close>

theorem configured_policy_roundtrip:
  assumes "ApplyArguments read_json default_policy args = Inr p" and "\<forall>arg\<in>set args. well_typed (snd arg)"
  shows "wf_policy p \<and> ReadPolicy (PolicyValue p) = Inr p"
  using ApplyArguments_wf_policy [OF assms default_policy_wf] ReadPolicy_PolicyValue by blast

theorem configured_policy_roundtrip_witness:
  "\<exists>p. ApplyArguments no_json default_policy sample_arguments = Inr p \<and>
     (\<forall>arg\<in>set sample_arguments. well_typed (snd arg)) \<and> length (allowed_tables p) = 2 \<and>
     wf_policy p \<and> ReadPolicy (PolicyValue p) = Inr p"
proof -
  define p where "p = \<lparr>defaults = False, tables = True, allowed_functions = [], blocked_functions = [],
    allowed_tables = [\<lparr>t_catalog = [], t_schema_path = [''main''], t_table = ''orders''\<rparr>,
      \<lparr>t_catalog = [], t_schema_path = [''reporting''], t_table = ''*''\<rparr>], blocked_tables = []\<rparr>"
  have h: "ApplyArguments no_json default_policy sample_arguments = Inr p" unfolding p_def by code_simp
  have t: "\<forall>arg\<in>set sample_arguments. well_typed (snd arg)" by code_simp
  show ?thesis using h t configured_policy_roundtrip [OF h t] by (auto simp: p_def)
qed

text \<open>C35. Reading a stored policy fails closed on NULL: a canonical value with a NULL at any depth,
  in a field, an entry, a rule's field or a schema component, is an error and never a wider policy.\<close>

theorem ReadPolicy_rejects_null:
  assumes "well_typed v" and "has_null v"
  shows "\<exists>m. ReadPolicy v = Inl m"
  using ReadPolicy_null_free [OF _ assms(1)] assms(2) by (cases "ReadPolicy v") auto

definition null_catalog_value :: Value where
  "null_catalog_value = VStruct policy_type
     [VBool True, VList (T_STRUCT (rule_type ''allowed_functions'')) [],
      VList (T_STRUCT (rule_type ''blocked_functions'')) [],
      VList (T_STRUCT (rule_type ''allowed_tables''))
        [VStruct (rule_type ''allowed_tables'') [VNull T_VARCHAR, PathValue [''main''], VVarchar ''t'']],
      VList (T_STRUCT (rule_type ''blocked_tables'')) [], VBool True]"

theorem ReadPolicy_rejects_null_witness:
  "well_typed null_catalog_value \<and> has_null null_catalog_value \<and> (\<exists>m. ReadPolicy null_catalog_value = Inl m)"
proof -
  have w: "well_typed null_catalog_value" by code_simp
  have h: "has_null null_catalog_value" by code_simp
  show ?thesis using w h ReadPolicy_rejects_null [OF w h] by blast
qed

text \<open>C34. The order in which typed options are written does not matter: a permutation of an option
  list that applies also applies, with the same resulting policy.\<close>

theorem ApplyOptions_order_independent:
  assumes "ApplyOptions p opts = Inr q" and "mset opts' = mset opts"
  shows "ApplyOptions p opts' = Inr q"
proof -
  from assms(1) have a: "distinct (map fst opts)" "\<forall>opt\<in>set opts. \<exists>f. option_effect opt = Inr f"
      "q = fold the_effect opts p"
    by (simp_all add: ApplyOptions_iff)
  have "mset (map fst opts') = mset (map fst opts)" using assms(2) by simp
  then have "distinct (map fst opts')" using a(1) mset_eq_imp_distinct_iff by blast
  moreover have "set opts' = set opts" using assms(2) by (rule mset_eq_setD)
  ultimately show ?thesis
    using a fold_effects_permute [OF a(2,1) assms(2) [symmetric]] by (simp add: ApplyOptions_iff)
qed

theorem ApplyOptions_order_independent_witness:
  "\<exists>q. ApplyOptions default_policy sample_arguments = Inr q \<and>
     mset (rev sample_arguments) = mset sample_arguments \<and>
     ApplyOptions default_policy (rev sample_arguments) = Inr q"
proof -
  define q where "q = \<lparr>defaults = False, tables = True, allowed_functions = [], blocked_functions = [],
    allowed_tables = [\<lparr>t_catalog = [], t_schema_path = [''main''], t_table = ''orders''\<rparr>,
      \<lparr>t_catalog = [], t_schema_path = [''reporting''], t_table = ''*''\<rparr>], blocked_tables = []\<rparr>"
  have h: "ApplyOptions default_policy sample_arguments = Inr q" unfolding q_def by code_simp
  have m: "mset (rev sample_arguments) = mset sample_arguments" by simp
  show ?thesis using h m ApplyOptions_order_independent [OF h m] by blast
qed

text \<open>Arguments that are accepted are either a single non-NULL JSON document or distinct known
  options with no NULL value: JSON never mixes with typed options, and no option is repeated,
  unknown or NULL.\<close>

lemma ApplyArguments_accepts_only:
  assumes "ApplyArguments read_json p args = Inr q"
  shows "(\<exists>v doc. args = [(''json'', v)] \<and> \<not> IsNull v \<and> type_of v = T_VARCHAR \<and>
      read_json (GetString v) = Inr doc) \<or>
    (distinct (map fst args) \<and> set (map fst args) \<subseteq> set OptionNames \<and> (\<forall>arg\<in>set args. \<not> IsNull (snd arg)))"
proof (cases "length args = 1 \<and> fst (hd args) = ''json''")
  case True
  then obtain v where args: "args = [(''json'', v)]" by (cases args) (auto simp: prod_eq_iff)
  from assms have v: "\<not> IsNull v" "type_id (type_of v) = ID_VARCHAR" "\<exists>doc. read_json (GetString v) = Inr doc"
    by (auto simp: ApplyArguments_def args CheckArguments_def JsonOptions_def bindE_eq_Inr
        split: if_split_asm sum.splits)
  moreover from v(2) have "type_of v = T_VARCHAR" by (cases "type_of v") simp_all
  ultimately show ?thesis using args by blast
next
  case False
  with assms have "ApplyOptions p args = Inr q"
    by (auto simp: ApplyArguments_def bindE_eq_Inr split: if_split_asm)
  then have a: "distinct (map fst args)" "\<forall>arg\<in>set args. \<exists>f. option_effect arg = Inr f"
    by (simp_all add: ApplyOptions_iff)
  have "fst arg \<in> set OptionNames \<and> \<not> IsNull (snd arg)" if "arg \<in> set args" for arg
  proof -
    obtain name v where arg: "arg = (name, v)" by (cases arg)
    from a(2) that obtain f where "option_effect (name, v) = Inr f" unfolding arg by blast
    then obtain spec where "FindOption name = Inr spec" "\<not> IsNull v"
      by (auto simp: option_effect_def bindE_eq_Inr split: if_split_asm)
    then show ?thesis using FindOption_Inr [of name spec] by (auto simp: OptionNames_def arg)
  qed
  with a(1) show ?thesis by auto
qed

end
