(* ===== verification/Audit_Model.thy ===== *)
theory Audit_Model
  imports Policy_Options "HOL-Library.Word"
begin

unbundle bit_operations_syntax

text \<open>
  Decisions as they become observable: closing a result (\<open>MarkDenied\<close>), describing an error
  (\<open>DescribeError\<close>) and a denial (\<open>DenialMessage\<close>) of \<open>src/src/check.cpp\<close>, the value a result is
  reported as (\<open>src/src/result_value.cpp\<close>), and the audit log (\<open>src/src/audit.cpp\<close>). The log is the
  list of records written, oldest first. The engine's log configuration, string hash, value rendering
  and exception names are the parameters \<open>should_log\<close>, \<open>hash\<close>, \<open>render\<close> and \<open>type_name\<close>.
\<close>

section \<open>Closing and describing results\<close>

definition MarkDenied :: "Result \<Rightarrow> Result" where
  "MarkDenied r =
     (let r1 = r\<lparr>r_allowed := False\<rparr>
      in if r_violations r1 \<noteq> []
         then r1\<lparr>r_code := codes_FORBIDDEN, r_error_type := [], r_error_message := []\<rparr> else r1)"

fun denial_details :: "Violation list \<Rightarrow> string \<Rightarrow> string" where
  "denial_details [] details = details"
| "denial_details (v # vs) details =
     denial_details vs ((if details \<noteq> [] then details @ ''; '' else details) @ v_rule v @ '': '' @ v_message v)"

definition DenialMessage :: "Result \<Rightarrow> string" where
  "DenialMessage r =
     (let message = ''Gatekeeper denied this statement'' @
            (if r_code r \<noteq> [] \<and> r_code r \<noteq> codes_FORBIDDEN then '' ('' @ r_code r @ '')'' else []);
          details = denial_details (r_violations r) [];
          details1 = (if details = [] \<and> r_error_message r \<noteq> [] then r_error_message r else details)
      in if details1 \<noteq> [] then message @ '': '' @ details1 else message)"

definition PropagateEngineError :: "exception_type \<Rightarrow> bool" where
  "PropagateEngineError t \<longleftrightarrow> t = ET_INTERRUPT \<or> t = ET_INTERNAL \<or> t = ET_FATAL \<or> t = ET_OUT_OF_MEMORY"

definition EngineErrorCode :: "bool \<Rightarrow> string" where
  "EngineErrorCode binding = (if binding then codes_BINDING else codes_INVALID_INPUT)"

definition describe_data ::
    "(exception_type \<Rightarrow> string) \<Rightarrow> exception_type \<Rightarrow> string \<Rightarrow> int option \<Rightarrow> bool \<Rightarrow> Result \<Rightarrow> bool \<times> Result" where
  "describe_data type_name t message position binding r =
     (if t = ET_PARSER then
        (let r1 = r\<lparr>r_code := codes_PARSER, r_error_type := ''parser'', r_error_message := message\<rparr>
         in (True, case position of Some p \<Rightarrow> r1\<lparr>r_position := p\<rparr> | None \<Rightarrow> r1))
      else if t = ET_INVALID_INPUT then
        (let r1 = r\<lparr>r_code := EngineErrorCode binding\<rparr>;
             r2 = (if binding then r1\<lparr>r_error_type := ''Invalid Input''\<rparr> else r1)
         in (True, r2\<lparr>r_error_message := message\<rparr>))
      else if PropagateEngineError t then (False, r)
      else (True, r\<lparr>r_code := EngineErrorCode binding, r_error_type := type_name t,
          r_error_message := (if t = ET_PARAMETER_NOT_RESOLVED then PARAMETERS_REQUIRED else message)\<rparr>))"

text \<open>An exception that is not the engine's own has no engine type; \<open>ErrorData\<close> reports it as such.\<close>

definition DescribeError :: "(exception_type \<Rightarrow> string) \<Rightarrow> exn \<Rightarrow> bool \<Rightarrow> Result \<Rightarrow> bool \<times> Result" where
  "DescribeError type_name e binding r = (case e of
     InvalidArgument m \<Rightarrow> (True, r\<lparr>r_code := EngineErrorCode binding, r_error_message := m\<rparr>)
   | BadAlloc \<Rightarrow> (False, r)
   | RuntimeError m \<Rightarrow> describe_data type_name (ET_OTHER ''Invalid'') m None binding r
   | EngineError t m position \<Rightarrow> describe_data type_name t m position binding r)"

definition never_a_decision :: "exn \<Rightarrow> bool" where
  "never_a_decision e \<longleftrightarrow> (case e of BadAlloc \<Rightarrow> True | EngineError t _ _ \<Rightarrow> PropagateEngineError t | _ \<Rightarrow> False)"

section \<open>Result values\<close>

definition ViolationType :: "(string \<times> LogicalType) list" where
  "ViolationType =
     [(''rule'', T_VARCHAR), (''message'', T_VARCHAR), (''catalog'', T_VARCHAR), (''schema_path'', T_LIST T_VARCHAR),
      (''table'', T_VARCHAR), (''function_name'', T_VARCHAR), (''position'', T_BIGINT), (''function_type'', T_VARCHAR),
      (''object_type'', T_VARCHAR)]"

definition IdentityType :: "bool \<Rightarrow> (string \<times> LogicalType) list" where
  "IdentityType object =
     [(''catalog'', T_VARCHAR), (''schema_path'', T_LIST T_VARCHAR), (if object then ''table'' else ''name'', T_VARCHAR),
      (''type'', T_VARCHAR)]"

definition ResultType :: "(string \<times> LogicalType) list" where
  "ResultType =
     [(''allowed'', T_BOOLEAN), (''code'', T_VARCHAR), (''violations'', T_LIST (T_STRUCT ViolationType)),
      (''error_type'', T_VARCHAR), (''error_message'', T_VARCHAR), (''position'', T_BIGINT),
      (''objects'', T_LIST (T_STRUCT (IdentityType True))), (''functions'', T_LIST (T_STRUCT (IdentityType False))),
      (''caller_objects'', T_LIST (T_STRUCT (IdentityType True))),
      (''caller_functions'', T_LIST (T_STRUCT (IdentityType False)))]"

definition PositionValue :: "int \<Rightarrow> Value" where
  "PositionValue position = (if position < 0 then VNull T_BIGINT else VBigint position)"

definition ViolationValue :: "Violation \<Rightarrow> Value" where
  "ViolationValue v = VStruct ViolationType
     [VVarchar (v_rule v), VVarchar (v_message v), VVarchar (v_catalog v), PathValue (v_schema_path v),
      VVarchar (v_table v), VVarchar (v_function_name v), PositionValue (v_position v), VVarchar (v_function_type v),
      VVarchar (v_object_type v)]"

definition IdentityValue :: "bool \<Rightarrow> Identity \<Rightarrow> Value" where
  "IdentityValue object i = VStruct (IdentityType object)
     [VVarchar (i_catalog i), PathValue (i_schema_path i), VVarchar (i_name i), VVarchar (i_type i)]"

definition IdentityValues :: "Result \<Rightarrow> Identity list \<Rightarrow> bool \<Rightarrow> Value" where
  "IdentityValues r entries object =
     VList (T_STRUCT (IdentityType object)) (if r_allowed r then map (IdentityValue object) entries else [])"

definition ResultValue :: "Result \<Rightarrow> Value" where
  "ResultValue r = VStruct ResultType
     [VBool (r_allowed r), VVarchar (r_code r), VList (T_STRUCT ViolationType) (map ViolationValue (r_violations r)),
      VVarchar (r_error_type r), VVarchar (r_error_message r), PositionValue (r_position r),
      IdentityValues r (r_objects r) True, IdentityValues r (r_functions r) False,
      IdentityValues r (r_caller_objects r) True, IdentityValues r (r_caller_functions r) False]"

section \<open>Audit records\<close>

datatype DecisionMode = ENFORCE | LOG_ONLY | VALIDATE

datatype Boundary = BINDING | AUTHORIZE | EXECUTION | PREPARE | REPLACEMENT_SCAN | NO_BOUNDARY

record DecisionSite =
  site_mode :: DecisionMode
  site_boundary :: Boundary
  site_policy :: "Policy option"
  site_statement :: "string option"

datatype LogLevel = LOG_DEBUG | LOG_INFO

definition MAX_LOGGED_STATEMENT :: nat where
  "MAX_LOGGED_STATEMENT = 65536"

fun ModeName :: "DecisionMode \<Rightarrow> string" where
  "ModeName ENFORCE = ''enforce''"
| "ModeName LOG_ONLY = ''log_only''"
| "ModeName VALIDATE = ''validate''"

fun BoundaryName :: "Boundary \<Rightarrow> Value" where
  "BoundaryName BINDING = VVarchar ''binding''"
| "BoundaryName AUTHORIZE = VVarchar ''authorize''"
| "BoundaryName EXECUTION = VVarchar ''execution''"
| "BoundaryName PREPARE = VVarchar ''prepare''"
| "BoundaryName REPLACEMENT_SCAN = VVarchar ''replacement_scan''"
| "BoundaryName NO_BOUNDARY = VNull T_VARCHAR"

definition hex_digit :: "64 word \<Rightarrow> char" where
  "hex_digit h = ''0123456789abcdef'' ! unat (h AND 0xf)"

fun hex_loop :: "nat \<Rightarrow> 64 word \<Rightarrow> string \<Rightarrow> string" where
  "hex_loop 0 h hex = hex"
| "hex_loop (Suc i) h hex = hex_loop i (drop_bit 4 h) (hex_digit h # hex)"

definition HashText :: "(string \<Rightarrow> 64 word) \<Rightarrow> string \<Rightarrow> string" where
  "HashText hash text = hex_loop 16 (hash text) []"

definition PolicyHash :: "(string \<Rightarrow> 64 word) \<Rightarrow> (Value \<Rightarrow> string) \<Rightarrow> Policy option \<Rightarrow> Value" where
  "PolicyHash hash render policy = (case policy of
     None \<Rightarrow> VNull T_VARCHAR | Some p \<Rightarrow> VVarchar (HashText hash (render (PolicyValue p))))"

text \<open>The copying loop of \<open>StatementText\<close>; the text is kept reversed, so its back is the head.\<close>

fun copy_statement :: "nat \<Rightarrow> string \<Rightarrow> string \<Rightarrow> string \<times> string" where
  "copy_statement limit [] rtext = (rtext, [])"
| "copy_statement limit (c # rest) rtext =
     (if length rtext < limit then
        (if c = CHR 0x00 then
           (if limit - length rtext < 3 then (rtext, c # rest)
            else copy_statement limit rest (CHR 0xBD # CHR 0xBF # CHR 0xEF # rtext))
         else copy_statement limit rest (c # rtext))
      else (rtext, c # rest))"

definition continuation_byte :: "char \<Rightarrow> bool" where
  "continuation_byte c \<longleftrightarrow> (word_of_nat (of_char c) :: 8 word) AND 0xC0 = 0x80"

definition trim_partial :: "string \<Rightarrow> string" where
  "trim_partial rtext = (case dropWhile continuation_byte rtext of [] \<Rightarrow> [] | c # text \<Rightarrow> text)"

definition statement_text :: "nat \<Rightarrow> string \<Rightarrow> string" where
  "statement_text limit statement =
     (case copy_statement limit statement [] of (rtext, rest) \<Rightarrow>
        rev (if rest \<noteq> [] \<and> continuation_byte (hd rest) then trim_partial rtext else rtext))"

definition StatementText :: "string \<Rightarrow> Value" where
  "StatementText statement = VVarchar (statement_text MAX_LOGGED_STATEMENT statement)"

text \<open>
  What identifies a record among the engine's: the connection, and within a transaction its number and
  that of the query in progress, unless that is the number the engine keeps for "no query".
\<close>

record LogContext =
  lc_connection :: nat
  lc_transaction :: "nat option"
  lc_query :: "nat option"

record LogRecord =
  lr_level :: LogLevel
  lr_event :: string
  lr_fields :: "Value list"
  lr_context :: LogContext

text \<open>The engine's side of a record: the log configuration, the sink, which can refuse an entry, and the connection.\<close>

record AuditEngine =
  ae_should_log :: "LogLevel \<Rightarrow> bool"
  ae_sink :: "LogRecord \<Rightarrow> exn option"
  ae_hash :: "string \<Rightarrow> 64 word"
  ae_render :: "Value \<Rightarrow> string"
  ae_connection :: nat
  ae_transaction :: "(nat \<times> nat) option"
  ae_no_query :: nat

definition record_fields ::
    "AuditEngine \<Rightarrow> string \<Rightarrow> Value \<Rightarrow> Value \<Rightarrow> Result option \<Rightarrow> string option \<Rightarrow> Policy option \<Rightarrow>
     Value option \<Rightarrow> Value list" where
  "record_fields ae event mode boundary result statement policy new_value =
     [VVarchar event, mode, boundary] @
     (case result of
        Some r \<Rightarrow> StructValue_GetChildren (ResultValue r)
      | None \<Rightarrow> map (\<lambda>(_, t). VNull t) ResultType) @
     (case statement of
        Some s \<Rightarrow> [StatementText s, VBigint (int (length s))]
      | None \<Rightarrow> [VNull T_VARCHAR, VNull T_BIGINT]) @
     [PolicyHash (ae_hash ae) (ae_render ae) policy,
      (case new_value of
         Some v \<Rightarrow> if IsNull v then VNull T_VARCHAR else VVarchar (ae_render ae v)
       | None \<Rightarrow> VNull T_VARCHAR)]"

definition GetLogType :: "(string \<times> LogicalType) list" where
  "GetLogType =
     [(''event'', T_VARCHAR), (''mode'', T_VARCHAR), (''boundary'', T_VARCHAR)] @ ResultType @
     [(''statement'', T_VARCHAR), (''statement_length'', T_BIGINT), (''policy_hash'', T_VARCHAR), (''new_value'', T_VARCHAR)]"

text \<open>The struct a record is serialized as.\<close>

definition record_value :: "LogRecord \<Rightarrow> Value" where
  "record_value entry = VStruct GetLogType (lr_fields entry)"

definition logging_context :: "AuditEngine \<Rightarrow> LogContext" where
  "logging_context ae = \<lparr>lc_connection = ae_connection ae, lc_transaction = map_option fst (ae_transaction ae),
     lc_query = (case ae_transaction ae of
       Some (_, query) \<Rightarrow> if query \<noteq> ae_no_query ae then Some query else None | None \<Rightarrow> None)\<rparr>"

definition Write :: "AuditEngine \<Rightarrow> LogLevel \<Rightarrow> string \<Rightarrow> Value list \<Rightarrow> LogRecord list \<Rightarrow> LogRecord list outcome" where
  "Write ae level event fds records =
     (if \<not> ae_should_log ae level then (None, records)
      else (let entry = \<lparr>lr_level = level, lr_event = event, lr_fields = fds, lr_context = logging_context ae\<rparr>
            in case ae_sink ae entry of Some e \<Rightarrow> (Some e, records) | None \<Rightarrow> (None, records @ [entry])))"

definition decision_fields :: "AuditEngine \<Rightarrow> DecisionSite \<Rightarrow> Result \<Rightarrow> Value list" where
  "decision_fields ae site r =
     record_fields ae ''decision'' (VVarchar (ModeName (site_mode site))) (BoundaryName (site_boundary site))
       (Some r) (site_statement site) (site_policy site) None"

definition Decide :: "AuditEngine \<Rightarrow> DecisionSite \<Rightarrow> Result \<Rightarrow> LogRecord list \<Rightarrow> LogRecord list outcome" where
  "Decide ae site r records =
     seqO (Write ae (if r_allowed r then LOG_DEBUG else LOG_INFO) ''decision'' (decision_fields ae site r) records)
       (\<lambda>records. (if \<not> r_allowed r \<and> site_mode site = ENFORCE then Some (PermissionException (DenialMessage r)) else None,
          records))"

definition LogSettingChange ::
    "AuditEngine \<Rightarrow> string \<Rightarrow> Value \<Rightarrow> Policy option \<Rightarrow> LogRecord list \<Rightarrow> LogRecord list outcome" where
  "LogSettingChange ae event v policy =
     Write ae LOG_INFO event
       (record_fields ae event (VNull T_VARCHAR) (VNull T_VARCHAR) None None policy (Some v))"

definition DenialsRecorded :: "AuditEngine \<Rightarrow> bool" where
  "DenialsRecorded ae = ae_should_log ae LOG_INFO"

section \<open>Hash texts\<close>

lemma hex_loop_append: "hex_loop n h acc = hex_loop n h [] @ acc"
proof (induction n arbitrary: h acc)
  case (Suc n)
  have "hex_loop n (drop_bit 4 h) (hex_digit h # acc) = hex_loop n (drop_bit 4 h) [] @ (hex_digit h # acc)"
    by (rule Suc.IH)
  moreover have "hex_loop n (drop_bit 4 h) [hex_digit h] = hex_loop n (drop_bit 4 h) [] @ [hex_digit h]"
    by (rule Suc.IH)
  ultimately show ?case by simp
qed simp

lemma hex_loop_Suc: "hex_loop (Suc n) h [] = hex_loop n (drop_bit 4 h) [] @ [hex_digit h]"
  using hex_loop_append [of n "drop_bit 4 h" "[hex_digit h]"] by simp

lemma length_hex_loop: "length (hex_loop n h []) = n"
proof (induction n arbitrary: h)
  case (Suc n)
  then show ?case unfolding hex_loop_Suc by simp
qed simp

text \<open>Reading a hexadecimal numeral.\<close>

definition digit_value :: "char \<Rightarrow> nat" where
  "digit_value c = (if of_char c < (58 :: nat) then of_char c - 48 else of_char c - 87)"

definition hex_value :: "string \<Rightarrow> nat" where
  "hex_value s = foldl (\<lambda>n c. 16 * n + digit_value c) 0 s"

lemma hex_digit_value: "digit_value (hex_digit h) = unat h mod 16"
proof -
  have low: "unat (h AND 0xf) = unat h mod 16"
  proof -
    have "h AND 0xf = h mod 16" by (simp add: take_bit_eq_mask [of 4 h, symmetric, unfolded mask_eq_exp_minus_1, simplified] take_bit_eq_mod)
    then show ?thesis by (simp add: unat_mod_distrib)
  qed
  have all: "\<forall>i\<in>set [0..<16]. digit_value (''0123456789abcdef'' ! i) = i" by code_simp
  have "unat h mod 16 \<in> set [0..<16]" by simp
  with all show ?thesis unfolding hex_digit_def low by blast
qed

lemma hex_loop_value: "hex_value (hex_loop n h []) = unat h mod 16 ^ n"
proof (induction n arbitrary: h)
  case 0
  show ?case by (simp add: hex_value_def)
next
  case (Suc n)
  have "hex_value (hex_loop (Suc n) h []) = 16 * hex_value (hex_loop n (drop_bit 4 h) []) + unat h mod 16"
    unfolding hex_loop_Suc by (simp add: hex_value_def hex_digit_value)
  also have "\<dots> = 16 * ((unat h div 16) mod 16 ^ n) + unat h mod 16"
    by (simp add: Suc.IH drop_bit_eq_div unat_div_distrib)
  also have "\<dots> = unat h mod 16 ^ Suc n" by (simp add: mod_mult2_eq)
  finally show ?case .
qed

section \<open>Statement texts\<close>

text \<open>
  A character of UTF-8 text: a byte that continues nothing, then the bytes that continue it.
\<close>

definition utf8_character :: "string \<Rightarrow> bool" where
  "utf8_character c \<longleftrightarrow> c \<noteq> [] \<and> \<not> continuation_byte (hd c) \<and> list_all continuation_byte (tl c) \<and>
     (CHR 0x00 \<in> set c \<longrightarrow> c = [CHR 0x00])"

definition logged_character :: "string \<Rightarrow> string" where
  "logged_character c = (if c = [CHR 0x00] then [CHR 0xEF, CHR 0xBF, CHR 0xBD] else c)"

lemma copy_statement_bytes:
  assumes "CHR 0x00 \<notin> set c"
  shows "copy_statement limit (c @ s) rtext =
    (if length rtext + length c \<le> limit then copy_statement limit s (rev c @ rtext)
     else let j = limit - length rtext in (rev (take j c) @ rtext, drop j c @ s))"
  using assms
proof (induction c arbitrary: rtext)
  case Nil
  show ?case by (cases s) auto
next
  case (Cons a c)
  show ?case
  proof (cases "length rtext < limit")
    case True
    then obtain j where "limit - length rtext = Suc j" by (metis Suc_diff_Suc)
    moreover from this have "limit - length (a # rtext) = j" by simp
    moreover have "a \<noteq> CHR 0x00" using Cons.prems by auto
    ultimately show ?thesis using Cons True by (simp add: Let_def)
  next
    case False
    then show ?thesis using Cons.prems by (simp add: Let_def)
  qed
qed

lemma nul_not_continuation: "\<not> continuation_byte (CHR 0x00)"
  by code_simp

lemma utf8_hd: "utf8_character c \<Longrightarrow> c @ s \<noteq> [] \<and> \<not> continuation_byte (hd (c @ s))"
  by (auto simp: utf8_character_def)

lemma trim_partial_character:
  assumes "utf8_character c" and "0 < j"
  shows "trim_partial (rev (take j c) @ rtext) = rtext"
proof -
  obtain a b where c: "c = a # b" "\<not> continuation_byte a" "list_all continuation_byte b"
    using assms(1) by (cases c) (auto simp: utf8_character_def)
  obtain i where j: "j = Suc i" using assms(2) by (cases j) auto
  have "\<forall>x\<in>set (rev (take i b)). continuation_byte x"
    using c(3) by (auto simp: list_all_iff dest: in_set_takeD)
  then have "dropWhile continuation_byte (rev (take i b) @ a # rtext) = a # rtext"
    using c(2) by (subst dropWhile_append2) auto
  then show ?thesis by (simp add: trim_partial_def c(1) j)
qed

definition finish_statement :: "string \<times> string \<Rightarrow> string" where
  "finish_statement p = rev (if snd p \<noteq> [] \<and> continuation_byte (hd (snd p)) then trim_partial (fst p) else fst p)"

lemma copy_statement_aligned:
  assumes "list_all utf8_character cs"
  shows "\<exists>n. finish_statement (copy_statement limit (concat cs) rtext) = rev rtext @ concat (map logged_character (take n cs))"
  using assms
proof (induction cs arbitrary: rtext)
  case Nil
  show ?case by (simp add: finish_statement_def)
next
  case (Cons c cs)
  let ?s = "concat cs"
  have c: "utf8_character c" using Cons.prems by simp
  have stop: "finish_statement (rtext, c @ ?s) = rev rtext"
    using utf8_hd [OF c, of ?s] by (simp add: finish_statement_def)
  have stopped: ?case if "copy_statement limit (concat (c # cs)) rtext = (rtext, c @ ?s)"
    using that stop by (intro exI [of _ 0]) simp
  have copied: ?case if "copy_statement limit (concat (c # cs)) rtext = copy_statement limit ?s (rev (logged_character c) @ rtext)"
  proof -
    obtain n where "finish_statement (copy_statement limit ?s (rev (logged_character c) @ rtext)) =
        rev (rev (logged_character c) @ rtext) @ concat (map logged_character (take n cs))"
      using Cons.IH [of "rev (logged_character c) @ rtext"] Cons.prems by auto
    with that show ?thesis by (intro exI [of _ "Suc n"]) simp
  qed
  show ?case
  proof (cases "c = [CHR 0x00]")
    case True
    then show ?thesis
      using stopped copied by (cases "length rtext < limit \<and> \<not> limit - length rtext < 3") (auto simp: logged_character_def)
  next
    case False
    then have nul: "CHR 0x00 \<notin> set c" using c by (auto simp: utf8_character_def)
    show ?thesis
    proof (cases "length rtext + length c \<le> limit")
      case True
      then show ?thesis
        using copied copy_statement_bytes [OF nul, of limit ?s rtext] False by (simp add: logged_character_def)
    next
      case over: False
      define j where "j = limit - length rtext"
      have cp: "copy_statement limit (concat (c # cs)) rtext = (rev (take j c) @ rtext, drop j c @ ?s)"
        using copy_statement_bytes [OF nul, of limit ?s rtext] over by (simp add: j_def Let_def)
      show ?thesis
      proof (cases "j = 0")
        case True
        then show ?thesis using cp stopped by simp
      next
        case False
        have "j < length c" using over c by (cases c) (auto simp: j_def utf8_character_def)
        then have b: "drop j c = c ! j # drop (Suc j) c" "c ! j \<in> set (tl c)"
          using False nth_mem [of "j - 1" "tl c"] Cons_nth_drop_Suc [of j c]
          by (simp, cases c) (auto simp: gr0_conv_Suc)
        then have "continuation_byte (c ! j)" using c by (auto simp: utf8_character_def list_all_iff)
        then have "finish_statement (copy_statement limit (concat (c # cs)) rtext) = rev rtext"
          using trim_partial_character [OF c, of j rtext] False unfolding cp b finish_statement_def by simp
        then show ?thesis by (intro exI [of _ 0]) simp
      qed
    qed
  qed
qed

lemma copy_statement_bounded:
  assumes "length rtext \<le> limit" and "CHR 0x00 \<notin> set rtext"
  shows "length (fst (copy_statement limit s rtext)) \<le> limit \<and> CHR 0x00 \<notin> set (fst (copy_statement limit s rtext))"
  using assms by (induction limit s rtext rule: copy_statement.induct) auto

lemma trim_partial_subset: "length (trim_partial r) \<le> length r \<and> set (trim_partial r) \<subseteq> set r"
proof (cases "dropWhile continuation_byte r")
  case Nil
  show ?thesis unfolding trim_partial_def Nil by simp
next
  case (Cons c t)
  then have "r = takeWhile continuation_byte r @ c # t"
    using takeWhile_dropWhile_id [of continuation_byte r] by simp
  then have "length t \<le> length r" "set t \<subseteq> set r"
    by (metis le_add2 length_append length_Cons le_SucI add_Suc_right, metis set_append set_subset_Cons Un_upper2 order_trans)
  with Cons show ?thesis by (simp add: trim_partial_def)
qed

lemma statement_text_finish: "statement_text limit s = finish_statement (copy_statement limit s [])"
  by (simp add: statement_text_def finish_statement_def split_beta)

section \<open>Properties\<close>

text \<open>The logged hash determines the hash: sixteen digits whose reading as a hexadecimal numeral is
  the 64-bit hash itself, so two policies share a logged hash only if the engine hashes their
  canonical texts alike.\<close>

lemma HashText_faithful:
  "length (HashText hash t) = 16 \<and> hex_value (HashText hash t) = unat (hash t) \<and>
   (HashText hash t = HashText hash u \<longleftrightarrow> hash t = hash u)"
proof -
  have v: "hex_value (HashText hash x) = unat (hash x)" for x
  proof -
    have "unat (hash x) < 2 ^ LENGTH(64)" by (rule unsigned_less)
    then show ?thesis by (simp add: HashText_def hex_loop_value)
  qed
  have "HashText hash t = HashText hash u \<longleftrightarrow> hash t = hash u"
    using v [of t] v [of u] by (metis HashText_def unsigned_word_eqI)
  with v [of t] show ?thesis by (simp add: HashText_def length_hex_loop)
qed

text \<open>C32. A logged statement is bounded, never contains NUL and is never cut inside a character: for
  UTF-8 text it is a prefix of whole characters, with each NUL replaced by U+FFFD.\<close>

theorem statement_text_safe:
  "length (statement_text limit s) \<le> limit \<and> CHR 0x00 \<notin> set (statement_text limit s) \<and>
   (list_all utf8_character cs \<longrightarrow>
      (\<exists>n. statement_text limit (concat cs) = concat (map logged_character (take n cs))))"
proof -
  have "length (fst (copy_statement limit s [])) \<le> limit \<and> CHR 0x00 \<notin> set (fst (copy_statement limit s []))"
    by (rule copy_statement_bounded) simp_all
  then have "length (statement_text limit s) \<le> limit \<and> CHR 0x00 \<notin> set (statement_text limit s)"
    using trim_partial_subset [of "fst (copy_statement limit s [])"]
    unfolding statement_text_finish finish_statement_def by auto
  moreover have "list_all utf8_character cs \<longrightarrow>
      (\<exists>n. statement_text limit (concat cs) = concat (map logged_character (take n cs)))"
    using copy_statement_aligned [of cs limit "[]"] unfolding statement_text_finish by simp
  ultimately show ?thesis by simp
qed

theorem statement_text_safe_witness:
  "list_all utf8_character [''a'', [CHR 0xC3, CHR 0xA9], [CHR 0x00]] \<and>
   (\<exists>n. statement_text 2 (concat [''a'', [CHR 0xC3, CHR 0xA9], [CHR 0x00]]) =
      concat (map logged_character (take n [''a'', [CHR 0xC3, CHR 0xA9], [CHR 0x00]])))"
proof -
  have h: "list_all utf8_character [''a'', [CHR 0xC3, CHR 0xA9], [CHR 0x00]]" by code_simp
  show ?thesis
    using h statement_text_safe [of 2 "[]" "[''a'', [CHR 0xC3, CHR 0xA9], [CHR 0x00]]"] by blast
qed

text \<open>A denied result reports no evidence: whatever objects and functions the checks had recorded,
  the value shown to the caller is the same, while an allowed result lists every recorded identity.\<close>

lemma ResultValue_evidence:
  "(\<not> r_allowed r \<longrightarrow> ResultValue (r\<lparr>r_objects := os, r_functions := fs, r_caller_objects := cobjs,
      r_caller_functions := cfs\<rparr>) = ResultValue r) \<and>
   (r_allowed r \<longrightarrow> StructValue_GetChildren (ResultValue r) ! 6 =
      VList (T_STRUCT (IdentityType True)) (map (IdentityValue True) (r_objects r)) \<and>
    StructValue_GetChildren (ResultValue r) ! 7 =
      VList (T_STRUCT (IdentityType False)) (map (IdentityValue False) (r_functions r))) \<and>
   well_typed (ResultValue r)"
  by (auto simp: ResultValue_def IdentityValues_def ResultType_def ViolationValue_def IdentityValue_def
      ViolationType_def IdentityType_def PathValue_def PositionValue_def list_all_iff)

text \<open>
  \<open>Decide\<close> refuses exactly the denied decisions of enforcing sites, with the permission error that
  carries the denial message; whether or not it refuses, the decision is recorded first when its level
  is logged. A sink that refuses the record ends the decision with the sink's own error.
\<close>

lemma Write_cases:
  obtains (silent) "\<not> ae_should_log ae level" and "Write ae level event fds records = (None, records)"
  | (refused) e entry where "ae_should_log ae level" and "ae_sink ae entry = Some e"
      and "Write ae level event fds records = (Some e, records)"
  | (written) entry where "ae_should_log ae level" and "lr_level entry = level" and "lr_fields entry = fds"
      and "Write ae level event fds records = (None, records @ [entry])"
proof (cases "ae_should_log ae level")
  case True
  let ?entry = "\<lparr>lr_level = level, lr_event = event, lr_fields = fds, lr_context = logging_context ae\<rparr>"
  show ?thesis
    using True refused [of ?entry] written [of ?entry] by (cases "ae_sink ae ?entry") (simp_all add: Write_def Let_def)
qed (use silent in \<open>simp add: Write_def\<close>)

lemma Decide_None_iff:
  "fst (Decide ae site r records) = None \<longleftrightarrow>
     fst (Write ae (if r_allowed r then LOG_DEBUG else LOG_INFO) ''decision'' (decision_fields ae site r) records) = None \<and>
     (r_allowed r \<or> site_mode site \<noteq> ENFORCE)"
  by (simp add: Decide_def seqO_def split: prod.splits option.splits)

lemma Decide_log:
  "snd (Decide ae site r records) =
     snd (Write ae (if r_allowed r then LOG_DEBUG else LOG_INFO) ''decision'' (decision_fields ae site r) records)"
  by (simp add: Decide_def seqO_def split: prod.splits option.splits)

lemma Decide_error:
  assumes "fst (Decide ae site r records) = Some e"
  shows "\<not> r_allowed r \<and> site_mode site = ENFORCE \<and> e = PermissionException (DenialMessage r) \<or> (\<exists>entry. ae_sink ae entry = Some e)"
  using assms
  by (cases rule: Write_cases [of ae "if r_allowed r then LOG_DEBUG else LOG_INFO" "''decision''" "decision_fields ae site r" records])
    (auto simp: Decide_def split: if_splits)


lemma PolicyValue_typed: "well_typed (PolicyValue p)"
  by (simp add: PolicyValue_def policy_type_def grant_value_def table_value_def PathValue_def rule_type_def leaf_word_def
      list_all_iff)

lemma ResultValue_typed: "well_typed (ResultValue r)"
  by (auto simp: ResultValue_def IdentityValues_def ResultType_def ViolationValue_def IdentityValue_def
      ViolationType_def IdentityType_def PathValue_def PositionValue_def list_all_iff)

lemma record_fields_typed:
  assumes "type_of mode = T_VARCHAR" "well_typed mode" "type_of boundary = T_VARCHAR" "well_typed boundary"
  shows "well_typed (VStruct GetLogType (record_fields ae event mode boundary result statement policy new_value))"
proof -
  have r: "map type_of (StructValue_GetChildren (ResultValue r)) = map snd ResultType"
    "list_all well_typed (StructValue_GetChildren (ResultValue r))" for r
    using ResultValue_typed [of r] by (simp_all add: ResultValue_def)
  have n: "map type_of (map (\<lambda>(_, t). VNull t) ResultType) = map snd ResultType"
    "list_all well_typed (map (\<lambda>(_, t). VNull t) ResultType)"
    by (simp_all add: ResultType_def)
  show ?thesis
    using assms r n
    by (auto simp: record_fields_def GetLogType_def StatementText_def PolicyHash_def list_all_append split: option.splits)
qed

text \<open>C29. Every value handed to the engine has its declared type at every depth: the row of a result, the
  stored policy, and each record \<open>Decide\<close> or a setting change writes, whatever the decision, the site
  and the engine's hash and rendering, so that the log's records parse back as the log type.\<close>

theorem values_well_typed:
  "well_typed (ResultValue r) \<and> type_of (ResultValue r) = T_STRUCT ResultType \<and>
   well_typed (PolicyValue p) \<and> type_of (PolicyValue p) = T_STRUCT policy_type \<and>
   list_all (\<lambda>entry. well_typed (record_value entry)) (snd (Decide ae site r [])) \<and>
   list_all (\<lambda>entry. well_typed (record_value entry)) (snd (LogSettingChange ae event v policy []))"
proof -
  have b: "type_of (BoundaryName boundary) = T_VARCHAR" "well_typed (BoundaryName boundary)" for boundary
    by (cases boundary; simp)+
  have decided: "well_typed (VStruct GetLogType (record_fields ae event (VVarchar m) (BoundaryName boundary) x y z w))"
    for event m boundary x y z w by (rule record_fields_typed) (simp_all add: b)
  have changed: "well_typed (VStruct GetLogType (record_fields ae event (VNull T_VARCHAR) (VNull T_VARCHAR) x y z w))"
    for event x y z w by (rule record_fields_typed) simp_all
  have t: "type_of (ResultValue r) = T_STRUCT ResultType" "type_of (PolicyValue p) = T_STRUCT policy_type"
    by (simp_all add: ResultValue_def PolicyValue_def)
  show ?thesis
    using decided changed
    by (simp add: ResultValue_typed PolicyValue_typed t Decide_log decision_fields_def LogSettingChange_def Write_def
        record_value_def Let_def del: well_typed.simps split: option.split)
qed

end
