(* ===== verification/Private_Bind.thy ===== *)
theory Private_Bind
  imports Plan_Check Audit_Model
begin

text \<open>
  The private bind of one admitted statement (\<open>src/src/check.cpp\<close>): the catalog-lookup callback the
  binder copies into every child binder, the replacement-scan callback while a validation is in
  progress, and the checks before and after the bind. The engine's binder is the parameter
  \<open>bc_bind\<close>: for a statement and its parameter values it gives the events the callbacks see, in
  order, and how the bind ends. The catalog is the parameter \<open>bc_entry\<close>.
\<close>

section \<open>What the binder reports\<close>

datatype Replacement = NoReplacement | NotTableFunction | NoFunction | ReplacementFunction string

text \<open>
  A registered replacement scan: Gatekeeper's own, a host callback with what it makes of the name, or an
  entry carried into a rebuilt list, which runs the entry it was made from. Gatekeeper's own scan is
  never carried over: the list is rebuilt only where it is not registered yet.
\<close>

datatype ReplacementScan = GatekeeperScan | HostScan "exn + Replacement" | ForwardedScan ReplacementScan

text \<open>A missing name as either engine version presents it: the parts of its path, or its three names.\<close>

record ReplacementScanInput =
  ri_parts :: NamePath
  ri_catalog_name :: string
  ri_schema_name :: string
  ri_table_name :: string
  ri_full_path :: string
  ri_scans :: "ReplacementScan list"
  ri_reader :: "exn + CatalogEntry"
  ri_missing :: "exn option"

definition ReplacementName :: "nat \<Rightarrow> ReplacementScanInput \<Rightarrow> NamePath" where
  "ReplacementName major scan = FoldPath
     (if major \<ge> 2 then ri_parts scan
      else (if ri_catalog_name scan \<noteq> []
            then [ri_catalog_name scan] @ (if ri_schema_name scan \<noteq> [] then [ri_schema_name scan] else [])
            else if ri_schema_name scan \<noteq> [] then [ri_schema_name scan] else []) @ [ri_table_name scan])"

fun join_parts :: "NamePath \<Rightarrow> string \<Rightarrow> string" where
  "join_parts [] path = path"
| "join_parts (part # parts) path =
     (if part = [] then join_parts parts path
      else join_parts parts ((if path \<noteq> [] then path @ ''.'' else path) @ part))"

definition ReplacementPath :: "nat \<Rightarrow> ReplacementScanInput \<Rightarrow> string" where
  "ReplacementPath major scan = (if major \<ge> 2 then join_parts (ri_parts scan) [] else ri_full_path scan)"

text \<open>Binder \<open>n\<close> retrieves an entry, a child binder of \<open>n\<close> is made, a name resolves to no entry.\<close>

datatype bind_event = Retrieve nat CatalogEntry | Inherit nat | Replace ReplacementScanInput

record BindTrace =
  bt_events :: "bind_event list"
  bt_error :: "exn option"
  bt_plan :: "LogicalOperator option"
  bt_unresolved :: bool
  bt_properties :: StatementProperties
  bt_replacements :: "string list"

type_synonym ParameterMap = "(string \<times> Value) list"

record BindContext =
  bc_major :: nat
  bc_inventory :: Inventory
  bc_layers :: Layers
  bc_entry :: "CatalogType \<Rightarrow> string \<Rightarrow> string \<Rightarrow> string \<Rightarrow> exn + CatalogEntry"
  bc_bind :: "SQLStatement \<Rightarrow> ParameterMap option \<Rightarrow> BindTrace"
  bc_split :: "string \<Rightarrow> string list"
  bc_supplies :: "ParameterMap \<Rightarrow> string \<Rightarrow> bool"
  bc_fallback :: "string \<Rightarrow> bool"
  bc_has_variable :: "string \<Rightarrow> bool"
  bc_operator_name :: "LogicalOperatorType \<Rightarrow> string"

text \<open>
  The bind in progress: what it learned, the result, the names admitted through replacement, and the
  trusted and armed flags of every copy of the callback, the oldest first.
\<close>

record BindState =
  bs_provenance :: Provenance
  bs_result :: Result
  bs_authorized :: Names
  bs_callbacks :: "(bool \<times> bool) list"

abbreviation defaults_of :: "BindContext \<Rightarrow> FunctionGrant list" where
  "defaults_of cx \<equiv> inv_defaults (bc_inventory cx)"

definition throw_with :: "Violation \<Rightarrow> string \<Rightarrow> BindState \<Rightarrow> BindState outcome" where
  "throw_with v message st = (Some (PermissionException message), st\<lparr>bs_result := add_violation v (bs_result st)\<rparr>)"

definition learn :: "(Provenance \<Rightarrow> Provenance) \<Rightarrow> BindState \<Rightarrow> BindState" where
  "learn f st = st\<lparr>bs_provenance := f (bs_provenance st)\<rparr>"

definition with_result :: "(Result \<Rightarrow> Result outcome) \<Rightarrow> BindState \<Rightarrow> BindState outcome" where
  "with_result f st = (case f (bs_result st) of (e, r) \<Rightarrow> (e, st\<lparr>bs_result := r\<rparr>))"

definition fetch :: "exn + 'a \<Rightarrow> ('a \<Rightarrow> BindState \<Rightarrow> BindState outcome) \<Rightarrow> BindState \<Rightarrow> BindState outcome" where
  "fetch found f st = (case found of Inl e \<Rightarrow> (Some e, st) | Inr x \<Rightarrow> f x st)"

section \<open>Macro bodies and aggregate dependencies\<close>

definition macro_ast :: "CatalogEntry \<Rightarrow> json" where
  "macro_ast macro = JObj [(''error'', JBool False),
     (''statements'', JArr (case ce_body macro of Some select \<Rightarrow> [select] | None \<Rightarrow> []))]"

definition macro_binding :: "Inventory \<Rightarrow> CatalogEntry \<Rightarrow> BindingPolicy" where
  "macro_binding inventory macro =
     unit_binding (snd (Validate inventory (Some (macro_ast macro)) default_policy (Some empty_binding) None default_limits))"

text \<open>The names, the table references and the dispatch targets a scalar macro's definition writes.\<close>

definition MacroBodyNames :: "Inventory \<Rightarrow> CatalogEntry \<Rightarrow> Names \<Rightarrow> Names" where
  "MacroBodyNames inventory macro names =
     (let body = macro_binding inventory macro
      in ins_all (literal_constructors body) (ins_all (synthesized_functions body) (ins_all (caller_functions body) names)))"

definition MacroBodyTables :: "Inventory \<Rightarrow> CatalogEntry \<Rightarrow> WrittenNames \<Rightarrow> WrittenNames" where
  "MacroBodyTables inventory macro names =
     std_insert_all (\<lambda>x. x) (caller_table_names (macro_binding inventory macro)) names"

definition dependency_name :: "string \<Rightarrow> string" where
  "dependency_name name = (if name = ''min'' then ''arg_min'' else ''arg_max'')"

definition CheckAggregateDependency :: "BindContext \<Rightarrow> string \<Rightarrow> BindState \<Rightarrow> BindState outcome" where
  "CheckAggregateDependency cx name st =
     (if name \<noteq> ''min'' \<and> name \<noteq> ''max'' then (None, st)
      else fetch (bc_entry cx AGGREGATE_FUNCTION_ENTRY [] [] (dependency_name name)) (\<lambda>target st.
        if ce_type target \<noteq> AGGREGATE_FUNCTION_ENTRY \<or> \<not> ce_internal target \<or> ce_catalog target \<noteq> ''system'' \<or>
           ce_schema_path target \<noteq> [''main'']
        then throw_with (function_violation rules_FUNCTION ''implicit aggregate must resolve to an internal system.main entry''
               (ce_catalog target) (ce_schema_path target) (dependency_name name)
               (case FunctionKind (bc_major cx) (ce_type target) of Some k \<Rightarrow> k | None \<Rightarrow> []))
               ''untrusted implicit aggregate'' st
        else (None, learn (\<lambda>pr. pr\<lparr>function_entries := std_insert Identity_key
               (FunctionKey (identity (ce_catalog target) (ce_schema_path target) (ce_name target) ''aggregate''
                  (Some (ce_internal target)))) (function_entries pr)\<rparr>) st)) st)"

definition record_both :: "BindContext \<Rightarrow> Identity \<Rightarrow> BindState \<Rightarrow> BindState" where
  "record_both cx i st =
     (learn (Provenance_RecordFunction i True (bc_major cx)) st)
       \<lparr>bs_result := Result_RecordFunction i True (bs_result st)\<rparr>"

section \<open>The catalog-lookup callback\<close>

definition lookup_object :: "BindContext \<Rightarrow> BindingPolicy \<Rightarrow> bool \<Rightarrow> CatalogEntry \<Rightarrow> BindState \<Rightarrow> (BindState \<times> bool) outcome" where
  "lookup_object cx binding trusted entry st =
     (let c = ce_catalog entry; s = ce_schema_path entry; n = ce_name entry;
          attributable = (CallerNamesObject binding c s n \<or>
            (\<not> trusted \<and> \<not> NamesObject (trusted_table_names (bs_provenance st)) c s n));
          st1 = learn (\<lambda>pr. if attributable
             then pr\<lparr>caller_objects := std_insert Table_key (ObjectKey c s n) (caller_objects pr)\<rparr>
             else pr\<lparr>trusted_objects := std_insert Table_key (ObjectKey c s n) (trusted_objects pr)\<rparr>) st;
          (e, st2) = with_result (AuthorizeObject (defaults_of cx) (bc_major cx) (bc_layers cx) binding entry attributable) st1
      in (e, st2, e = None \<and> \<not> trusted \<and> ce_type entry = VIEW_ENTRY \<and> (\<not> ce_internal entry \<or> \<not> attributable)))"

definition lookup_attributable :: "BindingPolicy \<Rightarrow> bool \<Rightarrow> string \<Rightarrow> Provenance \<Rightarrow> bool" where
  "lookup_attributable binding trusted canonical pr \<longleftrightarrow>
     \<not> trusted \<and> \<not> (canonical \<in> set (trusted_names pr) \<and> \<not> CallerCanName pr binding canonical)"

definition lookup_binding :: "BindingPolicy \<Rightarrow> string \<Rightarrow> Provenance \<Rightarrow> BindingPolicy" where
  "lookup_binding binding canonical pr =
     (if canonical \<in> set (caller_expansions pr) \<or> canonical \<in> set (replacement_functions pr)
      then (let b = binding\<lparr>system_functions := caller_expansions pr\<rparr>
            in if canonical \<in> set (replacement_functions pr)
               then b\<lparr>caller_functions := ins canonical (caller_functions b)\<rparr> else b)
      else binding)"

definition mutable_implementation :: "nat \<Rightarrow> CatalogEntry \<Rightarrow> bool" where
  "mutable_implementation major entry \<longleftrightarrow>
     (ce_type entry = SCALAR_FUNCTION_ENTRY \<and>
        list_ex (\<lambda>ov. if major \<ge> 2 then ov_bind_expression ov
                      else ov_bind ov \<or> ov_bind_extended ov \<or> ov_bind_expression ov) (ce_overloads entry)) \<or>
     (major < 2 \<and> ce_type entry = AGGREGATE_FUNCTION_ENTRY \<and> list_ex ov_bind (ce_overloads entry))"

definition system_main :: "CatalogEntry \<Rightarrow> bool" where
  "system_main entry \<longleftrightarrow> ce_catalog entry = ''system'' \<and> ce_schema_path entry = [''main'']"

definition dispatch_target :: "BindContext \<Rightarrow> string \<Rightarrow> BindState \<Rightarrow> BindState outcome" where
  "dispatch_target cx name st =
     fetch (bc_entry cx AGGREGATE_FUNCTION_ENTRY ''system'' ''main'' name) (\<lambda>target st.
       if ce_type target \<noteq> AGGREGATE_FUNCTION_ENTRY
       then (Some (BinderException ''List aggregate target is not an aggregate''), st)
       else (let i = identity ''system'' [''main''] name ''aggregate'' (Some (ce_internal target))
             in if \<not> Layers_All (\<lambda>p. FunctionAllowed (defaults_of cx) p i) (bc_layers cx)
                then throw_with (function_violation rules_FUNCTION ''dispatched aggregate is not allowed'' (i_catalog i)
                       (i_schema_path i) (i_name i) (i_type i)) ''dispatched aggregate is not allowed'' st
                else seqO (CheckAggregateDependency cx name st) (\<lambda>st. (None, record_both cx i st)))) st"

definition lookup_dispatcher :: "BindContext \<Rightarrow> BindingPolicy \<Rightarrow> bool \<Rightarrow> CatalogEntry \<Rightarrow> BindState \<Rightarrow> BindState outcome" where
  "lookup_dispatcher cx binding attributable entry st =
     (let canonical = Lower (ce_name entry)
      in if attributable \<and> ce_type entry = SCALAR_FUNCTION_ENTRY \<and> canonical \<in> set DispatchingAggregators \<and>
            canonical \<in> set (caller_dispatchers binding) \<and> system_main entry
         then if canonical \<in> set (unsupported_dispatchers binding)
              then throw_with (function_violation rules_BIND_TIME_EXPRESSION
                     ''aggregate dispatch requires an unqualified positional call and literal aggregate name'' ''system''
                     [''main''] canonical ''scalar'') ''unsupported aggregate dispatch'' st
              else case map_of (dispatcher_targets_by_name binding) canonical of
                  None \<Rightarrow> (Some (BinderException ''Missing aggregate dispatch targets''), st)
                | Some targets \<Rightarrow> seqO (foldO (dispatch_target cx) targets st) (\<lambda>st.
                    (None, learn (\<lambda>pr. pr\<lparr>authorized_dispatchers := ins canonical (authorized_dispatchers pr)\<rparr>) st))
         else (None, st))"

definition expansion_target :: "BindContext \<Rightarrow> string \<Rightarrow> BindState \<Rightarrow> BindState outcome" where
  "expansion_target cx name st =
     fetch (bc_entry cx AGGREGATE_FUNCTION_ENTRY ''system'' ''main'' name) (\<lambda>target st.
       if ce_type target \<noteq> AGGREGATE_FUNCTION_ENTRY
       then (Some (BinderException ''List aggregate target is not an aggregate''), st)
       else (let selected = identity ''system'' [''main''] name ''aggregate'' (Some (ce_internal target));
                 i = identity (ce_catalog target) (ce_schema_path target) (ce_name target) ''aggregate''
                       (Some (ce_internal target))
             in if \<not> Layers_All (\<lambda>p. \<not> FunctionBlocked p selected \<and>
                     (defaults p \<and> i_internal selected = Some True \<or> FunctionAllowed (defaults_of cx) p selected)) (bc_layers cx)
                then throw_with (function_violation rules_FUNCTION ''default macro aggregate is not allowed'' (i_catalog selected)
                       (i_schema_path selected) (i_name selected) (i_type selected)) ''default macro aggregate is not allowed'' st
                else seqO (CheckAggregateDependency cx name
                       (learn (\<lambda>pr. pr\<lparr>caller_expansion_targets := ins name (caller_expansion_targets pr)\<rparr>) st))
                     (\<lambda>st. (None, record_both cx i st)))) st"

definition lookup_macro :: "BindContext \<Rightarrow> bool \<Rightarrow> CatalogEntry \<Rightarrow> BindState \<Rightarrow> BindState outcome" where
  "lookup_macro cx attributable entry st =
     (if ce_type entry \<noteq> MACRO_ENTRY then (None, st)
      else if \<not> ce_internal entry \<or> \<not> attributable
      then (None, learn (\<lambda>pr. pr\<lparr>trusted_names := MacroBodyNames (bc_inventory cx) entry (trusted_names pr),
              trusted_table_names := MacroBodyTables (bc_inventory cx) entry (trusted_table_names pr)\<rparr>) st)
      else foldO (expansion_target cx) (dispatcher_targets (macro_binding (bc_inventory cx) entry))
             (learn (\<lambda>pr. pr\<lparr>caller_expansions := MacroBodyNames (bc_inventory cx) entry (caller_expansions pr)\<rparr>) st))"

text \<open>What follows authorization of a function entry, up to the arming of the callback.\<close>

definition lookup_effects :: "BindContext \<Rightarrow> BindingPolicy \<Rightarrow> bool \<Rightarrow> CatalogEntry \<Rightarrow> string \<Rightarrow> BindState \<Rightarrow> BindState outcome" where
  "lookup_effects cx binding attributable entry kind st =
     (let canonical = Lower (ce_name entry);
          source = identity (ce_catalog entry) (ce_schema_path entry) canonical kind (Some (ce_internal entry))
      in if attributable \<and> \<not> SystemIdentity source \<and> mutable_implementation (bc_major cx) entry
         then throw_with (function_violation rules_UNSUPPORTED_STRUCTURE
                ''native function callback cannot retain definition provenance'' (i_catalog source) (i_schema_path source)
                (i_name source) (i_type source)) ''untrackable native function bind callback'' st
         else if attributable \<and> kind = ''aggregate'' \<and> SystemIdentity source \<and> canonical \<in> set (unsupported_quantiles binding)
         then throw_with (function_violation rules_BIND_TIME_EXPRESSION
                ''quantile fraction/options require literals or bindable parameters in an unqualified positional call''
                (i_catalog source) (i_schema_path source) (i_name source) (i_type source)) ''unsupported quantile arguments'' st
         else seqO (lookup_dispatcher cx binding attributable entry
                     (learn (Provenance_RecordFunction source attributable (bc_major cx)) st)) (\<lambda>st.
              let st1 = (if attributable then learn (\<lambda>pr. pr\<lparr>caller_lookups := ins canonical (caller_lookups pr)\<rparr>) st else st)
              in if attributable \<and> ce_type entry = AGGREGATE_FUNCTION_ENTRY \<and> system_main entry
                 then CheckAggregateDependency cx canonical st1 else (None, st1)))"

definition arms :: "bool \<Rightarrow> CatalogEntry \<Rightarrow> bool" where
  "arms attributable entry \<longleftrightarrow>
     ce_type entry = TABLE_MACRO_ENTRY \<and> (\<not> ce_internal entry \<or> \<not> attributable) \<or>
     ce_type entry = TABLE_FUNCTION_ENTRY \<and> \<not> attributable"

definition lookup_function ::
    "BindContext \<Rightarrow> BindingPolicy \<Rightarrow> bool \<Rightarrow> CatalogEntry \<Rightarrow> string \<Rightarrow> BindState \<Rightarrow> (BindState \<times> bool) outcome" where
  "lookup_function cx binding trusted entry kind st =
     (let canonical = Lower (ce_name entry);
          attributable = lookup_attributable binding trusted canonical (bs_provenance st);
          (e, st1) = seqO (with_result (AuthorizeObject (defaults_of cx) (bc_major cx) (bc_layers cx)
              (lookup_binding binding canonical (bs_provenance st)) entry attributable) st)
            (lookup_effects cx binding attributable entry kind)
      in if e \<noteq> None \<or> trusted then (e, st1, False)
         else (let (e2, st2) = lookup_macro cx attributable entry st1 in (e2, st2, arms attributable entry)))"

text \<open>The callback itself: the outcome, and whether it armed the copy that made the lookup.\<close>

definition LookupCallback :: "BindContext \<Rightarrow> BindingPolicy \<Rightarrow> bool \<Rightarrow> CatalogEntry \<Rightarrow> BindState \<Rightarrow> (BindState \<times> bool) outcome" where
  "LookupCallback cx binding trusted entry st =
     (case FunctionKind (bc_major cx) (ce_type entry) of
        None \<Rightarrow> if is_object entry then lookup_object cx binding trusted entry st else (None, st, False)
      | Some kind \<Rightarrow> lookup_function cx binding trusted entry kind st)"

section \<open>Replacement scans during a validation\<close>

datatype Resolution = Unclaimed | ResolvedFunction string | UnsupportedResolution string

text \<open>The host's callbacks in the engine's order, Gatekeeper's own skipped; the first to answer ends the loop.\<close>

fun ResolveHostReplacement :: "string \<Rightarrow> ReplacementScan list \<Rightarrow> exn + Resolution" where
  "ResolveHostReplacement path [] = Inr Unclaimed"
| "ResolveHostReplacement path (GatekeeperScan # scans) = ResolveHostReplacement path scans"
| "ResolveHostReplacement path (ForwardedScan scan # scans) = ResolveHostReplacement path (scan # scans)"
| "ResolveHostReplacement path (HostScan answer # scans) =
     (case answer of
        Inl e \<Rightarrow> Inl e
      | Inr NoReplacement \<Rightarrow> ResolveHostReplacement path scans
      | Inr NotTableFunction \<Rightarrow>
          Inr (UnsupportedResolution (''host-language replacement scan cannot be authorized: '' @ path))
      | Inr NoFunction \<Rightarrow> Inr (UnsupportedResolution (''replacement scan has no resolvable function: '' @ path))
      | Inr (ReplacementFunction name) \<Rightarrow> Inr (ResolvedFunction name))"

definition replacement_violation :: "string \<Rightarrow> string \<Rightarrow> string \<Rightarrow> string \<Rightarrow> Violation" where
  "replacement_violation rule message path function =
     (violation rule message)\<lparr>v_table := path, v_function_name := function\<rparr>"

text \<open>The reader against each layer, into a result of its own.\<close>

definition authorize_reader ::
    "FunctionGrant list \<Rightarrow> nat \<Rightarrow> Policy list \<Rightarrow> BindingPolicy \<Rightarrow> string \<Rightarrow> CatalogEntry \<Rightarrow> bool \<Rightarrow> Result outcome" where
  "authorize_reader inventory major layers binding canonical entry caller_written =
     foldO (\<lambda>layer. AuthorizeObject inventory major \<lparr>ceiling_layer = layer, request_layer = layer\<rparr>
         (binding\<lparr>caller_functions := ins canonical (caller_functions binding)\<rparr>) entry caller_written) layers empty_result"

definition admit_reader :: "BindContext \<Rightarrow> ReplacementScanInput \<Rightarrow> string \<Rightarrow> bool \<Rightarrow> Result \<Rightarrow> BindState \<Rightarrow> BindState" where
  "admit_reader cx scan canonical caller_written reader st =
     (let r = bs_result st;
          r1 = r\<lparr>r_functions := std_insert_all Identity_key (r_functions reader) (r_functions r),
                 r_caller_functions := std_insert_all Identity_key (r_caller_functions reader) (r_caller_functions r),
                 r_objects := std_insert Identity_key (identity [] [] (ReplacementPath (bc_major cx) scan) ''replacement'' None) (r_objects r)\<rparr>;
          pr = fold (\<lambda>i. Provenance_RecordFunction i caller_written (bc_major cx)) (r_functions reader) (bs_provenance st);
          pr1 = (if caller_written then pr\<lparr>replacement_functions := ins canonical (replacement_functions pr)\<rparr> else pr)
      in st\<lparr>bs_result := r1, bs_provenance := pr1, bs_authorized := ins (Lower (ri_table_name scan)) (bs_authorized st)\<rparr>)"

definition eligible_reader :: "BindContext \<Rightarrow> ReplacementScanInput \<Rightarrow> string \<Rightarrow> bool \<Rightarrow> Policy \<Rightarrow> BindState \<Rightarrow> BindState outcome" where
  "eligible_reader cx scan name caller_written layer st =
     (if caller_written \<and> \<not> FunctionEligible (defaults_of cx) layer name
      then throw_with (replacement_violation rules_FUNCTION (''replacement scan function is not allowed: '' @ Lower name)
             (ReplacementPath (bc_major cx) scan) (Lower name)) ''replacement scan is not allowed'' st
      else (None, st))"

fun permission_error :: "exn \<Rightarrow> bool" where
  "permission_error (EngineError t _ _) \<longleftrightarrow> t = ET_PERMISSION"
| "permission_error _ \<longleftrightarrow> False"

definition resolved_reader :: "BindContext \<Rightarrow> BindingPolicy \<Rightarrow> ReplacementScanInput \<Rightarrow> string \<Rightarrow> bool \<Rightarrow> BindState \<Rightarrow> BindState outcome" where
  "resolved_reader cx binding scan name caller_written st =
     (let layers = [ceiling_layer (bc_layers cx), request_layer (bc_layers cx)]
      in seqO (foldO (eligible_reader cx scan name caller_written) layers st)
           (fetch (ri_reader scan) (\<lambda>entry st.
              case authorize_reader (defaults_of cx) (bc_major cx) layers binding (Lower name) entry caller_written of
                (None, reader) \<Rightarrow> (None, admit_reader cx scan (Lower name) caller_written reader st)
              | (Some e, reader) \<Rightarrow>
                  (Some e, if permission_error e
                     then st\<lparr>bs_result := (bs_result st)\<lparr>r_violations :=
                       std_insert_all Violation_key (r_violations reader) (r_violations (bs_result st))\<rparr>\<rparr>
                     else st))))"

definition ReplacementInScope :: "BindContext \<Rightarrow> BindingPolicy \<Rightarrow> ReplacementScanInput \<Rightarrow> BindState \<Rightarrow> BindState outcome" where
  "ReplacementInScope cx binding scan st =
     (let caller_written = (ReplacementName (bc_major cx) scan \<in> set (caller_table_names binding))
      in fetch (ResolveHostReplacement (ReplacementPath (bc_major cx) scan) (ri_scans scan)) (\<lambda>resolution st.
           case resolution of
             UnsupportedResolution reason \<Rightarrow>
               throw_with (replacement_violation rules_REPLACEMENT_SCAN reason (ReplacementPath (bc_major cx) scan) [])
                 ''replacement scan is not allowed'' st
           | ResolvedFunction name \<Rightarrow> resolved_reader cx binding scan name caller_written st
           | Unclaimed \<Rightarrow>
               (Some (case ri_missing scan of Some e \<Rightarrow> e | None \<Rightarrow>
                  BinderException (''Table \"'' @ ReplacementPath (bc_major cx) scan @ ''\" appeared during binding; retry the statement'')), st)) st)"

section \<open>The events of a bind\<close>

fun run_event :: "BindContext \<Rightarrow> BindingPolicy \<Rightarrow> bind_event \<Rightarrow> BindState \<Rightarrow> BindState outcome" where
  "run_event cx binding (Retrieve n entry) st =
     (if n < length (bs_callbacks st) then
        (let (trusted, armed) = bs_callbacks st ! n;
             (e, st1, arming) = LookupCallback cx binding trusted entry st
         in (e, st1\<lparr>bs_callbacks := (bs_callbacks st)[n := (trusted, armed \<or> arming)]\<rparr>))
      else (None, st))"
| "run_event cx binding (Inherit n) st =
     (if n < length (bs_callbacks st) then
        (let (trusted, armed) = bs_callbacks st ! n
         in (None, st\<lparr>bs_callbacks := (bs_callbacks st)[n := (trusted, False)] @ [(trusted \<or> armed, False)]\<rparr>))
      else (None, st))"
| "run_event cx binding (Replace scan) st = ReplacementInScope cx binding scan st"

definition start_bind :: "Provenance \<Rightarrow> Result \<Rightarrow> BindState" where
  "start_bind pr r = \<lparr>bs_provenance = pr, bs_result = r, bs_authorized = [], bs_callbacks = [(False, False)]\<rparr>"

section \<open>Authorization of one statement\<close>

definition getvariable :: Identity where
  "getvariable = identity ''system'' [''main''] ''getvariable'' ''scalar'' (Some True)"

definition check_fallback ::
    "BindContext \<Rightarrow> ParameterMap option \<Rightarrow> bool \<Rightarrow> string \<times> int \<Rightarrow> Result \<Rightarrow> Result outcome" where
  "check_fallback cx supplied provenance_known parameter r =
     (if provenance_known \<and> (case supplied of Some m \<Rightarrow> bc_supplies cx m (fst parameter) | None \<Rightarrow> False) then (None, r)
      else if \<not> bc_fallback cx (fst parameter) \<or> \<not> bc_has_variable cx (fst parameter) then (None, r)
      else seqO (Layers_Each (\<lambda>policy r.
             if \<not> FunctionAllowed (defaults_of cx) policy getvariable
             then deny_with ((function_violation rules_FUNCTION
                    ''session-variable fallback requires system.main.getvariable permission'' ''system'' [''main'']
                    ''getvariable'' ''scalar'')\<lparr>v_position := snd parameter\<rparr>) ''named parameter fallback is not allowed'' r
             else (None, r)) (bc_layers cx) r)
           (\<lambda>r. (None, Result_RecordFunction getvariable True r)))"

definition CheckParameterFallbacks ::
    "BindContext \<Rightarrow> BindingPolicy \<Rightarrow> ParameterMap option \<Rightarrow> bool \<Rightarrow> Result \<Rightarrow> Result outcome" where
  "CheckParameterFallbacks cx binding supplied provenance_known r =
     (if bc_major cx \<ge> 2
      then foldO (check_fallback cx supplied provenance_known) (caller_parameters binding) r else (None, r))"

definition plain_collations :: Names where
  "plain_collations = [[], ''binary'', ''c'', ''posix'']"

definition learn_collation :: "BindContext \<Rightarrow> string \<Rightarrow> Provenance \<Rightarrow> Provenance outcome" where
  "learn_collation cx part pr =
     (case bc_entry cx COLLATION_ENTRY ''system'' ''main'' part of
        Inl e \<Rightarrow> (Some e, pr)
      | Inr entry \<Rightarrow>
          if ce_type entry \<noteq> COLLATION_ENTRY then (Some (BinderException ''Unknown collation implementation''), pr)
          else (let name = Lower (ce_collation_function entry)
                in (None, pr\<lparr>collation_functions := ins name (collation_functions pr),
                      function_entries := std_insert Identity_key
                        (FunctionKey (identity ''system'' [''main''] name ''scalar'' (Some (ce_internal entry))))
                        (function_entries pr)\<rparr>)))"

definition learn_collations :: "BindContext \<Rightarrow> BindingPolicy \<Rightarrow> Provenance \<Rightarrow> Provenance outcome" where
  "learn_collations cx binding pr =
     foldO (learn_collation cx)
       (concat (map (bc_split cx) (filter (\<lambda>c. c \<notin> set plain_collations) (caller_collation_names binding)))) pr"

definition replacement_backstop :: "Names \<Rightarrow> string list \<Rightarrow> Result \<Rightarrow> Result" where
  "replacement_backstop admitted replacements r =
     fold (\<lambda>path r. if Lower path \<in> set admitted then r
        else add_violation (replacement_violation rules_REPLACEMENT_SCAN (''replacement scan was not authorized: '' @ path)
               path []) r) replacements r"

text \<open>After the bind: a complete plan, the execution boundary on it, the backstop for replacements.\<close>

definition finish_statement_bind ::
    "BindContext \<Rightarrow> BindTrace \<Rightarrow> Unit \<Rightarrow> BindState \<Rightarrow> exn option \<times> Unit \<times> Result" where
  "finish_statement_bind cx trace unit st =
     (let unit1 = unit\<lparr>u_provenance := bs_provenance st\<rparr>
      in case bt_plan trace of
           None \<Rightarrow> (Some (BinderException PARAMETERS_REQUIRED), unit1, bs_result st)
         | Some plan \<Rightarrow>
             if bt_unresolved trace then (Some (BinderException PARAMETERS_REQUIRED), unit1, bs_result st)
             else (case CheckPlan (bc_operator_name cx) (defaults_of cx) (bc_major cx) (bc_layers cx) PRIVATE
                       (bt_properties trace) plan unit1 (bs_result st) of
                 (Some e, unit2, r) \<Rightarrow> (Some e, unit2, r)
               | (None, unit2, r) \<Rightarrow>
                   (let r1 = replacement_backstop (bs_authorized st) (bt_replacements trace) r
                    in (if r_violations r1 \<noteq> [] then Some (PermissionException ''unauthorized replacement scan'') else None,
                        unit2, r1))))"

definition bind_statement ::
    "BindContext \<Rightarrow> BindTrace \<Rightarrow> Unit \<Rightarrow> Provenance \<Rightarrow> Result \<Rightarrow> exn option \<times> Unit \<times> Result" where
  "bind_statement cx trace unit pr r =
     (case foldO (run_event cx (u_binding unit)) (bt_events trace) (start_bind pr r) of
        (Some e, st) \<Rightarrow> (Some e, unit\<lparr>u_provenance := bs_provenance st\<rparr>, bs_result st)
      | (None, st) \<Rightarrow>
          (case bt_error trace of
             Some e \<Rightarrow> (Some e, unit\<lparr>u_provenance := bs_provenance st\<rparr>, bs_result st)
           | None \<Rightarrow> finish_statement_bind cx trace unit st))"

definition AuthorizeStatement ::
    "BindContext \<Rightarrow> SQLStatement \<Rightarrow> ParameterMap option \<Rightarrow> Unit \<Rightarrow> Result \<Rightarrow> exn option \<times> Unit \<times> Result" where
  "AuthorizeStatement cx statement parameters unit r =
     (case CheckParameterFallbacks cx (u_binding unit) parameters True r of
        (Some e, r1) \<Rightarrow> (Some e, unit, r1)
      | (None, r1) \<Rightarrow>
          (case learn_collations cx (u_binding unit) (u_provenance unit) of
             (Some e, pr) \<Rightarrow> (Some e, unit\<lparr>u_provenance := pr\<rparr>, r1)
           | (None, pr) \<Rightarrow> bind_statement cx (bc_bind cx statement parameters) unit pr r1))"

section \<open>What a bind never takes back\<close>

text \<open>
  What the callbacks learn stays learned, and what they record stays recorded: the implementations, lookups
  and objects of either side only grow, and no callback makes a statement count as not bound privately.
\<close>

definition provenance_le :: "Provenance \<Rightarrow> Provenance \<Rightarrow> bool" where
  "provenance_le pr pr' \<longleftrightarrow>
     keys_within (caller_implementations pr) (caller_implementations pr') \<and>
     keys_within (trusted_implementations pr) (trusted_implementations pr') \<and>
     set (caller_lookups pr) \<subseteq> set (caller_lookups pr') \<and> set (caller_objects pr) \<subseteq> set (caller_objects pr') \<and>
     set (trusted_objects pr) \<subseteq> set (trusted_objects pr') \<and> unattributed pr' = unattributed pr"

definition learned :: "BindState \<Rightarrow> BindState \<Rightarrow> bool" where
  "learned st st' \<longleftrightarrow> provenance_le (bs_provenance st) (bs_provenance st') \<and> evidence_le (bs_result st) (bs_result st')"

interpretation knowledge: step_order provenance_le
proof
  show "provenance_le pr pr" for pr by (simp add: provenance_le_def)
  show "provenance_le pr pr2" if "provenance_le pr pr1" and "provenance_le pr1 pr2" for pr pr1 pr2
    using that unfolding provenance_le_def by (elim conjE, intro conjI) (auto intro: keys_within_order)
qed

interpretation binding: step_order learned
proof
  show "learned st st" for st by (simp add: learned_def knowledge.le_refl evidence.le_refl)
  show "learned st st2" if "learned st st1" and "learned st1 st2" for st st1 st2
    using that knowledge.le_trans evidence.le_trans unfolding learned_def by blast
qed

lemma provenance_le_record: "provenance_le pr (Provenance_RecordFunction i caller major pr)"
  by (auto simp: provenance_le_def Provenance_RecordFunction_def keys_within_def Let_def)

lemma provenance_le_update:
  "provenance_le pr (pr\<lparr>function_entries := es\<rparr>)" "provenance_le pr (pr\<lparr>authorized_dispatchers := ns\<rparr>)"
  "provenance_le pr (pr\<lparr>caller_lookups := ins n (caller_lookups pr)\<rparr>)"
  "provenance_le pr (pr\<lparr>caller_objects := std_insert Table_key k (caller_objects pr)\<rparr>)"
  "provenance_le pr (pr\<lparr>trusted_objects := std_insert Table_key k (trusted_objects pr)\<rparr>)"
  "provenance_le pr (pr\<lparr>trusted_names := ns, trusted_table_names := ts\<rparr>)"
  "provenance_le pr (pr\<lparr>caller_expansions := ns\<rparr>)" "provenance_le pr (pr\<lparr>caller_expansion_targets := ns\<rparr>)"
  "provenance_le pr (pr\<lparr>replacement_functions := ns\<rparr>)"
  by (auto simp: provenance_le_def)

lemma learned_learn: "provenance_le (bs_provenance st) (f (bs_provenance st)) \<Longrightarrow> learned st (learn f st)"
  by (simp add: learned_def learn_def evidence.le_refl)

lemma learned_with_result: "contract f \<Longrightarrow> learned st (snd (with_result f st))"
  by (auto simp: learned_def with_result_def contract_def knowledge.le_refl split: prod.splits)
     (metis snd_conv)

lemma learned_throw: "learned st (snd (throw_with v m st))"
  by (simp add: learned_def throw_with_def knowledge.le_refl gate_wf)

lemma learned_fetch: "(\<And>x. learned st (snd (f x st))) \<Longrightarrow> learned st (snd (fetch found f st))"
  by (simp add: fetch_def binding.le_refl split: sum.splits)

lemma learned_fail: "learned st (snd (e, st))"
  by (simp add: binding.le_refl)

lemma learned_record_both: "learned st (record_both cx i st)"
  by (simp add: learned_def record_both_def learn_def provenance_le_record gate_wf)

lemma learned_AuthorizeObject:
  "learned st (snd (with_result (AuthorizeObject inventory major layers binding entry attributable) st))"
  unfolding AuthorizeObject_def by (intro learned_with_result object_authorizer.layers_contract)

lemmas learned_intros = learned_learn learned_throw learned_fetch learned_fail learned_record_both learned_AuthorizeObject
  provenance_le_record provenance_le_update binding.seqO_le binding.foldO_le

lemma learned_dependency: "learned st (snd (CheckAggregateDependency cx name st))"
  unfolding CheckAggregateDependency_def
  by (auto intro!: learned_fetch learned_throw learned_learn provenance_le_update simp: binding.le_refl)

lemma learned_dispatch: "learned st (snd (dispatch_target cx name st))"
  unfolding dispatch_target_def Let_def
  by (rule learned_fetch)
     (auto intro!: learned_throw binding.seqO_le learned_dependency learned_record_both simp: binding.le_refl)

lemma learned_expansion: "learned st (snd (expansion_target cx name st))"
proof -
  have dep: "learned st (snd (CheckAggregateDependency cx name
      (learn (\<lambda>pr. pr\<lparr>caller_expansion_targets := ins name (caller_expansion_targets pr)\<rparr>) st)))" for st
    by (rule binding.le_trans [OF learned_learn learned_dependency]) (rule provenance_le_update)
  show ?thesis
    unfolding expansion_target_def Let_def
    by (rule learned_fetch) (auto intro!: learned_throw binding.seqO_le dep learned_record_both simp: binding.le_refl)
qed

lemma learned_dispatcher: "learned st (snd (lookup_dispatcher cx binding attributable entry st))"
  unfolding lookup_dispatcher_def Let_def
  by (auto intro!: learned_throw binding.seqO_le binding.foldO_le learned_dispatch learned_learn provenance_le_update
      simp: binding.le_refl split: option.splits)

lemma learned_macro: "learned st (snd (lookup_macro cx attributable entry st))"
proof -
  have "learned st (snd (foldO (expansion_target cx) targets
      (learn (\<lambda>pr. pr\<lparr>caller_expansions := names pr\<rparr>) st)))" for targets names
    by (rule binding.le_trans [OF learned_learn binding.foldO_le [OF learned_expansion]]) (rule provenance_le_update)
  then show ?thesis
    unfolding lookup_macro_def by (auto intro!: learned_learn provenance_le_update simp: binding.le_refl)
qed

lemma learned_ReplacementInScope: "learned st (snd (ReplacementInScope cx binding scan st))"
proof -
  have admit: "learned st (admit_reader cx scan canonical w reader st)" for canonical w reader st
  proof -
    let ?pr = "fold (\<lambda>i. Provenance_RecordFunction i w (bc_major cx)) (r_functions reader) (bs_provenance st)"
    have p: "bs_provenance (admit_reader cx scan canonical w reader st) =
        (if w then ?pr\<lparr>replacement_functions := ins canonical (replacement_functions ?pr)\<rparr> else ?pr)"
      by (simp add: admit_reader_def Let_def)
    have "provenance_le (bs_provenance st) ?pr" by (rule knowledge.fold_le) (rule provenance_le_record)
    then have "provenance_le (bs_provenance st) (bs_provenance (admit_reader cx scan canonical w reader st))"
      unfolding p using knowledge.le_trans provenance_le_update(9) by presburger
    moreover have "evidence_le (bs_result st) (bs_result (admit_reader cx scan canonical w reader st))"
      unfolding evidence_le_def keys_within_def
      by (simp add: admit_reader_def Let_def) blast
    ultimately show ?thesis by (simp add: learned_def)
  qed
  have violations: "learned st (st\<lparr>bs_result := (bs_result st)\<lparr>r_violations :=
      std_insert_all Violation_key vs (r_violations (bs_result st))\<rparr>\<rparr>)" for vs st
    by (auto simp: learned_def knowledge.le_refl evidence_le_def keys_within_def)
  have resolved: "learned st (snd (resolved_reader cx binding scan name w st))" for name w st
    unfolding resolved_reader_def Let_def
    by (auto intro!: binding.seqO_le binding.foldO_le learned_fetch learned_throw admit violations
        simp: eligible_reader_def binding.le_refl split: prod.splits option.splits)
  then show ?thesis
    unfolding ReplacementInScope_def Let_def
    by (auto intro!: learned_fetch learned_throw simp: binding.le_refl split: Resolution.splits)
qed

section \<open>What a lookup enforced\<close>

text \<open>
  Whom a retrieved entry belongs to, at the moment of its lookup. An object is the caller's when the caller's
  text can name it, or when a binder that is not trusted retrieved it and no macro body the statement expanded
  names it. A function is the caller's when a binder that is not trusted retrieved it, unless only a macro
  body wrote its name.
\<close>

definition object_callers :: "BindingPolicy \<Rightarrow> bool \<Rightarrow> Provenance \<Rightarrow> CatalogEntry \<Rightarrow> bool" where
  "object_callers binding trusted pr entry \<longleftrightarrow>
     NamesObject (caller_table_names binding) (ce_catalog entry) (ce_schema_path entry) (ce_name entry) \<or>
     \<not> trusted \<and> \<not> NamesObject (trusted_table_names pr) (ce_catalog entry) (ce_schema_path entry) (ce_name entry)"

definition function_callers :: "BindingPolicy \<Rightarrow> bool \<Rightarrow> Provenance \<Rightarrow> CatalogEntry \<Rightarrow> bool" where
  "function_callers binding trusted pr entry \<longleftrightarrow>
     \<not> trusted \<and> (Lower (ce_name entry) \<notin> set (trusted_names pr) \<or> CallerCanName pr binding (Lower (ce_name entry)))"

text \<open>
  What the lookup left behind, with the binder's trust and what was known before it, in a bind that ended
  knowing \<open>pr'\<close> and with the result \<open>r'\<close>. What is the caller's is within what both layers allow; everything is
  recorded, on the side it belongs to.
\<close>

definition object_enforced ::
    "BindContext \<Rightarrow> BindingPolicy \<Rightarrow> bool \<Rightarrow> Provenance \<Rightarrow> CatalogEntry \<Rightarrow> Provenance \<Rightarrow> Result \<Rightarrow> bool" where
  "object_enforced cx binding trusted pr entry pr' r' \<longleftrightarrow>
     (let own = object_callers binding trusted pr entry;
          key = ObjectKey (ce_catalog entry) (ce_schema_path entry) (ce_name entry);
          i = identity (ce_catalog entry) (ce_schema_path entry) (ce_name entry) (object_kind entry) None
      in \<not> unsupported_quack (bc_major cx) entry \<and>
         (own \<longrightarrow> Layers_All (\<lambda>p. TableAllowed p (ce_catalog entry) (ce_schema_path entry) (ce_name entry) (ce_internal entry))
            (bc_layers cx)) \<and>
         key \<in> set (if own then caller_objects pr' else trusted_objects pr') \<and>
         recorded i (r_objects r') \<and> (own \<longrightarrow> recorded i (r_caller_objects r')))"

definition function_enforced ::
    "BindContext \<Rightarrow> BindingPolicy \<Rightarrow> bool \<Rightarrow> Provenance \<Rightarrow> CatalogEntry \<Rightarrow> string \<Rightarrow> Provenance \<Rightarrow> Result \<Rightarrow> bool" where
  "function_enforced cx binding trusted pr entry kind pr' r' \<longleftrightarrow>
     (let own = function_callers binding trusted pr entry; name = Lower (ce_name entry); i = entry_identity entry kind
      in \<not> ControlPlane (ce_name entry) \<and> \<not> OpaqueQuackFunction (ce_name entry) \<and>
         (own \<longrightarrow> Layers_All (\<lambda>p. \<not> FunctionDenied p i \<and> (SystemIdentity i \<or> FunctionAllowed (defaults_of cx) p i) \<and>
            (name \<in> set (caller_functions binding) \<union> set (replacement_functions pr) \<or>
             name \<in> set (caller_expansions pr) \<and> (\<not> defaults p \<or> \<not> ce_internal entry) \<longrightarrow>
             FunctionAllowed (defaults_of cx) p i)) (bc_layers cx)) \<and>
         (name \<in> set (synthesized_functions binding) \<union> set (literal_constructors binding) \<longrightarrow>
            SystemIdentity i \<and> Layers_All (\<lambda>p. FunctionAllowed (defaults_of cx) p i) (bc_layers cx)) \<and>
         has_identity i (if own then caller_implementations pr' else trusted_implementations pr') \<and>
         (own \<longrightarrow> name \<in> set (caller_lookups pr')) \<and>
         recorded i (r_functions r') \<and> (own \<longrightarrow> recorded i (r_caller_functions r')))"

definition entry_enforced ::
    "BindContext \<Rightarrow> BindingPolicy \<Rightarrow> bool \<Rightarrow> Provenance \<Rightarrow> CatalogEntry \<Rightarrow> Provenance \<Rightarrow> Result \<Rightarrow> bool" where
  "entry_enforced cx binding trusted pr entry pr' r' \<longleftrightarrow>
     (case FunctionKind (bc_major cx) (ce_type entry) of
        Some kind \<Rightarrow> function_enforced cx binding trusted pr entry kind pr' r'
      | None \<Rightarrow> is_object entry \<longrightarrow> object_enforced cx binding trusted pr entry pr' r')"

lemma recorded_le:
  "evidence_le r r' \<Longrightarrow> recorded i (r_objects r) \<Longrightarrow> recorded i (r_objects r')"
  "evidence_le r r' \<Longrightarrow> recorded i (r_functions r) \<Longrightarrow> recorded i (r_functions r')"
  "evidence_le r r' \<Longrightarrow> recorded i (r_caller_objects r) \<Longrightarrow> recorded i (r_caller_objects r')"
  "evidence_le r r' \<Longrightarrow> recorded i (r_caller_functions r) \<Longrightarrow> recorded i (r_caller_functions r')"
  by (auto simp: evidence_le_def keys_within_def recorded_def)

lemma has_identity_keys: "has_identity i es \<longleftrightarrow> Identity_key (FunctionKey i) \<in> Identity_key ` set es"
  by (auto simp: has_identity_def find_identity_def std_find_None)

lemma entry_enforced_later:
  assumes "entry_enforced cx binding trusted pr entry pr1 r1" and "provenance_le pr1 pr2" and "evidence_le r1 r2"
  shows "entry_enforced cx binding trusted pr entry pr2 r2"
proof -
  note le = assms(2) [unfolded provenance_le_def keys_within_def] and rec = recorded_le [OF assms(3)]
  show ?thesis
  proof (cases "FunctionKind (bc_major cx) (ce_type entry)")
    case None
    with assms(1) show ?thesis
      unfolding entry_enforced_def object_enforced_def Let_def using le rec by (auto split: if_splits)
  next
    case (Some kind)
    let ?own = "function_callers binding trusted pr entry" and ?i = "entry_identity entry kind"
    have "has_identity ?i (if ?own then caller_implementations pr1 else trusted_implementations pr1) \<longrightarrow>
        has_identity ?i (if ?own then caller_implementations pr2 else trusted_implementations pr2)"
      using le by (auto simp: has_identity_keys)
    moreover have "Lower (ce_name entry) \<in> set (caller_lookups pr1) \<longrightarrow> Lower (ce_name entry) \<in> set (caller_lookups pr2)"
      using le by blast
    moreover from assms(1) Some have "function_enforced cx binding trusted pr entry kind pr1 r1" by (simp add: entry_enforced_def)
    ultimately have "function_enforced cx binding trusted pr entry kind pr2 r2"
      using rec(2,4) [of ?i] unfolding function_enforced_def Let_def by argo
    with Some show ?thesis by (simp add: entry_enforced_def)
  qed
qed

text \<open>An authorization of one entry that returns, for a table or view and for a function.\<close>

lemma AuthorizeObject_both:
  assumes "AuthorizeObject inventory major layers binding entry attributable r = (None, r')"
  obtains r1 where "AuthorizeObjectAgainst inventory major binding entry attributable (ceiling_layer layers) r = (None, r1)"
    and "AuthorizeObjectAgainst inventory major binding entry attributable (request_layer layers) r1 = (None, r')"
  using assms by (auto simp: AuthorizeObject_def Layers_Each_def seqO_eq_None)

lemma AuthorizeObject_object:
  assumes "AuthorizeObject inventory major layers binding entry attributable r = (None, r')" and "is_object entry"
  shows "\<not> unsupported_quack major entry \<and>
    (attributable \<longrightarrow> Layers_All (\<lambda>p. TableAllowed p (ce_catalog entry) (ce_schema_path entry) (ce_name entry) (ce_internal entry)) layers) \<and>
    (let i = identity (ce_catalog entry) (ce_schema_path entry) (ce_name entry) (object_kind entry) None
     in recorded i (r_objects r') \<and> (attributable \<longrightarrow> recorded i (r_caller_objects r')))"
proof -
  have k: "FunctionKind major (ce_type entry) = None" using assms(2) by (auto simp: is_object_def FunctionKind_def)
  have one: "\<not> unsupported_quack major entry \<and>
      (attributable \<longrightarrow> TableAllowed p (ce_catalog entry) (ce_schema_path entry) (ce_name entry) (ce_internal entry)) \<and>
      (let i = identity (ce_catalog entry) (ce_schema_path entry) (ce_name entry) (object_kind entry) None
       in recorded i (r_objects s') \<and> (attributable \<longrightarrow> recorded i (r_caller_objects s')))"
    if "AuthorizeObjectAgainst inventory major binding entry attributable p s = (None, s')" for p s s'
    using that k assms(2)
    by (auto simp: AuthorizeObjectAgainst_def deny_with_def authorize_table_entry_def recorded_def Let_def split: if_splits)
  obtain r1 where "AuthorizeObjectAgainst inventory major binding entry attributable (ceiling_layer layers) r = (None, r1)"
    "AuthorizeObjectAgainst inventory major binding entry attributable (request_layer layers) r1 = (None, r')"
    by (rule AuthorizeObject_both [OF assms(1)])
  from one [OF this(1)] one [OF this(2)] show ?thesis by (simp add: Layers_All_def Let_def)
qed

lemma AuthorizeObject_function:
  assumes "AuthorizeObject inventory major layers binding entry attributable r = (None, r')"
    and "FunctionKind major (ce_type entry) = Some kind"
  shows "Layers_All (\<lambda>p. \<not> function_refused inventory p binding (entry_identity entry kind) attributable
      (Lower (ce_name entry) \<in> set (caller_functions binding) \<or>
       (\<not> defaults p \<or> \<not> ce_internal entry) \<and> Lower (ce_name entry) \<in> set (system_functions binding))) layers \<and>
    \<not> OpaqueQuackFunction (ce_name entry) \<and> recorded (entry_identity entry kind) (r_functions r') \<and>
    (attributable \<longrightarrow> recorded (entry_identity entry kind) (r_caller_functions r'))"
proof -
  have one: "\<not> function_refused inventory p binding (entry_identity entry kind) attributable
      (Lower (ce_name entry) \<in> set (caller_functions binding) \<or>
       (\<not> defaults p \<or> \<not> ce_internal entry) \<and> Lower (ce_name entry) \<in> set (system_functions binding)) \<and>
    \<not> OpaqueQuackFunction (ce_name entry) \<and> recorded (entry_identity entry kind) (r_functions s') \<and>
    (attributable \<longrightarrow> recorded (entry_identity entry kind) (r_caller_functions s'))"
    if "AuthorizeObjectAgainst inventory major binding entry attributable p s = (None, s')" for p s s'
  proof -
    from that assms(2) have "\<not> OpaqueQuackFunction (ce_name entry)"
      and "authorize_function_entry inventory p binding entry kind attributable s = (None, s')"
      by (simp_all add: AuthorizeObjectAgainst_def deny_with_def split: if_splits)
    moreover from this(2) obtain s1 where
      "AuthorizeFunction inventory p binding (entry_identity entry kind) attributable
         (Lower (ce_name entry) \<in> set (caller_functions binding) \<or>
          (\<not> defaults p \<or> \<not> ce_internal entry) \<and> Lower (ce_name entry) \<in> set (system_functions binding)) s = (None, s1)"
      and "s' = Result_RecordFunction (entry_identity entry kind) attributable s1"
      unfolding authorize_function_entry_def Let_def seqO_eq_None by (auto simp: deny_with_def split: if_splits)
    ultimately show ?thesis
      using evidence_recorded [OF evidence.le_refl]
      unfolding AuthorizeFunction_def by (simp add: deny_with_def split: if_splits)
  qed
  obtain r1 where "AuthorizeObjectAgainst inventory major binding entry attributable (ceiling_layer layers) r = (None, r1)"
    "AuthorizeObjectAgainst inventory major binding entry attributable (request_layer layers) r1 = (None, r')"
    by (rule AuthorizeObject_both [OF assms(1)])
  from one [OF this(1)] one [OF this(2)] show ?thesis by (simp add: Layers_All_def)
qed

section \<open>The callback enforces\<close>

lemma with_result_None:
  "with_result f st = (None, st1) \<longleftrightarrow> (\<exists>r. f (bs_result st) = (None, r) \<and> st1 = st\<lparr>bs_result := r\<rparr>)"
  by (auto simp: with_result_def split: prod.splits)

lemma lookup_object_enforced:
  assumes "lookup_object cx binding trusted entry st = (None, st', a)" and "is_object entry"
  shows "learned st st' \<and> object_enforced cx binding trusted (bs_provenance st) entry (bs_provenance st') (bs_result st')"
proof -
  let ?own = "object_callers binding trusted (bs_provenance st) entry"
  let ?key = "ObjectKey (ce_catalog entry) (ce_schema_path entry) (ce_name entry)"
  define st1 where "st1 = learn (\<lambda>pr. if ?own
      then pr\<lparr>caller_objects := std_insert Table_key ?key (caller_objects pr)\<rparr>
      else pr\<lparr>trusted_objects := std_insert Table_key ?key (trusted_objects pr)\<rparr>) st"
  have auth: "with_result (AuthorizeObject (defaults_of cx) (bc_major cx) (bc_layers cx) binding entry ?own) st1 = (None, st')"
    using assms(1)
    by (auto simp: lookup_object_def Let_def st1_def object_callers_def CallerNamesObject_def split: prod.splits)
  then obtain r where r: "AuthorizeObject (defaults_of cx) (bc_major cx) (bc_layers cx) binding entry ?own (bs_result st1) = (None, r)"
    "st' = st1\<lparr>bs_result := r\<rparr>" by (auto simp: with_result_None)
  have "learned st st1" unfolding st1_def by (intro learned_learn) (simp add: provenance_le_update)
  moreover have "learned st1 st'"
    using learned_AuthorizeObject [of st1 "defaults_of cx" "bc_major cx" "bc_layers cx" binding entry ?own] auth by simp
  moreover have "?key \<in> set (if ?own then caller_objects (bs_provenance st') else trusted_objects (bs_provenance st'))"
    using r(2) by (simp add: st1_def learn_def)
  ultimately show ?thesis
    using AuthorizeObject_object [OF r(1) assms(2)] r(2) binding.le_trans
    unfolding object_enforced_def Let_def by simp
qed

lemma function_callers_code:
  "function_callers binding trusted pr entry = lookup_attributable binding trusted (Lower (ce_name entry)) pr"
  by (auto simp: function_callers_def lookup_attributable_def)

lemma lookup_binding_sel:
  "set (caller_functions (lookup_binding binding name pr)) \<supseteq> set (caller_functions binding)"
  "name \<in> set (replacement_functions pr) \<Longrightarrow> name \<in> set (caller_functions (lookup_binding binding name pr))"
  "name \<in> set (caller_expansions pr) \<Longrightarrow> name \<in> set (system_functions (lookup_binding binding name pr))"
  "synthesized_functions (lookup_binding binding name pr) = synthesized_functions binding"
  "literal_constructors (lookup_binding binding name pr) = literal_constructors binding"
  by (auto simp: lookup_binding_def Let_def)

lemma lookup_effects_learned:
  assumes "lookup_effects cx binding own entry kind st = (None, st')"
  shows "learned st st' \<and>
    has_identity (entry_identity entry kind)
      (if own then caller_implementations (bs_provenance st') else trusted_implementations (bs_provenance st')) \<and>
    (own \<longrightarrow> Lower (ce_name entry) \<in> set (caller_lookups (bs_provenance st')))"
proof -
  define source where "source = identity (ce_catalog entry) (ce_schema_path entry) (Lower (ce_name entry)) kind (Some (ce_internal entry))"
  define st1 where "st1 = learn (Provenance_RecordFunction source own (bc_major cx)) st"
  let ?looked = "\<lambda>s. if own then learn (\<lambda>pr. pr\<lparr>caller_lookups := ins (Lower (ce_name entry)) (caller_lookups pr)\<rparr>) s else s"
  obtain st2 where st2: "lookup_dispatcher cx binding own entry st1 = (None, st2)"
    and st': "st' = ?looked st2 \<or> CheckAggregateDependency cx (Lower (ce_name entry)) (?looked st2) = (None, st')"
    using assms unfolding lookup_effects_def Let_def st1_def source_def throw_with_def
    by (auto simp: seqO_eq_None split: if_splits)
  have "learned st st1" unfolding st1_def by (intro learned_learn provenance_le_record)
  moreover have "learned st1 st2" using learned_dispatcher [of st1 cx binding own entry] st2 by simp
  moreover have "learned st2 (?looked st2)" by (simp add: binding.le_refl learned_learn provenance_le_update)
  moreover have last: "learned (?looked st2) st'"
    using st' learned_dependency [of "?looked st2" cx "Lower (ce_name entry)"] by (auto simp: binding.le_refl)
  ultimately have le: "learned st st'" "learned st1 st'" using binding.le_trans by blast+
  have "Identity_key (FunctionKey (entry_identity entry kind)) = Identity_key (FunctionKey source)"
    by (simp add: Identity_key_def source_def entry_identity_def identity_def)
  then have "has_identity (entry_identity entry kind)
      (if own then caller_implementations (bs_provenance st1) else trusted_implementations (bs_provenance st1))"
    using RecordFunction_recorded [where caller = own and i = source and m = "bc_major cx" and pr = "bs_provenance st"]
    by (simp add: has_identity_keys st1_def learn_def split: if_splits)
  then have "has_identity (entry_identity entry kind)
      (if own then caller_implementations (bs_provenance st') else trusted_implementations (bs_provenance st'))"
    using le(2) by (auto simp: has_identity_keys learned_def provenance_le_def keys_within_def)
  moreover have "own \<longrightarrow> Lower (ce_name entry) \<in> set (caller_lookups (bs_provenance st'))"
    using last by (auto simp: learned_def provenance_le_def learn_def)
  ultimately show ?thesis using le(1) by blast
qed

lemma lookup_function_enforced:
  assumes l: "lookup_function cx binding trusted entry kind st = (None, st', a)"
    and k: "FunctionKind (bc_major cx) (ce_type entry) = Some kind"
  shows "learned st st' \<and>
    function_enforced cx binding trusted (bs_provenance st) entry kind (bs_provenance st') (bs_result st')"
proof -
  let ?name = "Lower (ce_name entry)" and ?i = "entry_identity entry kind" and ?pr = "bs_provenance st"
  let ?own = "function_callers binding trusted ?pr entry" and ?b = "lookup_binding binding ?name ?pr"
  obtain st1 st2 where auth: "with_result (AuthorizeObject (defaults_of cx) (bc_major cx) (bc_layers cx) ?b entry ?own) st = (None, st1)"
    and eff: "lookup_effects cx binding ?own entry kind st1 = (None, st2)"
    and st': "st' = st2 \<or> lookup_macro cx ?own entry st2 = (None, st')"
    using l unfolding lookup_function_def Let_def function_callers_code
    by (auto simp: seqO_eq_None split: prod.splits if_splits)
  obtain r where r: "AuthorizeObject (defaults_of cx) (bc_major cx) (bc_layers cx) ?b entry ?own (bs_result st) = (None, r)"
    "st1 = st\<lparr>bs_result := r\<rparr>" using auth by (auto simp: with_result_None)
  have "learned st st1"
    using learned_AuthorizeObject [of st "defaults_of cx" "bc_major cx" "bc_layers cx" ?b entry ?own] auth by simp
  moreover note eff = lookup_effects_learned [OF eff]
  moreover have "learned st2 st'" using st' learned_macro [of st2 cx ?own entry] by (auto simp: binding.le_refl)
  ultimately have le: "learned st st'" "learned st1 st'" "learned st2 st'" using binding.le_trans by blast+
  note f = AuthorizeObject_function [OF r(1) k]
  have refused: "\<not> function_refused (defaults_of cx) p ?b ?i ?own (?name \<in> set (caller_functions ?b) \<or>
      (\<not> defaults p \<or> \<not> ce_internal entry) \<and> ?name \<in> set (system_functions ?b))"
    if "p = ceiling_layer (bc_layers cx) \<or> p = request_layer (bc_layers cx)" for p
    using f that by (auto simp: Layers_All_def)
  have n: "Lower (i_name ?i) = ?name" "i_name ?i = ce_name entry" by (simp_all add: entry_identity_def identity_def)
  have asked: "?own \<longrightarrow> \<not> FunctionDenied p ?i \<and> (SystemIdentity ?i \<or> FunctionAllowed (defaults_of cx) p ?i) \<and>
      (?name \<in> set (caller_functions binding) \<union> set (replacement_functions ?pr) \<or>
       ?name \<in> set (caller_expansions ?pr) \<and> (\<not> defaults p \<or> \<not> ce_internal entry) \<longrightarrow> FunctionAllowed (defaults_of cx) p ?i)"
    and implied: "?name \<in> set (synthesized_functions binding) \<union> set (literal_constructors binding) \<longrightarrow>
      SystemIdentity ?i \<and> FunctionAllowed (defaults_of cx) p ?i"
    and cp: "\<not> ControlPlane (ce_name entry)"
    if "p = ceiling_layer (bc_layers cx) \<or> p = request_layer (bc_layers cx)" for p
    using refused [OF that] lookup_binding_sel [where binding = binding and name = ?name and pr = ?pr]
    unfolding function_refused_def Let_def n lookup_binding_sel(4,5) by blast+
  have "recorded ?i (r_functions (bs_result st'))" "?own \<longrightarrow> recorded ?i (r_caller_functions (bs_result st'))"
    using f r(2) le(2) recorded_le by (auto simp: learned_def)
  moreover have "has_identity ?i (if ?own then caller_implementations (bs_provenance st') else trusted_implementations (bs_provenance st'))"
    "?own \<longrightarrow> ?name \<in> set (caller_lookups (bs_provenance st'))"
    using eff le(3) by (auto simp: has_identity_keys learned_def provenance_le_def keys_within_def split: if_splits)
  ultimately show ?thesis
    using le(1) f cp asked implied unfolding function_enforced_def Let_def Layers_All_def by blast
qed

lemma LookupCallback_enforced:
  assumes "LookupCallback cx binding trusted entry st = (None, st', a)"
  shows "learned st st' \<and> entry_enforced cx binding trusted (bs_provenance st) entry (bs_provenance st') (bs_result st')"
proof (cases "FunctionKind (bc_major cx) (ce_type entry)")
  case None
  show ?thesis
  proof (cases "is_object entry")
    case True
    with assms None have "lookup_object cx binding trusted entry st = (None, st', a)" by (simp add: LookupCallback_def)
    from lookup_object_enforced [OF this True] None show ?thesis by (simp add: entry_enforced_def)
  qed (use assms None in \<open>simp add: LookupCallback_def entry_enforced_def binding.le_refl\<close>)
next
  case (Some kind)
  with assms have "lookup_function cx binding trusted entry kind st = (None, st', a)" by (simp add: LookupCallback_def)
  from lookup_function_enforced [OF this Some] Some show ?thesis by (simp add: entry_enforced_def)
qed

text \<open>A callback that fails forgets nothing either.\<close>

lemma if_learned: "learned st (snd x) \<Longrightarrow> learned st (snd y) \<Longrightarrow> learned st (snd (if b then x else y))"
  by simp

lemma LookupCallback_learned: "learned st (fst (snd (LookupCallback cx binding trusted entry st)))"
proof -
  have effects: "learned st (snd (lookup_effects cx binding own entry kind st))" for own kind st
  proof -
    have dispatch: "learned st (snd (lookup_dispatcher cx binding own entry (learn (Provenance_RecordFunction i own m) st)))" for i m
      by (rule binding.le_trans [OF learned_learn learned_dispatcher]) (rule provenance_le_record)
    have looked: "learned t (if own then learn (\<lambda>pr. pr\<lparr>caller_lookups := ins n (caller_lookups pr)\<rparr>) t else t)" for n t
      by (simp add: binding.le_refl learned_learn provenance_le_update)
    show ?thesis
      unfolding lookup_effects_def Let_def
      by (rule if_learned [OF learned_throw if_learned [OF learned_throw binding.seqO_le [OF dispatch]]],
          rule if_learned [OF binding.le_trans [OF looked learned_dependency]], unfold snd_conv, rule looked)
  qed
  have object: "learned st (fst (snd (lookup_object cx binding trusted entry st)))"
  proof -
    let ?own = "CallerNamesObject binding (ce_catalog entry) (ce_schema_path entry) (ce_name entry) \<or>
      \<not> trusted \<and> \<not> NamesObject (trusted_table_names (bs_provenance st)) (ce_catalog entry) (ce_schema_path entry) (ce_name entry)"
    let ?key = "ObjectKey (ce_catalog entry) (ce_schema_path entry) (ce_name entry)"
    let ?st1 = "learn (\<lambda>pr. if ?own then pr\<lparr>caller_objects := std_insert Table_key ?key (caller_objects pr)\<rparr>
        else pr\<lparr>trusted_objects := std_insert Table_key ?key (trusted_objects pr)\<rparr>) st"
    have "fst (snd (lookup_object cx binding trusted entry st)) =
        snd (with_result (AuthorizeObject (defaults_of cx) (bc_major cx) (bc_layers cx) binding entry ?own) ?st1)"
      unfolding lookup_object_def Let_def by (simp only: split_beta fst_conv snd_conv)
    moreover have "learned st ?st1" by (rule learned_learn) (simp add: provenance_le_update)
    ultimately show ?thesis using binding.le_trans learned_AuthorizeObject by presburger
  qed
  have called: "learned st (fst (snd (lookup_function cx binding trusted entry kind st)))" for kind
  proof -
    let ?own = "lookup_attributable binding trusted (Lower (ce_name entry)) (bs_provenance st)"
    let ?auth = "seqO (with_result (AuthorizeObject (defaults_of cx) (bc_major cx) (bc_layers cx)
        (lookup_binding binding (Lower (ce_name entry)) (bs_provenance st)) entry ?own) st) (lookup_effects cx binding ?own entry kind)"
    have auth: "learned st (snd ?auth)" by (intro binding.seqO_le learned_AuthorizeObject effects)
    moreover have "learned st (snd (lookup_macro cx ?own entry (snd ?auth)))"
      using auth learned_macro binding.le_trans by blast
    moreover have "fst (snd (lookup_function cx binding trusted entry kind st)) =
        (if fst ?auth \<noteq> None \<or> trusted then snd ?auth else snd (lookup_macro cx ?own entry (snd ?auth)))"
      unfolding lookup_function_def Let_def
      by (simp only: split_beta fst_conv snd_conv if_distrib [of "\<lambda>x. fst (snd x)"])
    ultimately show ?thesis by presburger
  qed
  show ?thesis
    using object called by (simp add: LookupCallback_def binding.le_refl split: option.splits)
qed

section \<open>Trust\<close>

text \<open>Binders that exist: the statement's own, and every child made so far.\<close>

fun binders_exist :: "nat \<Rightarrow> bind_event list \<Rightarrow> bool" where
  "binders_exist k [] \<longleftrightarrow> True"
| "binders_exist k (Retrieve n entry # events) \<longleftrightarrow> n < k \<and> binders_exist k events"
| "binders_exist k (Inherit n # events) \<longleftrightarrow> n < k \<and> binders_exist (Suc k) events"
| "binders_exist k (Replace scan # events) \<longleftrightarrow> binders_exist k events"

lemma ReplacementInScope_callbacks: "bs_callbacks (snd (ReplacementInScope cx binding scan st)) = bs_callbacks st"
proof -
  have elig: "bs_callbacks (snd (foldO (eligible_reader cx scan name w) layers st)) = bs_callbacks st" for name w layers st
    by (rule foldO_invariant) (simp_all add: eligible_reader_def throw_with_def)
  have reader: "bs_callbacks (snd (fetch (ri_reader scan) f st)) = bs_callbacks st"
    if "\<And>entry st. bs_callbacks (snd (f entry st)) = bs_callbacks st" for f st
    using that by (simp add: fetch_def split: sum.splits)
  have "bs_callbacks (snd (resolved_reader cx binding scan name w st)) = bs_callbacks st" for name w st
    unfolding resolved_reader_def Let_def seqO_def
    using elig [of name w "[ceiling_layer (bc_layers cx), request_layer (bc_layers cx)]" st]
    by (auto simp: admit_reader_def Let_def reader split: option.splits prod.splits)
  then show ?thesis
    by (auto simp: ReplacementInScope_def fetch_def throw_with_def Let_def split: sum.splits Resolution.splits)
qed

text \<open>The statement's own binder: the first copy of the callback, and never a trusted one.\<close>

definition own_untrusted :: "BindState \<Rightarrow> bool" where
  "own_untrusted st \<longleftrightarrow> bs_callbacks st \<noteq> [] \<and> \<not> fst (hd (bs_callbacks st))"

lemma own_untrusted_update:
  assumes "own_untrusted st" and "n < length (bs_callbacks st)" and "fst (bs_callbacks st ! n) = t"
  shows "own_untrusted (st1\<lparr>bs_callbacks := (bs_callbacks st)[n := (t, a)] @ rest\<rparr>)"
  using assms by (cases "bs_callbacks st"; cases n) (auto simp: own_untrusted_def)

lemma run_event_own_untrusted: "own_untrusted st \<Longrightarrow> own_untrusted (snd (run_event cx binding ev st))"
proof (induction cx binding ev st rule: run_event.induct)
  case (1 cx binding n entry st)
  then show ?case
    using own_untrusted_update [where rest = "[]"] by (auto split: prod.splits)
next
  case (2 cx binding n st)
  then show ?case using own_untrusted_update [of st n] by (auto split: prod.splits)
next
  case (3 cx binding scan st)
  then show ?case using ReplacementInScope_callbacks by (simp add: own_untrusted_def)
qed

text \<open>The entries with a definition of their own to bind: only these can make a later binder a trusted one.\<close>

definition opens_definition :: "CatalogEntry \<Rightarrow> bool" where
  "opens_definition entry \<longleftrightarrow> ce_type entry \<in> {VIEW_ENTRY, TABLE_MACRO_ENTRY, TABLE_FUNCTION_ENTRY}"

lemma LookupCallback_arms: "LookupCallback cx binding trusted entry st = (e, st', True) \<Longrightarrow> opens_definition entry"
  by (auto simp: LookupCallback_def lookup_object_def lookup_function_def arms_def opens_definition_def Let_def
      split: option.splits prod.splits if_splits)

abbreviation untrusting :: "BindState \<Rightarrow> bool" where
  "untrusting st \<equiv> set (bs_callbacks st) \<subseteq> {(False, False)}"

lemma run_event_untrusting:
  assumes "untrusting st" and "run_event cx binding ev st = (e, st')"
    and "\<And>n entry. ev = Retrieve n entry \<Longrightarrow> \<not> opens_definition entry"
  shows "untrusting st'"
proof (cases ev)
  case (Retrieve n entry)
  show ?thesis
  proof (cases "n < length (bs_callbacks st)")
    case True
    obtain t a where ta: "bs_callbacks st ! n = (t, a)" by (cases "bs_callbacks st ! n")
    with True assms(1) have "\<not> t" "\<not> a" using nth_mem [of n "bs_callbacks st"] by auto
    obtain st1 arming where l: "LookupCallback cx binding t entry st = (e, st1, arming)"
      and st': "st' = st1\<lparr>bs_callbacks := (bs_callbacks st)[n := (t, a \<or> arming)]\<rparr>"
      using assms(2) Retrieve True ta by (auto split: prod.splits)
    from l assms(3) [OF Retrieve] LookupCallback_arms have "\<not> arming" by (cases arming) auto
    with st' \<open>\<not> t\<close> \<open>\<not> a\<close> assms(1) show ?thesis using set_update_subset_insert [of "bs_callbacks st" n "(False, False)"] by auto
  qed (use assms Retrieve in simp)
next
  case (Inherit n)
  show ?thesis
  proof (cases "n < length (bs_callbacks st)")
    case True
    obtain t a where ta: "bs_callbacks st ! n = (t, a)" by (cases "bs_callbacks st ! n")
    with True assms(1) have "\<not> t" "\<not> a" using nth_mem [of n "bs_callbacks st"] by auto
    with True ta Inherit assms(1,2) show ?thesis
      using set_update_subset_insert [of "bs_callbacks st" n "(False, False)"] by auto
  qed (use assms Inherit in simp)
next
  case (Replace scan)
  with assms(1,2) ReplacementInScope_callbacks [of cx binding scan st] show ?thesis by simp
qed

lemma run_events_untrusting:
  assumes "foldO (run_event cx binding) events st = (e, st')" and "untrusting st"
    and "\<And>n entry. Retrieve n entry \<in> set events \<Longrightarrow> \<not> opens_definition entry"
  shows "untrusting st'"
  using assms
proof (induction events arbitrary: st)
  case (Cons ev events)
  obtain e1 st1 where one: "run_event cx binding ev st = (e1, st1)" by fastforce
  have st1: "untrusting st1" by (rule run_event_untrusting [OF Cons.prems(2) one]) (use Cons.prems(3) in auto)
  show ?case
  proof (cases e1)
    case None
    with Cons.prems(1) one have "foldO (run_event cx binding) events st1 = (e, st')" by simp
    then show ?thesis using st1 by (rule Cons.IH) (use Cons.prems(3) in auto)
  qed (use Cons.prems(1) one st1 in simp)
qed simp

lemma run_event_learned: "learned st (snd (run_event cx binding ev st))"
proof (cases ev)
  case (Retrieve n entry)
  obtain t a where ta: "bs_callbacks st ! n = (t, a)" by (cases "bs_callbacks st ! n")
  obtain e st1 arming where "LookupCallback cx binding t entry st = (e, st1, arming)" by (rule prod_cases3)
  with LookupCallback_learned [of st cx binding t entry] ta Retrieve show ?thesis
    by (simp add: binding.le_refl) (simp add: learned_def)
next
  case (Inherit n)
  then show ?thesis
    by (auto simp: learned_def knowledge.le_refl evidence.le_refl split: prod.splits)
next
  case (Replace scan)
  with learned_ReplacementInScope [of st cx binding scan] show ?thesis by simp
qed

lemma run_events_learned:
  assumes "foldO (run_event cx binding) events st = (e, st')"
  shows "learned st st'"
proof -
  have "learned st (snd (foldO (run_event cx binding) events st))" by (rule binding.foldO_le) (rule run_event_learned)
  with assms show ?thesis by simp
qed

lemma binders_exist_step:
  assumes "binders_exist (length (bs_callbacks st)) (ev # events)" and "run_event cx binding ev st = (None, st1)"
  shows "binders_exist (length (bs_callbacks st1)) events"
proof (cases ev)
  case (Replace scan)
  with assms ReplacementInScope_callbacks [of cx binding scan st] show ?thesis by simp
qed (use assms in \<open>auto split: prod.splits\<close>)

lemma events_enforced:
  assumes "foldO (run_event cx binding) (before @ Retrieve n entry # after) st = (None, st')" and "own_untrusted st"
    and "binders_exist (length (bs_callbacks st)) (before @ Retrieve n entry # after)"
  shows "\<exists>st0. foldO (run_event cx binding) before st = (None, st0) \<and> own_untrusted st0 \<and> n < length (bs_callbacks st0) \<and>
    entry_enforced cx binding (fst (bs_callbacks st0 ! n)) (bs_provenance st0) entry (bs_provenance st') (bs_result st')"
  using assms
proof (induction before arbitrary: st)
  case Nil
  then have n: "n < length (bs_callbacks st)" by simp
  obtain t a where ta: "bs_callbacks st ! n = (t, a)" by (cases "bs_callbacks st ! n")
  obtain e st1 arming where l: "LookupCallback cx binding t entry st = (e, st1, arming)" by (rule prod_cases3)
  let ?st1 = "st1\<lparr>bs_callbacks := (bs_callbacks st)[n := (t, a \<or> arming)]\<rparr>"
  have "run_event cx binding (Retrieve n entry) st = (e, ?st1)" using n ta l by simp
  with Nil.prems(1) have e: "e = None" and rest: "foldO (run_event cx binding) after ?st1 = (None, st')"
    by (simp_all add: seqO_eq_None del: run_event.simps)
  note l = l [unfolded e]
  have "learned (st1\<lparr>bs_callbacks := (bs_callbacks st)[n := (t, a \<or> arming)]\<rparr>) st'" using rest by (rule run_events_learned)
  with LookupCallback_enforced [OF l] entry_enforced_later [of cx binding t "bs_provenance st" entry "bs_provenance st1"
      "bs_result st1" "bs_provenance st'" "bs_result st'"]
  have "entry_enforced cx binding t (bs_provenance st) entry (bs_provenance st') (bs_result st')"
    by (simp add: learned_def)
  with n ta Nil.prems(2) show ?case by simp
next
  case (Cons ev before)
  from Cons.prems(1) obtain st1 where one: "run_event cx binding ev st = (None, st1)"
    and rest: "foldO (run_event cx binding) (before @ Retrieve n entry # after) st1 = (None, st')"
    by (auto simp: seqO_eq_None)
  have "own_untrusted st1" using run_event_own_untrusted [OF Cons.prems(2), of cx binding ev] one by simp
  moreover have "binders_exist (length (bs_callbacks st1)) (before @ Retrieve n entry # after)"
    by (rule binders_exist_step [where ev = ev]) (use Cons.prems(3) one in simp_all)
  ultimately obtain st0 where "foldO (run_event cx binding) before st1 = (None, st0)" "own_untrusted st0"
    "n < length (bs_callbacks st0)"
    "entry_enforced cx binding (fst (bs_callbacks st0 ! n)) (bs_provenance st0) entry (bs_provenance st') (bs_result st')"
    using Cons.IH [OF rest] by blast
  with one show ?case by auto
qed

section \<open>What a completed statement went through\<close>

text \<open>
  The private bind of a statement from what its unit knew to what the unit knows after it. The callbacks ran
  over all events of the bind, every catalog entry a binder retrieved was enforced as what it was at that
  moment, and the statement was bound to a plan the layers allow under exactly what the callbacks learned,
  with everything attributed. The statement's own binder is never a trusted one, and no binder is as long as
  nothing with a definition of its own was retrieved.
\<close>

definition bind_enforced ::
    "BindContext \<Rightarrow> BindingPolicy \<Rightarrow> bind_event list \<Rightarrow> BindState \<Rightarrow> BindState \<Rightarrow> bool" where
  "bind_enforced cx binding events start st \<longleftrightarrow>
     foldO (run_event cx binding) events start = (None, st) \<and>
     (binders_exist 1 events \<longrightarrow> (\<forall>before n entry after. events = before @ Retrieve n entry # after \<longrightarrow>
        (\<exists>st0. foldO (run_event cx binding) before start = (None, st0) \<and>
           (let trusted = fst (bs_callbacks st0 ! n)
            in (trusted \<longrightarrow> n \<noteq> 0 \<and> (\<exists>m e. Retrieve m e \<in> set before \<and> opens_definition e)) \<and>
               entry_enforced cx binding trusted (bs_provenance st0) entry (bs_provenance st) (bs_result st)))))"

definition privately_bound ::
    "BindContext \<Rightarrow> SQLStatement \<Rightarrow> ParameterMap option \<Rightarrow> BindingPolicy \<Rightarrow> Provenance \<Rightarrow> Provenance \<Rightarrow> bool" where
  "privately_bound cx statement parameters binding pr0 pr1 \<longleftrightarrow>
     (let trace = bc_bind cx statement parameters
      in \<exists>pr r st plan u. learn_collations cx binding pr0 = (None, pr) \<and>
           bind_enforced cx binding (bt_events trace) (start_bind pr r) st \<and>
           unattributed (bs_provenance st) = unattributed pr0 \<and> scanless pr1 = scanless (bs_provenance st) \<and>
           bt_plan trace = Some plan \<and> u_binding u = binding \<and> u_provenance u = bs_provenance st \<and>
           plan_allowed (defaults_of cx) (bc_major cx) (bc_layers cx) PRIVATE u (bt_properties trace) plan)"

lemma bind_enforcedI:
  assumes "foldO (run_event cx binding) events (start_bind pr r) = (None, st)"
  shows "bind_enforced cx binding events (start_bind pr r) st"
  unfolding bind_enforced_def
proof (intro conjI impI allI assms)
  fix before n entry after
  assume exist: "binders_exist 1 events" and ev: "events = before @ Retrieve n entry # after"
  have own: "own_untrusted (start_bind pr r)" by (simp add: own_untrusted_def start_bind_def)
  obtain st0 where st0: "foldO (run_event cx binding) before (start_bind pr r) = (None, st0)" "own_untrusted st0"
    "n < length (bs_callbacks st0)"
    "entry_enforced cx binding (fst (bs_callbacks st0 ! n)) (bs_provenance st0) entry (bs_provenance st) (bs_result st)"
    using events_enforced [OF assms [unfolded ev] own] exist ev by (auto simp: start_bind_def)
  have "n \<noteq> 0" if "fst (bs_callbacks st0 ! n)"
    using that st0(2) by (cases n; cases "bs_callbacks st0") (auto simp: own_untrusted_def)
  moreover have "\<exists>m e. Retrieve m e \<in> set before \<and> opens_definition e" if "fst (bs_callbacks st0 ! n)"
  proof (rule ccontr)
    assume "\<not> ?thesis"
    then have "untrusting st0"
      using run_events_untrusting [OF st0(1)] by (auto simp: start_bind_def)
    then have "bs_callbacks st0 ! n = (False, False)" using nth_mem [OF st0(3)] by blast
    then show False using that by simp
  qed
  ultimately show "\<exists>st0. foldO (run_event cx binding) before (start_bind pr r) = (None, st0) \<and>
      (let trusted = fst (bs_callbacks st0 ! n)
       in (trusted \<longrightarrow> n \<noteq> 0 \<and> (\<exists>m e. Retrieve m e \<in> set before \<and> opens_definition e)) \<and>
          entry_enforced cx binding trusted (bs_provenance st0) entry (bs_provenance st) (bs_result st))"
    using st0(1,4) unfolding Let_def by blast
qed

lemma learn_collations_unattributed:
  assumes "learn_collations cx binding pr0 = (e, pr)"
  shows "unattributed pr = unattributed pr0"
proof -
  have "unattributed (snd (learn_collations cx binding pr0)) = unattributed pr0"
    unfolding learn_collations_def
    by (rule foldO_invariant) (auto simp: learn_collation_def Let_def split: sum.splits)
  with assms show ?thesis by simp
qed

text \<open>Whatever the outcome, a unit stays the statement it was, and counts as bound privately as it did.\<close>

lemma AuthorizeStatement_unit:
  assumes "AuthorizeStatement cx statement parameters unit r = (e, unit', r')"
  shows "unit_text unit' = unit_text unit \<and> unattributed (u_provenance unit') = unattributed (u_provenance unit)"
proof -
  obtain e1 pr where coll: "learn_collations cx (u_binding unit) (u_provenance unit) = (e1, pr)" by fastforce
  note pr = learn_collations_unattributed [OF coll]
  have bound: "unit_text unit' = unit_text unit \<and> unattributed (u_provenance unit') = unattributed (u_provenance unit)"
    if b: "bind_statement cx trace unit pr r1 = (e, unit', r')" for trace r1
  proof -
    obtain e2 st where events: "foldO (run_event cx (u_binding unit)) (bt_events trace) (start_bind pr r1) = (e2, st)" by fastforce
    have st: "unattributed (bs_provenance st) = unattributed (u_provenance unit)"
      using run_events_learned [OF events] pr by (simp add: learned_def provenance_le_def start_bind_def)
    have check: "unit_text u = unit_text unit \<and> unattributed (u_provenance u) = unattributed (u_provenance unit)"
      if "CheckPlan operator_name inventory major layers origin properties plan (unit\<lparr>u_provenance := bs_provenance st\<rparr>) s = (e3, u, s')"
      for operator_name inventory major layers origin properties plan s e3 u s'
    proof -
      have "unattributed (scanless (u_provenance u)) = unattributed (scanless (bs_provenance st))"
        using CheckPlan_known [OF that] by (simp add: unit_known_def)
      with CheckPlan_text [OF that] st show ?thesis by simp
    qed
    show ?thesis
    proof (cases "e2 = None \<and> bt_error trace = None")
      case True
      with b events have "finish_statement_bind cx trace unit st = (e, unit', r')" by (simp add: bind_statement_def)
      then show ?thesis
        using st check by (auto simp: finish_statement_bind_def Let_def split: option.splits if_splits prod.splits)
    qed (use b events st in \<open>auto simp: bind_statement_def split: option.splits\<close>)
  qed
  show ?thesis
    using assms coll pr bound by (auto simp: AuthorizeStatement_def split: prod.splits option.splits)
qed

lemma replacement_backstop_violations:
  "set (r_violations r) \<subseteq> set (r_violations (replacement_backstop admitted paths r))"
proof (induction paths arbitrary: r)
  case (Cons path paths)
  let ?r = "if Lower path \<in> set admitted then r else add_violation (replacement_violation rules_REPLACEMENT_SCAN
      (''replacement scan was not authorized: '' @ path) path []) r"
  have "set (r_violations r) \<subseteq> set (r_violations ?r)" by (auto simp: add_violation_def)
  with Cons [of ?r] show ?case by (simp add: replacement_backstop_def)
qed (simp add: replacement_backstop_def)

text \<open>A completed statement: clean, privately bound, and let through by the execution boundary.\<close>

lemma AuthorizeStatement_steps:
  assumes "AuthorizeStatement cx statement parameters unit r = (None, unit', r')"
  obtains pr r1 st plan s where "learn_collations cx (u_binding unit) (u_provenance unit) = (None, pr)"
    and "foldO (run_event cx (u_binding unit)) (bt_events (bc_bind cx statement parameters)) (start_bind pr r1) = (None, st)"
    and "bt_plan (bc_bind cx statement parameters) = Some plan"
    and "CheckPlan (bc_operator_name cx) (defaults_of cx) (bc_major cx) (bc_layers cx) PRIVATE
      (bt_properties (bc_bind cx statement parameters)) plan (unit\<lparr>u_provenance := bs_provenance st\<rparr>) (bs_result st) =
      (None, unit', s)"
    and "r_violations (bs_result st) = []" and "r_violations r' = []"
proof -
  let ?trace = "bc_bind cx statement parameters"
  from assms(1) obtain r1 pr where coll: "learn_collations cx (u_binding unit) (u_provenance unit) = (None, pr)"
    and b: "bind_statement cx ?trace unit pr r1 = (None, unit', r')"
    by (auto simp: AuthorizeStatement_def split: prod.splits option.splits)
  then obtain st where events: "foldO (run_event cx (u_binding unit)) (bt_events ?trace) (start_bind pr r1) = (None, st)"
    and fin: "finish_statement_bind cx ?trace unit st = (None, unit', r')"
    by (auto simp: bind_statement_def split: prod.splits option.splits)
  from fin obtain plan s' where plan: "bt_plan ?trace = Some plan"
    and c: "CheckPlan (bc_operator_name cx) (defaults_of cx) (bc_major cx) (bc_layers cx) PRIVATE (bt_properties ?trace) plan
        (unit\<lparr>u_provenance := bs_provenance st\<rparr>) (bs_result st) = (None, unit', s')"
    and r': "r' = replacement_backstop (bs_authorized st) (bt_replacements ?trace) s'" "r_violations r' = []"
    by (auto simp: finish_statement_bind_def Let_def split: prod.splits option.splits if_splits)
  have "r_violations s' = []"
    using replacement_backstop_violations [of s' "bs_authorized st" "bt_replacements ?trace"] r' by simp
  moreover have "r_violations s' = r_violations (bs_result st)" using CheckPlan_result(2) [OF c] by simp
  ultimately show thesis using that [OF coll events plan c] r'(2) by simp
qed

lemma AuthorizeStatement_bound:
  assumes "AuthorizeStatement cx statement parameters unit r = (None, unit', r')"
  shows "r_violations r' = [] \<and>
    privately_bound cx statement parameters (u_binding unit) (u_provenance unit) (u_provenance unit') \<and>
    unit_text unit' = unit_text unit"
proof -
  let ?trace = "bc_bind cx statement parameters"
  obtain pr r1 st plan s where coll: "learn_collations cx (u_binding unit) (u_provenance unit) = (None, pr)"
    and events: "foldO (run_event cx (u_binding unit)) (bt_events ?trace) (start_bind pr r1) = (None, st)"
    and plan: "bt_plan ?trace = Some plan"
    and c: "CheckPlan (bc_operator_name cx) (defaults_of cx) (bc_major cx) (bc_layers cx) PRIVATE (bt_properties ?trace) plan
        (unit\<lparr>u_provenance := bs_provenance st\<rparr>) (bs_result st) = (None, unit', s)"
    and v: "r_violations (bs_result st) = []" "r_violations r' = []"
    by (rule AuthorizeStatement_steps [OF assms])
  let ?u = "unit\<lparr>u_provenance := bs_provenance st\<rparr>"
  have "unattributed (bs_provenance st) = unattributed (u_provenance unit)"
    using run_events_learned [OF events] learn_collations_unattributed [OF coll]
    by (simp add: learned_def provenance_le_def start_bind_def)
  moreover have "scanless (u_provenance unit') = scanless (bs_provenance st)" using CheckPlan_walked [OF v(1) c] by simp
  ultimately have "privately_bound cx statement parameters (u_binding unit) (u_provenance unit) (u_provenance unit')"
    using coll plan bind_enforcedI [OF events] CheckPlan_allowed [OF c v(1)]
    unfolding privately_bound_def Let_def by (intro exI [of _ pr] exI [of _ r1] exI [of _ st] exI [of _ plan] exI [of _ ?u]) simp
  with v(2) CheckPlan_text [OF c] show ?thesis by simp
qed

section \<open>Properties\<close>

text \<open>C99. What a completed private bind has enforced, whatever the engine's binder did in it. No violation is
  left, and the bound plan passed the execution boundary under what the callbacks learned. Every catalog
  entry any binder retrieved was authorized with the attribution its moment gave it: a table or view that is
  the caller's is allowed by both layers, a function that is the caller's is not denied, is reviewed or
  allowed, and is allowed where the caller wrote it, a replacement scan named it or the policy does not take
  the defaults it was expanded from; no function is a control-plane function; and each is recorded on the
  side it belongs to. The statement's own binder is never a trusted one, and no binder is before
  something with a definition of its own was retrieved.\<close>

theorem AuthorizeStatement_enforces:
  assumes "AuthorizeStatement cx statement parameters unit r = (None, unit', r')"
    and "binders_exist 1 (bt_events (bc_bind cx statement parameters))"
    and "bt_events (bc_bind cx statement parameters) = before @ Retrieve n entry # after"
  shows "r_violations r' = [] \<and>
    (\<exists>pr r1 st0 st plan s. learn_collations cx (u_binding unit) (u_provenance unit) = (None, pr) \<and>
       foldO (run_event cx (u_binding unit)) before (start_bind pr r1) = (None, st0) \<and>
       foldO (run_event cx (u_binding unit)) (bt_events (bc_bind cx statement parameters)) (start_bind pr r1) = (None, st) \<and>
       (let trusted = fst (bs_callbacks st0 ! n)
        in (trusted \<longrightarrow> n \<noteq> 0 \<and> (\<exists>m e. Retrieve m e \<in> set before \<and> opens_definition e)) \<and>
           entry_enforced cx (u_binding unit) trusted (bs_provenance st0) entry (bs_provenance st) (bs_result st)) \<and>
       bt_plan (bc_bind cx statement parameters) = Some plan \<and>
       CheckPlan (bc_operator_name cx) (defaults_of cx) (bc_major cx) (bc_layers cx) PRIVATE
         (bt_properties (bc_bind cx statement parameters)) plan (unit\<lparr>u_provenance := bs_provenance st\<rparr>) (bs_result st) =
         (None, unit', s))"
proof -
  obtain pr r1 st plan s where coll: "learn_collations cx (u_binding unit) (u_provenance unit) = (None, pr)"
    and events: "foldO (run_event cx (u_binding unit)) (bt_events (bc_bind cx statement parameters)) (start_bind pr r1) = (None, st)"
    and rest: "bt_plan (bc_bind cx statement parameters) = Some plan"
      "CheckPlan (bc_operator_name cx) (defaults_of cx) (bc_major cx) (bc_layers cx) PRIVATE
        (bt_properties (bc_bind cx statement parameters)) plan (unit\<lparr>u_provenance := bs_provenance st\<rparr>) (bs_result st) =
        (None, unit', s)" "r_violations r' = []"
    by (rule AuthorizeStatement_steps [OF assms(1)])
  from bind_enforcedI [OF events] assms(2,3) obtain st0 where
    "foldO (run_event cx (u_binding unit)) before (start_bind pr r1) = (None, st0)"
    "let trusted = fst (bs_callbacks st0 ! n)
     in (trusted \<longrightarrow> n \<noteq> 0 \<and> (\<exists>m e. Retrieve m e \<in> set before \<and> opens_definition e)) \<and>
        entry_enforced cx (u_binding unit) trusted (bs_provenance st0) entry (bs_provenance st) (bs_result st)"
    unfolding bind_enforced_def by blast
  with coll events rest show ?thesis by blast
qed

text \<open>A bind that retrieves one table the caller names, of which the plan needs no scan.\<close>

definition sample_trace :: BindTrace where
  "sample_trace = \<lparr>bt_events = [Retrieve 0 (sample_entry TABLE_ENTRY ''Orders'')], bt_error = None, bt_plan = Some (Operator LOGICAL_DUMMY_SCAN None None [] []),
     bt_unresolved = False, bt_properties = sample_properties, bt_replacements = []\<rparr>"

definition sample_context :: BindContext where
  "sample_context = \<lparr>bc_major = 1, bc_inventory = \<lparr>inv_rules = Map.empty, inv_dispatch = Map.empty, inv_defaults = sample_inventory\<rparr>,
     bc_layers = plan_layers, bc_entry = (\<lambda>_ _ _ _. Inl (BinderException [])), bc_bind = (\<lambda>_ _. sample_trace),
     bc_split = (\<lambda>s. [s]), bc_supplies = (\<lambda>_ _. False), bc_fallback = (\<lambda>_. False), bc_has_variable = (\<lambda>_. False),
     bc_operator_name = (\<lambda>_. [])\<rparr>"

definition sample_select :: SQLStatement where
  "sample_select = SelectStatement ''SELECT * FROM reporting.orders'' (QueryNode [] [])"

definition sample_unit :: Unit where
  "sample_unit = empty_unit (Some sample_select) (empty_binding\<lparr>caller_table_names := [[''reporting'', ''orders'']]\<rparr>)"

lemma sample_statement_authorized:
  "fst (AuthorizeStatement sample_context sample_select None sample_unit empty_result) = None"
  by code_simp

theorem AuthorizeStatement_enforces_witness:
  "\<exists>u r (st0 :: BindState) (st :: BindState). AuthorizeStatement sample_context sample_select None sample_unit empty_result = (None, u, r) \<and>
     r_violations r = [] \<and>
     object_enforced sample_context (u_binding sample_unit) (fst (bs_callbacks st0 ! 0)) (bs_provenance st0)
       (sample_entry TABLE_ENTRY ''Orders'') (bs_provenance st) (bs_result st)"
proof -
  let ?e = "sample_entry TABLE_ENTRY ''Orders''"
  obtain u r where h: "AuthorizeStatement sample_context sample_select None sample_unit empty_result = (None, u, r)"
    using sample_statement_authorized by (metis prod.collapse)
  have e: "binders_exist 1 (bt_events (bc_bind sample_context sample_select None))"
    "bt_events (bc_bind sample_context sample_select None) = [] @ Retrieve 0 ?e # []"
    by (simp_all add: sample_context_def sample_trace_def)
  have o: "FunctionKind (bc_major sample_context) (ce_type ?e) = None" "is_object ?e"
    by (simp_all add: sample_entry_def FunctionKind_def is_object_def)
  obtain st0 st :: BindState where v: "r_violations r = []" and enf: "entry_enforced sample_context (u_binding sample_unit)
      (fst (bs_callbacks st0 ! 0)) (bs_provenance st0) ?e (bs_provenance st) (bs_result st)"
    using AuthorizeStatement_enforces [OF h e] unfolding Let_def by (elim conjE exE) (rule that; assumption)
  from enf o have "object_enforced sample_context (u_binding sample_unit)
      (fst (bs_callbacks st0 ! 0)) (bs_provenance st0) ?e (bs_provenance st) (bs_result st)" by (simp add: entry_enforced_def)
  with h v show ?thesis by (intro exI [of _ u] exI [of _ r] exI [of _ st0] exI [of _ st] conjI)
qed

end
