(* ===== verification/Statement_Check.thy ===== *)
theory Statement_Check
  imports Private_Bind
begin

text \<open>
  Authorization of an admitted statement, and the whole check of a text (\<open>Authorize\<close> and \<open>Check\<close> in
  \<open>src/src/check.cpp\<close>): a statement of a dynamic PIVOT is bound with placeholder values in both plan
  shapes the engine can choose, so that no data decides what is authorized.
\<close>

record StatementContext =
  sc_bind :: BindContext
  sc_text :: TextEngine
  sc_remote_catalogs :: nat
  sc_optimizer_enabled :: bool
  sc_pushdown_disabled :: bool
  sc_pivot_threshold :: "64 word"
  sc_pivot_limit :: "64 word"
  sc_enum_size :: "string \<Rightarrow> exn + 64 word option"
  sc_type_name :: "exception_type \<Rightarrow> string"

section \<open>Placeholder values of a dynamic PIVOT\<close>

definition HostEnumSize :: "StatementContext \<Rightarrow> string \<Rightarrow> exn + 64 word" where
  "HostEnumSize sc name =
     (case sc_enum_size sc name of
        Inr (Some n) \<Rightarrow> Inr n
      | Inr None \<Rightarrow> Inr 1
      | Inl (EngineError t m p) \<Rightarrow> if t = ET_CATALOG then Inr 1 else Inl (EngineError t m p)
      | Inl e \<Rightarrow> Inl e)"

definition pivot_multiply :: "64 word \<Rightarrow> 64 word \<Rightarrow> 64 word \<Rightarrow> 64 word" where
  "pivot_multiply limit fixed values =
     (if fixed = 0 \<or> values = 0 then 0
      else if values > limit div fixed then limit
      else fixed * values)"

definition pivot_count :: "64 word \<Rightarrow> 64 word \<Rightarrow> bool \<Rightarrow> 64 word \<Rightarrow> 64 word" where
  "pivot_count threshold limit large fixed =
     (if large \<and> fixed > 0 \<and> fixed \<le> threshold \<and> limit > 0 then
        (let candidate = threshold div fixed + 1
         in if candidate > 0 \<and> candidate \<le> (limit - 1) div fixed then candidate else 1)
      else 1)"

definition dynamic_column :: "Names \<Rightarrow> PivotColumn \<Rightarrow> bool" where
  "dynamic_column enums column \<longleftrightarrow> pc_enum column \<noteq> [] \<and> pc_enum column \<in> set enums"

definition static_values :: "StatementContext \<Rightarrow> Names \<Rightarrow> PivotColumn \<Rightarrow> 64 word \<Rightarrow> exn + 64 word" where
  "static_values sc enums column fixed =
     (if dynamic_column enums column then Inr fixed
      else if pc_entries column \<noteq> []
      then Inr (pivot_multiply (sc_pivot_limit sc) fixed (word_of_nat (length (pc_entries column))))
      else if pc_enum column \<noteq> []
      then bindE (HostEnumSize sc (pc_enum column)) (\<lambda>n. Inr (pivot_multiply (sc_pivot_limit sc) fixed n))
      else Inr fixed)"

definition placeholder_entries :: "PivotColumn \<Rightarrow> nat \<Rightarrow> (string \<times> string list) list" where
  "placeholder_entries column n =
     map (\<lambda>i. (to_string i, replicate (pc_expressions column) (to_string i))) [0..<n]"

definition fill_column :: "PivotColumn \<Rightarrow> nat \<Rightarrow> PivotColumn" where
  "fill_column column n = column\<lparr>pc_enum := [], pc_entries := pc_entries column @ placeholder_entries column n\<rparr>"

text \<open>The first dynamic column carries the count, every later one a single value.\<close>

fun fill_columns :: "Names \<Rightarrow> nat \<Rightarrow> PivotColumn list \<Rightarrow> PivotColumn list" where
  "fill_columns enums n [] = []"
| "fill_columns enums n (column # columns) =
     (if dynamic_column enums column then fill_column column n # fill_columns enums 1 columns
      else column # fill_columns enums n columns)"

definition substitute_pivots ::
    "StatementContext \<Rightarrow> Names \<Rightarrow> bool \<Rightarrow> PivotColumn list \<Rightarrow> exn + PivotColumn list \<times> bool" where
  "substitute_pivots sc enums large pivots =
     bindE (foldE (static_values sc enums) pivots 1) (\<lambda>fixed.
       if \<not> list_ex (dynamic_column enums) pivots then Inr (pivots, False)
       else (let count = pivot_count (sc_pivot_threshold sc) (sc_pivot_limit sc) large fixed
             in Inr (fill_columns enums (unat count) pivots, count > 1)))"

fun substitute_ref :: "StatementContext \<Rightarrow> Names \<Rightarrow> bool \<Rightarrow> TableRef \<Rightarrow> exn + TableRef \<times> bool" where
  "substitute_ref sc enums large (PivotRef pivots) =
     bindE (substitute_pivots sc enums large pivots) (\<lambda>(ps, d). Inr (PivotRef ps, d))"
| "substitute_ref sc enums large OtherRef = Inr (OtherRef, False)"

fun SubstitutePivotEnums :: "StatementContext \<Rightarrow> Names \<Rightarrow> bool \<Rightarrow> QueryNode \<Rightarrow> exn + QueryNode \<times> bool"
  and substitute_children :: "StatementContext \<Rightarrow> Names \<Rightarrow> bool \<Rightarrow> node_child list \<Rightarrow> exn + node_child list \<times> bool"
  and substitute_expr :: "StatementContext \<Rightarrow> Names \<Rightarrow> bool \<Rightarrow> ParsedExpression \<Rightarrow> exn + ParsedExpression \<times> bool"
  and substitute_exprs :: "StatementContext \<Rightarrow> Names \<Rightarrow> bool \<Rightarrow> ParsedExpression list \<Rightarrow> exn + ParsedExpression list \<times> bool"
where
  "SubstitutePivotEnums sc enums large (QueryNode content children) =
     bindE (substitute_children sc enums large children) (\<lambda>(cs, d). Inr (QueryNode content cs, d))"
| "substitute_children sc enums large [] = Inr ([], False)"
| "substitute_children sc enums large (NodeExpression e # rest) =
     bindE (substitute_expr sc enums large e) (\<lambda>(e1, d1).
     bindE (substitute_children sc enums large rest) (\<lambda>(cs, d2). Inr (NodeExpression e1 # cs, d1 \<or> d2)))"
| "substitute_children sc enums large (NodeTableRef r # rest) =
     bindE (substitute_ref sc enums large r) (\<lambda>(r1, d1).
     bindE (substitute_children sc enums large rest) (\<lambda>(cs, d2). Inr (NodeTableRef r1 # cs, d1 \<or> d2)))"
| "substitute_expr sc enums large (ParsedExpression None es) =
     bindE (substitute_exprs sc enums large es) (\<lambda>(es1, d). Inr (ParsedExpression None es1, d))"
| "substitute_expr sc enums large (ParsedExpression (Some node) es) =
     bindE (SubstitutePivotEnums sc enums large node) (\<lambda>(node1, d1).
     bindE (substitute_exprs sc enums large es) (\<lambda>(es1, d2). Inr (ParsedExpression (Some node1) es1, d1 \<or> d2)))"
| "substitute_exprs sc enums large [] = Inr ([], False)"
| "substitute_exprs sc enums large (e # rest) =
     bindE (substitute_expr sc enums large e) (\<lambda>(e1, d1).
     bindE (substitute_exprs sc enums large rest) (\<lambda>(es1, d2). Inr (e1 # es1, d1 \<or> d2)))"

text \<open>The statement with its query, where the PIVOTs live, substituted.\<close>

fun substitute_statement :: "StatementContext \<Rightarrow> Names \<Rightarrow> bool \<Rightarrow> SQLStatement \<Rightarrow> exn + SQLStatement \<times> bool" where
  "substitute_statement sc enums large (SelectStatement q node) =
     bindE (SubstitutePivotEnums sc enums large node) (\<lambda>(node1, d). Inr (SelectStatement q node1, d))"
| "substitute_statement sc enums large (CreateStatement q info) =
     (case select_query (ci_query info) of
        Some node \<Rightarrow> bindE (SubstitutePivotEnums sc enums large node)
          (\<lambda>(node1, d). Inr (CreateStatement q (info\<lparr>ci_query := Some (SelectQuery node1)\<rparr>), d))
      | None \<Rightarrow> Inl (InternalException ''null query''))"
| "substitute_statement sc enums large _ = Inl (InternalException ''null query'')"

section \<open>Authorization of a statement\<close>

definition CheckRemoteScope :: "StatementContext \<Rightarrow> Result \<Rightarrow> bool \<times> Result" where
  "CheckRemoteScope sc r =
     (if bc_major (sc_bind sc) \<ge> 2 \<and> sc_remote_catalogs sc > 0 \<and> sc_optimizer_enabled sc \<and> \<not> sc_pushdown_disabled sc
      then (False, add_violation (violation rules_STATEMENT
             ''remote SQL pushdown is unsupported: disable remote_pushdown before authorization'') r)
      else (True, r))"

definition AuthorizePivot ::
    "StatementContext \<Rightarrow> bool \<Rightarrow> ParameterMap option \<Rightarrow> SQLStatement \<Rightarrow> Unit \<Rightarrow> Result \<Rightarrow> exn option \<times> Unit \<times> Result" where
  "AuthorizePivot sc large parameters statement unit r =
     (case substitute_statement sc (u_pivot_enums unit) large statement of
        Inl e \<Rightarrow> (Some e, unit, r)
      | Inr (copy, differs) \<Rightarrow>
          if \<not> differs \<and> large then (None, unit, r) else AuthorizeStatement (sc_bind sc) copy parameters unit r)"

definition Authorize ::
    "StatementContext \<Rightarrow> ParameterMap option \<Rightarrow> Unit \<Rightarrow> Result \<Rightarrow> exn option \<times> Unit \<times> Result" where
  "Authorize sc parameters unit r =
     (case CheckRemoteScope sc r of
        (False, r1) \<Rightarrow> (Some (PermissionException ''unsupported remote authorization scope''), unit, r1)
      | (True, r1) \<Rightarrow>
          (case u_statement unit of
             None \<Rightarrow> (Some (InternalException ''null statement''), unit, r1)
           | Some statement \<Rightarrow>
               if u_pivot_enums unit = [] then AuthorizeStatement (sc_bind sc) statement parameters unit r1
               else (case AuthorizePivot sc False parameters statement unit r1 of
                   (None, unit1, r2) \<Rightarrow> AuthorizePivot sc True parameters statement unit1 r2
                 | failed \<Rightarrow> failed)))"

text \<open>The units in the engine's order, into one result.\<close>

definition authorize_units :: "StatementContext \<Rightarrow> Unit list \<Rightarrow> Result \<Rightarrow> Result outcome" where
  "authorize_units sc units r =
     foldO (\<lambda>unit r. case Authorize sc None unit r of (e, _, r1) \<Rightarrow> (e, r1)) units r"

definition describe_failure :: "StatementContext \<Rightarrow> exn \<Rightarrow> bool \<Rightarrow> Result \<Rightarrow> exn + Result" where
  "describe_failure sc e binding r =
     (case DescribeError (sc_type_name sc) e binding r of
        (False, _) \<Rightarrow> Inl e
      | (True, r1) \<Rightarrow> Inr (MarkDenied r1))"

definition Check_sql :: "StatementContext \<Rightarrow> string \<Rightarrow> Limits \<Rightarrow> exn + Result" where
  "Check_sql sc sql limits =
     (case CheckText (sc_text sc) (bc_layers (sc_bind sc)) sql limits of
        Inl e \<Rightarrow> describe_failure sc e False empty_result
      | Inr text \<Rightarrow>
          (case authorize_units sc (tc_units text) empty_result of
             (Some e, r) \<Rightarrow> describe_failure sc e True r
           | (None, r) \<Rightarrow>
               if \<not> r_allowed (tc_result text) then Inr (tc_result text)
               else Inr (r\<lparr>r_allowed := True, r_code := codes_OK\<rparr>)))"

section \<open>Pivot arithmetic\<close>

lemma unat_64: "unat (w :: 64 word) < 2 ^ 64"
proof -
  have "unat w < 2 ^ LENGTH(64)" by (rule unsigned_less)
  then show ?thesis by simp
qed

lemma unat_div_word: "unat (a div b :: 64 word) = unat a div unat b"
  by (simp add: unat_div_distrib)

lemma pivot_multiply_exact:
  "unat (pivot_multiply limit fixed values) = min (unat limit) (unat fixed * unat values)"
proof (cases "fixed = 0 \<or> values = 0")
  case False
  then have pos: "0 < unat fixed" "0 < unat values" by (simp_all add: unat_gt_0)
  have cmp: "values > limit div fixed \<longleftrightarrow> unat limit < unat fixed * unat values"
  proof -
    have "values > limit div fixed \<longleftrightarrow> unat limit div unat fixed < unat values"
      by (simp add: word_less_nat_alt unat_div_word)
    also have "\<dots> \<longleftrightarrow> unat limit < unat values * unat fixed"
      using pos(1) by (rule div_less_iff_less_mult)
    finally show ?thesis by (simp add: mult.commute)
  qed
  show ?thesis
  proof (cases "values > limit div fixed")
    case True
    with False cmp show ?thesis by (simp add: pivot_multiply_def)
  next
    case le: False
    with cmp have "unat fixed * unat values \<le> unat limit" by simp
    moreover from this have "unat (fixed * values) = unat fixed * unat values"
      by (intro unat_mult_lem [THEN iffD1]) (use unat_64 [of limit] in simp)
    ultimately show ?thesis using False le by (simp add: pivot_multiply_def)
  qed
qed (auto simp: pivot_multiply_def)

lemma min_mult_min:
  assumes "1 \<le> p" shows "min l (min l a * p) = min l (a * p :: nat)"
proof (cases "a \<le> l")
  case False
  have lp: "l \<le> l * p" and "a \<le> a * p"
    using mult_le_mono2 [OF assms, of l] mult_le_mono2 [OF assms, of a] by (simp_all only: mult_1_right)
  then have "l \<le> a * p" using False by linarith
  with lp False show ?thesis by (simp add: min_absorb1)
qed simp

lemma pivot_product:
  "unat (fold (\<lambda>v fixed. pivot_multiply limit fixed v) vs fixed) =
     (if vs = [] then unat fixed else min (unat limit) (unat fixed * prod_list (map unat vs)))"
proof (induction vs arbitrary: fixed)
  case (Cons v vs)
  show ?case
  proof (cases "vs = [] \<or> prod_list (map unat vs) = 0")
    case False
    then have "1 \<le> prod_list (map unat vs)" by (simp add: Suc_le_eq)
    with False show ?thesis by (simp add: Cons.IH pivot_multiply_exact min_mult_min mult.assoc)
  qed (auto simp: Cons.IH pivot_multiply_exact)
qed simp

lemma Least_multiple:
  assumes "0 < f" shows "(LEAST n. t < f * n) = t div f + (1 :: nat)"
proof (rule Least_equality)
  show "t < f * (t div f + 1)" using assms dividend_less_times_div [of f t] by simp
  show "t div f + 1 \<le> n" if "t < f * n" for n
    using that assms by (simp add: Suc_le_eq div_less_iff_less_mult mult.commute)
qed

text \<open>The successor of a 64-bit count wraps to zero.\<close>

lemma unat_successor: "unat (a + 1 :: 64 word) = (if unat a + 1 < 2 ^ 64 then unat a + 1 else 0)"
proof (cases "unat a + 1 < 2 ^ 64")
  case True
  then show ?thesis using unat_add_lem [of a 1] by simp
next
  case False
  then have "unat a = 2 ^ 64 - 1" using unat_64 [of a] by simp
  then have "a = - 1" by (simp add: word_unat_eq_iff unsigned_minus_1_eq_mask mask_eq_exp_minus_1)
  then show ?thesis using False by simp
qed

lemma pivot_count_value:
  "unat (pivot_count threshold limit True fixed) =
     (if 0 < unat fixed \<and> unat fixed \<le> unat threshold \<and>
         (\<exists>n. unat threshold < unat fixed * n \<and> unat fixed * n < unat limit)
      then LEAST n. unat threshold < unat fixed * n else 1)"
proof (cases "0 < unat fixed \<and> unat fixed \<le> unat threshold \<and> 0 < unat limit")
  case True
  let ?f = "unat fixed" and ?t = "unat threshold" and ?l = "unat limit"
  let ?c = "threshold div fixed + 1"
  from True have pos: "0 < ?f" "?f \<le> ?t" "0 < ?l" by simp_all
  have mono: "n \<le> ?f * n" for n using mult_le_mono1 [of 1 ?f n] pos(1) by simp
  have d: "unat (threshold div fixed) = ?t div ?f" by (rule unat_div_word)
  have l1: "unat (limit - 1) = ?l - 1" using pos(3) by (simp add: unat_minus_one unat_gt_0)
  have top: "unat ?c = (if ?t div ?f + 1 < 2 ^ 64 then ?t div ?f + 1 else 0)"
    using unat_successor [of "threshold div fixed"] unfolding d .
  have ex: "(\<exists>n. ?t < ?f * n \<and> ?f * n < ?l) \<longleftrightarrow> ?f * (?t div ?f + 1) < ?l"
  proof
    assume "\<exists>n. ?t < ?f * n \<and> ?f * n < ?l"
    then obtain n where n: "?t < ?f * n" "?f * n < ?l" by blast
    then have "?t div ?f + 1 \<le> n" using pos(1) by (simp add: Suc_le_eq div_less_iff_less_mult mult.commute)
    with n(2) show "?f * (?t div ?f + 1) < ?l" using mult_le_mono2 le_less_trans by blast
  qed (use dividend_less_times_div [OF pos(1), of ?t] in \<open>auto intro!: exI [of _ "?t div ?f + 1"]\<close>)
  have fit: "?f * (?t div ?f + 1) < ?l \<longleftrightarrow> ?t div ?f + 1 \<le> (?l - 1) div ?f"
    using pos by (simp add: less_eq_div_iff_mult_less_eq mult.commute) linarith
  have "(0 < ?c \<and> ?c \<le> (limit - 1) div fixed) \<longleftrightarrow> ?f * (?t div ?f + 1) < ?l"
  proof (cases "?t div ?f + 1 < 2 ^ 64")
    case True
    then show ?thesis using top fit by (simp add: word_less_nat_alt word_le_nat_alt unat_div_word l1 del: unat_div)
  next
    case False
    have "?t div ?f + 1 \<le> ?f * (?t div ?f + 1)" by (rule mono)
    then have "2 ^ 64 \<le> ?f * (?t div ?f + 1)" using False by (metis not_less order_trans)
    then have "\<not> ?f * (?t div ?f + 1) < ?l" using unat_64 [of limit] by simp
    then show ?thesis using top False by (simp add: word_less_nat_alt)
  qed
  moreover have "unat ?c = ?t div ?f + 1" if "?f * (?t div ?f + 1) < ?l"
  proof -
    have "?t div ?f + 1 \<le> ?f * (?t div ?f + 1)" by (rule mono)
    with that unat_64 [of limit] top show ?thesis by (simp split: if_splits)
  qed
  ultimately show ?thesis
    using True pos by (auto simp: pivot_count_def Let_def word_less_nat_alt word_le_nat_alt ex Least_multiple)
qed (auto simp: pivot_count_def word_less_nat_alt word_le_nat_alt)

section \<open>Completed checks\<close>

lemma AuthorizeStatement_clean: "AuthorizeStatement cx st ps u r = (None, u', r') \<Longrightarrow> r_violations r' = []"
  using AuthorizeStatement_bound by blast

text \<open>
  A unit whose statement was privately bound from what the unit knew: as it is, or, where it names enum types
  that do not exist yet, with their placeholder values in every shape the engine can choose, the large one
  from what the small one left behind.
\<close>

definition unit_bound :: "StatementContext \<Rightarrow> ParameterMap option \<Rightarrow> Unit \<Rightarrow> Provenance \<Rightarrow> bool" where
  "unit_bound sc parameters unit known \<longleftrightarrow>
     (\<exists>statement. u_statement unit = Some statement \<and>
        (if u_pivot_enums unit = []
         then privately_bound (sc_bind sc) statement parameters (u_binding unit) (u_provenance unit) known
         else (\<exists>small d1 large d2 between.
                 substitute_statement sc (u_pivot_enums unit) False statement = Inr (small, d1) \<and>
                 privately_bound (sc_bind sc) small parameters (u_binding unit) (u_provenance unit) between \<and>
                 substitute_statement sc (u_pivot_enums unit) True statement = Inr (large, d2) \<and>
                 (if d2 then privately_bound (sc_bind sc) large parameters (u_binding unit) between known
                  else known = between))))"

lemma AuthorizePivot_bound:
  assumes "AuthorizePivot sc large parameters statement unit r = (None, unit', r')"
  shows "\<exists>copy differs. substitute_statement sc (u_pivot_enums unit) large statement = Inr (copy, differs) \<and>
    (if differs \<or> \<not> large
     then privately_bound (sc_bind sc) copy parameters (u_binding unit) (u_provenance unit) (u_provenance unit')
     else unit' = unit) \<and>
    (r_violations r = [] \<or> differs \<or> \<not> large \<longrightarrow> r_violations r' = []) \<and> unit_text unit' = unit_text unit"
proof (cases "substitute_statement sc (u_pivot_enums unit) large statement")
  case (Inr out)
  obtain copy differs where out: "out = (copy, differs)" by (cases out)
  show ?thesis
  proof (cases "\<not> differs \<and> large")
    case True
    with assms Inr out show ?thesis by (intro exI [of _ copy] exI [of _ False]) (simp add: AuthorizePivot_def)
  next
    case False
    with assms Inr out have "AuthorizeStatement (sc_bind sc) copy parameters unit r = (None, unit', r')"
      by (auto simp: AuthorizePivot_def)
    from AuthorizeStatement_bound [OF this] Inr out False show ?thesis by auto
  qed
qed (use assms in \<open>simp add: AuthorizePivot_def\<close>)

lemma Authorize_bound:
  assumes "Authorize sc ps u r = (None, u', r')"
  shows "r_violations r' = [] \<and> unit_bound sc ps u (u_provenance u') \<and> unit_text u' = unit_text u"
proof -
  from assms obtain statement r1 where statement: "u_statement u = Some statement"
    and run: "(if u_pivot_enums u = [] then AuthorizeStatement (sc_bind sc) statement ps u r1
       else (case AuthorizePivot sc False ps statement u r1 of
           (None, unit1, r2) \<Rightarrow> AuthorizePivot sc True ps statement unit1 r2
         | failed \<Rightarrow> failed)) = (None, u', r')"
    by (auto simp: Authorize_def split: prod.splits bool.splits option.splits)
  show ?thesis
  proof (cases "u_pivot_enums u = []")
    case True
    with run AuthorizeStatement_bound [of "sc_bind sc" statement ps u r1 u' r'] statement show ?thesis
      by (simp add: unit_bound_def)
  next
    case False
    with run obtain u1 r2 where small: "AuthorizePivot sc False ps statement u r1 = (None, u1, r2)"
      and large: "AuthorizePivot sc True ps statement u1 r2 = (None, u', r')"
      by (auto split: prod.splits option.splits)
    from AuthorizePivot_bound [OF small] obtain copy d where s:
      "substitute_statement sc (u_pivot_enums u) False statement = Inr (copy, d)"
      "privately_bound (sc_bind sc) copy ps (u_binding u) (u_provenance u) (u_provenance u1)" "r_violations r2 = []"
      and u1: "u_binding u1 = u_binding u" "u_pivot_enums u1 = u_pivot_enums u" "unit_text u1 = unit_text u"
      by (auto simp: unit_text_def)
    from AuthorizePivot_bound [OF large] obtain copy2 d2 where l:
      "substitute_statement sc (u_pivot_enums u) True statement = Inr (copy2, d2)"
      "if d2 then privately_bound (sc_bind sc) copy2 ps (u_binding u) (u_provenance u1) (u_provenance u') else u' = u1"
      "r_violations r2 = [] \<or> d2 \<longrightarrow> r_violations r' = []" "unit_text u' = unit_text u"
      unfolding u1 by auto
    have "unit_bound sc ps u (u_provenance u')"
      unfolding unit_bound_def using statement False s(1,2) l(1,2)
      by (simp split: if_splits) (intro exI [of _ copy] exI conjI; (assumption | blast))+
    with l s show ?thesis by simp
  qed
qed

lemma Authorize_unit:
  assumes "Authorize sc ps u r = (e, u', r')"
  shows "unit_text u' = unit_text u \<and> unattributed (u_provenance u') = unattributed (u_provenance u)"
proof -
  have pivot: "unit_text v' = unit_text v \<and> unattributed (u_provenance v') = unattributed (u_provenance v)"
    if "AuthorizePivot sc large ps statement v s = (e1, v', s')" for large statement v s e1 v' s'
    using that AuthorizeStatement_unit
    by (auto simp: AuthorizePivot_def split: sum.splits prod.splits if_splits)
  show ?thesis
    using assms AuthorizeStatement_unit
    by (auto simp: Authorize_def split: prod.splits bool.splits option.splits if_splits dest!: pivot)
qed

lemma Authorize_clean: "Authorize sc ps u r = (None, u', r') \<Longrightarrow> r_violations r' = []"
  using Authorize_bound by blast

lemma authorize_units_clean:
  assumes "authorize_units sc units r = (None, r')" and "units \<noteq> []"
  shows "r_violations r' = [] \<and> list_all (\<lambda>u. \<exists>known. unit_bound sc None u known) units"
  using assms
proof (induction units arbitrary: r)
  case (Cons u units)
  from Cons.prems(1) obtain u1 r1 where one: "Authorize sc None u r = (None, u1, r1)"
    and rest: "authorize_units sc units r1 = (None, r')"
    by (auto simp: authorize_units_def seqO_eq_None split: prod.splits)
  show ?case
  proof (cases "units = []")
    case True
    with rest have "r' = r1" by (simp add: authorize_units_def)
    with Authorize_bound [OF one] True show ?thesis by auto
  next
    case False
    with Cons.IH [OF rest] Authorize_bound [OF one] show ?thesis by auto
  qed
qed simp

section \<open>Properties\<close>

text \<open>C28. The placeholder counts of a dynamic PIVOT are exact in 64-bit arithmetic. The values of the static
  columns multiply to their true product, saturated at the limit; the large shape gives the first
  dynamic column the least number of values that carries the total past the threshold, exactly when
  some number does so while staying under the limit; otherwise, and in the small shape, one value.\<close>

theorem pivot_counts_exact:
  "unat (fold (\<lambda>v fixed. pivot_multiply limit fixed v) vs 1) =
     (if vs = [] then 1 else min (unat limit) (prod_list (map unat vs))) \<and>
   unat (pivot_count threshold limit True fixed) =
     (if 0 < unat fixed \<and> unat fixed \<le> unat threshold \<and>
         (\<exists>n. unat threshold < unat fixed * n \<and> unat fixed * n < unat limit)
      then LEAST n. unat threshold < unat fixed * n else 1) \<and>
   pivot_count threshold limit False fixed = 1"
  using pivot_product [of limit vs 1] pivot_count_value by (simp add: pivot_count_def)

text \<open>C2. \<open>gatekeeper_validate\<close> answers yes only when everything passed. The text was admitted and every unit it
  contains is an admitted read of which nothing was known yet; every unit was privately bound, in every plan
  shape the engine can choose for it, to a plan both layers allow under exactly what the catalog lookups of
  that bind learned, with no function or object left unattributed and every catalog entry its binders
  retrieved enforced; the result carries no violation and its code is \<open>ok\<close>.\<close>

theorem Check_allows_only_authorized:
  assumes "Check_sql sc sql limits = Inr r" and "r_allowed r"
  shows "r_code r = codes_OK \<and> r_violations r = [] \<and>
    (\<exists>check. CheckText (sc_text sc) (bc_layers (sc_bind sc)) sql limits = Inr check \<and> r_allowed (tc_result check) \<and>
       tc_units check \<noteq> [] \<and>
       list_all (admitted_unit (sc_text sc) (bc_layers (sc_bind sc)) limits) (tc_units check) \<and>
       list_all (\<lambda>u. u_provenance u = empty_provenance \<and> \<not> unattributed (u_provenance u)) (tc_units check) \<and>
       list_all (\<lambda>u. \<exists>known. unit_bound sc None u known) (tc_units check))"
proof -
  have no: "\<not> r_allowed r" if "describe_failure sc e b s = Inr r" for e b s
    using that by (auto simp: describe_failure_def MarkDenied_def Let_def split: prod.splits bool.splits if_splits)
  obtain check where c: "CheckText (sc_text sc) (bc_layers (sc_bind sc)) sql limits = Inr check"
    using assms no by (auto simp: Check_sql_def split: sum.splits)
  note wf = CheckText_wf [OF c, unfolded wf_text_def]
  obtain r1 where u: "authorize_units sc (tc_units check) empty_result = (None, r1)"
    and a: "r_allowed (tc_result check)" and r: "r = r1\<lparr>r_allowed := True, r_code := codes_OK\<rparr>"
    using assms c no by (auto simp: Check_sql_def split: prod.splits option.splits if_splits)
  from wf a have "tc_units check \<noteq> []" by simp
  moreover have "list_all (\<lambda>u. u_provenance u = empty_provenance \<and> \<not> unattributed (u_provenance u)) (tc_units check)"
    using wf by (auto simp: list_all_iff admitted_unit_def empty_provenance_def split: option.splits)
  ultimately show ?thesis using authorize_units_clean [OF u] c a r wf by auto
qed

text \<open>The sample grammar with the statement list of a serialized text at its root.\<close>

definition session_grammar :: json where
  "session_grammar = JObj
     [(''rules'', JObj
        [(''root'', JObj [(''fields'', JObj [(''error'', JStr ''boolean''), (''statements'', JStr ''ParsedExpression[]'')]),
            (''required'', JArr [])]),
         (''ConstantExpression'', JObj [(''fields'', JObj [(''class'', JStr ''string''), (''type'', JStr ''string''),
            (''value'', JStr ''opaque'')]), (''required'', JArr [])])]),
      (''dispatch'', JObj [(''ParsedExpression'', JObj [(''CONSTANT'', JStr ''ConstantExpression'')])])]"

definition session_engine :: TextEngine where
  "session_engine = \<lparr>te_parse = (\<lambda>sql. Inr [SelectStatement sql sample_query]),
     te_serialize = (\<lambda>_. JObj [(''class'', JStr ''CONSTANT''), (''type'', JStr ''VALUE_CONSTANT''), (''value'', JNull)]),
     te_written = (\<lambda>_. 100),
     te_inventory = (case make_Inventory (Some session_grammar) (Some sample_defaults) of
       Inr data \<Rightarrow> data | Inl _ \<Rightarrow> \<lparr>inv_rules = Map.empty, inv_dispatch = Map.empty, inv_defaults = []\<rparr>)\<rparr>"

definition sample_session :: StatementContext where
  "sample_session = \<lparr>sc_bind = sample_context, sc_text = session_engine, sc_remote_catalogs = 0, sc_optimizer_enabled = True,
     sc_pushdown_disabled = False, sc_pivot_threshold = 20, sc_pivot_limit = 100000, sc_enum_size = (\<lambda>_. Inr None),
     sc_type_name = (\<lambda>_. [])\<rparr>"

lemma sample_session_allowed:
  "case Check_sql sample_session ''SELECT NULL'' sample_limits of Inr r \<Rightarrow> r_allowed r | Inl e \<Rightarrow> False"
  by code_simp

theorem Check_allows_only_authorized_witness:
  "\<exists>r. Check_sql sample_session ''SELECT NULL'' sample_limits = Inr r \<and> r_allowed r \<and> r_violations r = []"
proof -
  obtain r where h: "Check_sql sample_session ''SELECT NULL'' sample_limits = Inr r" "r_allowed r"
    using sample_session_allowed by (auto split: sum.splits)
  show ?thesis using h Check_allows_only_authorized [OF h] by blast
qed

end
