(* ===== verification/Table_Function.thy ===== *)
theory Table_Function
  imports Audit_Model
begin

text \<open>
  What the table functions of the SQL surface share: the row a call appends to the engine's chunk
  (\<open>AppendResultRow\<close> and \<open>RunAtOnce\<close> of \<open>src/src/include/engine_api.hpp\<close>), the state that makes each of them
  produce one row (\<open>src/src/include/single_row.hpp\<close>), and the engine's loop over a function, which calls it
  until it has the rows it wants. The contract \<open>single_row\<close> is what a function promises that loop.
\<close>

section \<open>Rows\<close>

record DataChunk =
  dc_columns :: "Value list list"
  dc_count :: nat

definition empty_chunk :: "nat \<Rightarrow> DataChunk" where
  "empty_chunk n = \<lparr>dc_columns = replicate n [], dc_count = 0\<rparr>"

text \<open>
  The engine's side of a row: its version, and the check of a chunk's cardinality, which can refuse it and
  settles its count.
\<close>

record OutputEngine =
  oe_major :: nat
  oe_check :: "nat \<Rightarrow> DataChunk \<Rightarrow> DataChunk outcome"

definition Append :: "Value \<Rightarrow> Value list \<Rightarrow> Value list" where
  "Append v column = column @ [v]"

definition SetValue :: "Value \<Rightarrow> Value list \<Rightarrow> Value list" where
  "SetValue v column = v # tl column"

fun write_fields :: "(Value \<Rightarrow> Value list \<Rightarrow> Value list) \<Rightarrow> Value list \<Rightarrow> Value list list \<Rightarrow> Value list list" where
  "write_fields f (v # fds) (column # columns) = f v column # write_fields f fds columns"
| "write_fields f _ columns = columns"

definition AppendResultRow :: "OutputEngine \<Rightarrow> Value list \<Rightarrow> DataChunk \<Rightarrow> DataChunk outcome" where
  "AppendResultRow oe fds output =
     (if oe_major oe \<ge> 2
      then oe_check oe 1 (output\<lparr>dc_columns := write_fields Append fds (dc_columns output)\<rparr>)
      else (None, output\<lparr>dc_columns := write_fields SetValue fds (dc_columns output), dc_count := 1\<rparr>))"

text \<open>A cardinality check that accepts a chunk whose columns all have the rows it is told, and sets the count.\<close>

definition checks_cardinality :: "OutputEngine \<Rightarrow> bool" where
  "checks_cardinality oe \<longleftrightarrow>
     (\<forall>n output. list_all (\<lambda>column. length column = n) (dc_columns output) \<longrightarrow> oe_check oe n output = (None, output\<lparr>dc_count := n\<rparr>))"

definition row_chunk :: "Value list \<Rightarrow> DataChunk" where
  "row_chunk fds = \<lparr>dc_columns = map (\<lambda>v. [v]) fds, dc_count = 1\<rparr>"

lemma write_fields_empty:
  "write_fields Append fds (replicate (length fds) []) = map (\<lambda>v. [v]) fds"
  "write_fields SetValue fds (replicate (length fds) []) = map (\<lambda>v. [v]) fds"
  by (induction fds) (simp_all add: Append_def SetValue_def)

lemma AppendResultRow_empty:
  assumes "oe_major oe < 2 \<or> checks_cardinality oe"
  shows "AppendResultRow oe fds (empty_chunk (length fds)) = (None, row_chunk fds)"
  using assms
  by (auto simp: AppendResultRow_def empty_chunk_def row_chunk_def write_fields_empty checks_cardinality_def list_all_iff)

section \<open>Binding\<close>

text \<open>
  Whether a statement must complete when it is submitted: the mark exists on some engines of the second
  version only, and there is a binder to set it on when the function is bound in a statement.
\<close>

definition RunAtOnce :: "nat \<Rightarrow> bool \<Rightarrow> bool \<Rightarrow> bool \<Rightarrow> bool" where
  "RunAtOnce major has_eagerness has_binder forced = (if major \<ge> 2 \<and> has_binder \<and> has_eagerness then True else forced)"

text \<open>Options are registered under these names.\<close>

definition RegisterOptions :: "string list \<Rightarrow> string list" where
  "RegisterOptions names = names @ [''json'']"

section \<open>Execution\<close>

text \<open>The global state of a function: whether it has produced its row.\<close>

type_synonym SingleRowState = bool

definition InitSingleRow :: SingleRowState where
  "InitSingleRow = False"

text \<open>One call: whether the function has finished, the state it acts on, and the chunk it fills.\<close>

type_synonym 's call = "SingleRowState \<Rightarrow> 's \<Rightarrow> DataChunk \<Rightarrow> exn option \<times> SingleRowState \<times> 's \<times> DataChunk"

text \<open>The engine's loop: some number of calls, each on an empty chunk, until one throws.\<close>

fun fetches :: "'s call \<Rightarrow> nat \<Rightarrow> nat \<Rightarrow> bool \<Rightarrow> 's \<Rightarrow> exn option \<times> bool \<times> 's \<times> DataChunk list" where
  "fetches run width 0 finished s = (None, finished, s, [])"
| "fetches run width (Suc n) finished s =
     (case run finished s (empty_chunk width) of
        (Some e, finished, s, _) \<Rightarrow> (Some e, finished, s, [])
      | (None, finished, s, output) \<Rightarrow>
          (case fetches run width n finished s of (e, finished, s, outputs) \<Rightarrow> (e, finished, s, output # outputs)))"

locale single_row =
  fixes run :: "'s call"
  assumes finished_stays: "run True s output = (None, True, s, output)"
    and finishes: "run False s output = (None, finished, s', output') \<Longrightarrow> finished"
begin

lemma fetches_finished: "fetches run width n True s = (None, True, s, replicate n (empty_chunk width))"
  by (induction n) (simp_all add: finished_stays)

lemma one_row:
  "fetches run width (Suc n) False s =
     (case run False s (empty_chunk width) of
        (Some e, finished, s, _) \<Rightarrow> (Some e, finished, s, [])
      | (None, _, s, output) \<Rightarrow> (None, True, s, output # replicate n (empty_chunk width)))"
  using finishes [of s "empty_chunk width"]
  by (auto simp: fetches_finished split: prod.splits option.splits)

end

end
