(* ===== verification/Policy_Setting.thy ===== *)
theory Policy_Setting
  imports Statement_Check Table_Function
begin

text \<open>
  The instance-wide settings and the SQL functions over them (\<open>src/src/policy_setting.cpp\<close>,
  \<open>src/src/gatekeeper_extension.cpp\<close>, and \<open>SetLogOnly\<close> of \<open>src/src/enforcement.cpp\<close>): the stored policy and
  its replacement, \<open>gatekeeper_validate\<close>, and the check of the host engine at load. The database is
  the record of what they read and write; the log is the list of records written.
\<close>

datatype SetScope = SCOPE_AUTOMATIC | SCOPE_LOCAL | SCOPE_SESSION | SCOPE_GLOBAL

record Database =
  db_policy :: "Value option"
  db_log_only :: "Value option"
  db_locked :: "exn option"
  db_log :: "LogRecord list"

text \<open>\<open>std::invalid_argument\<close>, rethrown as an exception of the engine.\<close>

definition rethrow_invalid :: "(string \<Rightarrow> exn) \<Rightarrow> exn + 'a \<Rightarrow> exn + 'a" where
  "rethrow_invalid wrap r = (case r of Inl (InvalidArgument m) \<Rightarrow> Inl (wrap m) | _ \<Rightarrow> r)"

section \<open>The stored policy\<close>

definition SetPolicy :: "AuditEngine \<Rightarrow> SetScope \<Rightarrow> Value \<Rightarrow> LogRecord list \<Rightarrow> exn + Value \<times> LogRecord list" where
  "SetPolicy ae scope v records =
     (if scope = SCOPE_SESSION \<or> scope = SCOPE_LOCAL then Inl (InvalidInputException ''gatekeeper_policy is global-only'')
      else bindE (rethrow_invalid InvalidInputException (ReadPolicy v)) (\<lambda>policy.
        case LogSettingChange ae ''policy_changed'' (PolicyValue policy) (Some policy) records of
          (Some e, _) \<Rightarrow> Inl e
        | (None, records) \<Rightarrow> Inr (PolicyValue policy, records)))"

definition GlobalPolicy :: "Value option \<Rightarrow> exn + Policy" where
  "GlobalPolicy setting = (case setting of
     None \<Rightarrow> Inl (InvalidArgument ''gatekeeper_policy is unavailable'') | Some v \<Rightarrow> ReadPolicy v)"

text \<open>The policy, or the result that reports why there is none.\<close>

definition TryGlobalPolicy :: "Value option \<Rightarrow> exn + Result + Policy" where
  "TryGlobalPolicy setting = (case GlobalPolicy setting of
     Inr p \<Rightarrow> Inr (Inr p)
   | Inl (InvalidArgument m) \<Rightarrow> Inr (Inl (InvalidInput (''cannot read the global policy: '' @ m)))
   | Inl e \<Rightarrow> Inl e)"

definition named_options :: "(string \<times> Value) list \<Rightarrow> (string \<times> Value) list" where
  "named_options parameters = map (\<lambda>(name, v). (Lower name, v)) parameters"

definition BindConfigure ::
    "(string \<Rightarrow> (nat \<times> string) + json) \<Rightarrow> nat option \<Rightarrow> (string \<times> Value) list \<Rightarrow> exn + Value" where
  "BindConfigure read_json written parameters =
     rethrow_invalid BinderException
       (if (case written of Some n \<Rightarrow> n \<noteq> length parameters | None \<Rightarrow> False)
        then Inl (InvalidArgument ''duplicate Gatekeeper option'')
        else bindE (ApplyArguments read_json default_policy (named_options parameters)) (\<lambda>policy. Inr (PolicyValue policy)))"

text \<open>The value is stored once the change is recorded.\<close>

definition Configure :: "OutputEngine \<Rightarrow> AuditEngine \<Rightarrow> Value \<Rightarrow> Database call" where
  "Configure oe ae bound finished db output =
     (if finished then (None, True, db, output)
      else case db_locked db of
          Some e \<Rightarrow> (Some e, False, db, output)
        | None \<Rightarrow>
            (case SetPolicy ae SCOPE_GLOBAL bound (db_log db) of
               Inl e \<Rightarrow> (Some e, False, db, output)
             | Inr (v, records) \<Rightarrow>
                 (case AppendResultRow oe [VBool True] output of
                    (e, output) \<Rightarrow> (e, True, db\<lparr>db_policy := Some v, db_log := records\<rparr>, output))))"

definition SetLogOnly :: "AuditEngine \<Rightarrow> SetScope \<Rightarrow> Value \<Rightarrow> LogRecord list \<Rightarrow> exn + LogRecord list" where
  "SetLogOnly ae scope v records =
     (if scope = SCOPE_SESSION \<or> scope = SCOPE_LOCAL then Inl (InvalidInputException ''gatekeeper_log_only is global-only'')
      else if IsNull v then Inl (InvalidInputException ''gatekeeper_log_only must be true or false'')
      else case LogSettingChange ae ''log_only_changed'' v None records of
          (Some e, _) \<Rightarrow> Inl e
        | (None, records) \<Rightarrow> Inr records)"

section \<open>gatekeeper_validate\<close>

record ValidateBinding =
  vb_sql :: Value
  vb_options :: "(string \<times> Value) list"

definition BindValidate :: "nat option \<Rightarrow> Value \<Rightarrow> (string \<times> Value) list \<Rightarrow> exn + ValidateBinding" where
  "BindValidate written sql parameters =
     (if (case written of Some n \<Rightarrow> n \<noteq> length parameters + 1 | None \<Rightarrow> False)
      then Inl (BinderException ''duplicate Gatekeeper option'')
      else bindE (rethrow_invalid BinderException (CheckArguments (named_options parameters)))
             (\<lambda>_. Inr \<lparr>vb_sql = sql, vb_options = named_options parameters\<rparr>))"

definition sql_text :: "Value \<Rightarrow> string" where
  "sql_text v = (case v of VVarchar s \<Rightarrow> s | _ \<Rightarrow> [])"

definition with_layers :: "Policy \<Rightarrow> Policy \<Rightarrow> StatementContext \<Rightarrow> StatementContext" where
  "with_layers ceil request sc =
     sc\<lparr>sc_bind := (sc_bind sc)\<lparr>bc_layers := \<lparr>ceiling_layer = ceil, request_layer = request\<rparr>\<rparr>\<rparr>"

definition validate_decision ::
    "(string \<Rightarrow> (nat \<times> string) + json) \<Rightarrow> StatementContext \<Rightarrow> ValidateBinding \<Rightarrow> Value option \<Rightarrow> exn + Result" where
  "validate_decision read_json sc binding setting =
     (case bindE (GlobalPolicy setting) (\<lambda>global.
          bindE (ApplyArguments read_json global (vb_options binding)) (\<lambda>policy.
            if IsNull (vb_sql binding) then Inr (InvalidInput ''NULL SQL input'')
            else Check_sql (with_layers global policy sc) (sql_text (vb_sql binding)) default_limits)) of
        Inl (InvalidArgument m) \<Rightarrow> Inr (InvalidInput m)
      | r \<Rightarrow> r)"

definition validate_site :: "ValidateBinding \<Rightarrow> Value option \<Rightarrow> DecisionSite" where
  "validate_site binding setting =
     \<lparr>site_mode = VALIDATE, site_boundary = NO_BOUNDARY,
      site_policy = (case GlobalPolicy setting of Inr p \<Rightarrow> Some p | Inl _ \<Rightarrow> None),
      site_statement = (if IsNull (vb_sql binding) then None else Some (sql_text (vb_sql binding)))\<rparr>"

definition GatekeeperValidate ::
    "OutputEngine \<Rightarrow> (string \<Rightarrow> (nat \<times> string) + json) \<Rightarrow> StatementContext \<Rightarrow> AuditEngine \<Rightarrow> ValidateBinding \<Rightarrow> Database call" where
  "GatekeeperValidate oe read_json sc ae binding finished db output =
     (if finished then (None, True, db, output)
      else case validate_decision read_json sc binding (db_policy db) of
          Inl e \<Rightarrow> (Some e, False, db, output)
        | Inr decision \<Rightarrow>
            (case Decide ae (validate_site binding (db_policy db)) decision (db_log db) of
               (Some e, records) \<Rightarrow> (Some e, False, db\<lparr>db_log := records\<rparr>, output)
             | (None, records) \<Rightarrow>
                 (case AppendResultRow oe (StructValue_GetChildren (ResultValue decision)) output of
                    (e, output) \<Rightarrow> (e, e = None, db\<lparr>db_log := records\<rparr>, output))))"

section \<open>The engine the extension was built for\<close>

record BuildEngine =
  be_version :: string
  be_source_id :: string

definition ParseBuildEngine :: "(string \<Rightarrow> string list) \<Rightarrow> string \<Rightarrow> string \<Rightarrow> exn + BuildEngine" where
  "ParseBuildEngine split version stamp =
     (let text = c_string stamp; parts = split text
      in if length parts \<noteq> 3 \<or> parts ! 0 \<noteq> ''GATEKEEPER_BUILD_ENGINE''
         then Inl (InvalidInputException (''Gatekeeper '' @ version @ '' has a malformed build engine stamp: '' @ text))
         else Inr \<lparr>be_version = parts ! 1, be_source_id = parts ! 2\<rparr>)"

definition release :: "string \<Rightarrow> bool" where
  "release version \<longleftrightarrow> \<not> sublist ''-dev'' version"

text \<open>The host's identity as its catalog reports it, or the error that reading it raised.\<close>

definition CheckBuildEngine :: "(string \<Rightarrow> string list) \<Rightarrow> string \<Rightarrow> string \<Rightarrow> string + BuildEngine \<Rightarrow> exn + unit" where
  "CheckBuildEngine split version stamp host =
     (case host of
        Inl what \<Rightarrow>
          Inl (InvalidInputException (''Gatekeeper '' @ version @ '' cannot determine the host DuckDB engine: '' @ what))
      | Inr engine \<Rightarrow>
          bindE (ParseBuildEngine split version stamp) (\<lambda>build.
            let expected = (if release (be_version build) then be_version build else be_source_id build);
                actual = (if release (be_version engine) then be_version engine else be_source_id engine)
            in if release (be_version build) \<noteq> release (be_version engine) \<or> actual \<noteq> expected
               then Inl (InvalidInputException (''Gatekeeper '' @ version @ '' was built for DuckDB '' @ be_version build @ '' ('' @
                 be_source_id build @ ''); this engine is '' @ be_version engine @ '' ('' @ be_source_id engine @ '')''))
               else Inr ()))"

section \<open>Properties\<close>

lemma SetPolicy_PolicyValue:
  assumes "wf_policy p"
  shows "SetPolicy ae SCOPE_GLOBAL (PolicyValue p) records =
    (case LogSettingChange ae ''policy_changed'' (PolicyValue p) (Some p) records of
       (Some e, _) \<Rightarrow> Inl e | (None, records) \<Rightarrow> Inr (PolicyValue p, records))"
  using ReadPolicy_PolicyValue [OF assms] by (simp add: SetPolicy_def rethrow_invalid_def)

lemma LogSettingChange_cases:
  obtains (refused) e entry where "ae_sink ae entry = Some e" and "LogSettingChange ae event v p records = (Some e, records)"
  | (kept) records' where "length records' \<le> Suc (length records)" and "LogSettingChange ae event v p records = (None, records')"
proof (cases rule: Write_cases [of ae LOG_INFO event "record_fields ae event (VNull T_VARCHAR) (VNull T_VARCHAR) None None p (Some v)" records])
  case silent
  then show ?thesis using kept [of records] by (simp add: LogSettingChange_def)
next
  case (refused e entry)
  then show ?thesis using that(1) [of entry e] by (simp add: LogSettingChange_def)
next
  case (written entry)
  then show ?thesis using kept [of "records @ [entry]"] by (simp add: LogSettingChange_def)
qed

lemma BindConfigure_value:
  assumes "BindConfigure read_json written parameters = Inr bound"
  shows "\<exists>p. ApplyArguments read_json default_policy (named_options parameters) = Inr p \<and> bound = PolicyValue p"
  using assms by (auto simp: BindConfigure_def rethrow_invalid_def bindE_def split: if_splits sum.splits exn.splits)


definition quiet_audit :: AuditEngine where
  "quiet_audit = \<lparr>ae_should_log = (\<lambda>_. True), ae_sink = (\<lambda>_. None), ae_hash = (\<lambda>_. 0), ae_render = (\<lambda>_. []),
     ae_connection = 1, ae_transaction = Some (4, 7), ae_no_query = 0\<rparr>"

definition plain_output :: OutputEngine where
  "plain_output = \<lparr>oe_major = 1, oe_check = (\<lambda>n output. (None, output\<lparr>dc_count := n\<rparr>))\<rparr>"

definition empty_database :: Database where
  "empty_database = \<lparr>db_policy = None, db_log_only = None, db_locked = None, db_log = []\<rparr>"


end
