(* ===== verification/Enforcement_Model.thy ===== *)
theory Enforcement_Model
  imports Policy_Setting
begin

text \<open>
  Enforcement on a connection (\<open>src/src/enforcement.cpp\<close>, and the part of the replacement-scan callback
  of \<open>src/src/check.cpp\<close> that runs outside a validation): the per-connection state, the engine hooks that
  read and change it, and the replacement gate. What a hook reads of the connection and the database
  at the moment it runs is its argument \<open>HookInput\<close>; the state and the log are passed through.
\<close>

record HookInput =
  hi_session :: StatementContext
  hi_audit :: AuditEngine
  hi_policy :: "Value option"
  hi_log_only :: "Value option"
  hi_active :: "nat option"
  hi_query :: string
  hi_has_parameters :: "SQLStatement \<Rightarrow> bool"

record EnforcementState =
  es_statement_id :: nat
  es_policy :: Policy
  es_result :: Result
  es_log_only :: bool
  es_in_statement :: bool
  es_decided :: bool
  es_prepare_decided :: bool
  es_admitted :: bool
  es_authorized :: bool
  es_executing_prepared :: bool
  es_prescreened :: bool
  es_unit :: Unit

record HookState =
  hs_state :: EnforcementState
  hs_log :: "LogRecord list"

abbreviation major_of :: "HookInput \<Rightarrow> nat" where
  "major_of hi \<equiv> bc_major (sc_bind (hi_session hi))"

abbreviation update :: "(EnforcementState \<Rightarrow> EnforcementState) \<Rightarrow> HookState \<Rightarrow> HookState" where
  "update f st \<equiv> st\<lparr>hs_state := f (hs_state st)\<rparr>"

section \<open>Settings and modes\<close>

definition LogOnlySetting :: "Value option \<Rightarrow> bool" where
  "LogOnlySetting setting \<longleftrightarrow> setting = Some (VBool True)"

definition ModeFor :: "bool \<Rightarrow> DecisionMode" where
  "ModeFor log_only = (if log_only then LOG_ONLY else ENFORCE)"

fun routing_statement :: "SQLStatement \<Rightarrow> bool" where
  "routing_statement (OtherStatement _ kind) \<longleftrightarrow> kind = ''CONNECT_STATEMENT'' \<or> kind = ''DISCONNECT_STATEMENT''"
| "routing_statement _ \<longleftrightarrow> False"

fun text_error :: "exn \<Rightarrow> bool" where
  "text_error (EngineError t _ _) \<longleftrightarrow> t = ET_PARSER \<or> t = ET_INVALID_INPUT"
| "text_error _ \<longleftrightarrow> False"

definition RoutingControl :: "HookInput \<Rightarrow> exn + bool" where
  "RoutingControl hi =
     (if major_of hi \<ge> 2 then
        (case te_parse (sc_text (hi_session hi)) (hi_query hi) of
           Inl e \<Rightarrow> if text_error e then Inr False else Inl e
         | Inr statements \<Rightarrow> Inr (list_ex routing_statement statements))
      else Inr False)"

definition no_unit :: Unit where
  "no_unit = empty_unit None empty_binding"

definition Reset :: EnforcementState where
  "Reset = \<lparr>es_statement_id = 0, es_policy = default_policy, es_result = empty_result, es_log_only = False,
     es_in_statement = False, es_decided = False, es_prepare_decided = False, es_admitted = False, es_authorized = False,
     es_executing_prepared = False, es_prescreened = False, es_unit = no_unit\<rparr>"

definition Snapshot :: "HookInput \<Rightarrow> EnforcementState \<Rightarrow> StatementContext" where
  "Snapshot hi s = with_layers (es_policy s) (es_policy s) (hi_session hi)"

definition CurrentStatement :: "HookInput \<Rightarrow> EnforcementState \<Rightarrow> bool" where
  "CurrentStatement hi s \<longleftrightarrow> es_in_statement s \<and> hi_active hi = Some (es_statement_id s)"

section \<open>Decisions\<close>

definition Record :: "HookInput \<Rightarrow> Boundary \<Rightarrow> Policy option \<Rightarrow> string option \<Rightarrow> HookState \<Rightarrow> HookState outcome" where
  "Record hi boundary in_force sql st =
     (let s = (hs_state st)\<lparr>es_decided := True\<rparr>;
          (e, records) = Decide (hi_audit hi) \<lparr>site_mode = ModeFor (es_log_only s), site_boundary = boundary,
             site_policy = in_force, site_statement = sql\<rparr> (es_result s) (hs_log st)
      in (e, \<lparr>hs_state = s, hs_log = records\<rparr>))"

text \<open>Record the statement in progress under its snapshot.\<close>

definition record_current :: "HookInput \<Rightarrow> Boundary \<Rightarrow> HookState \<Rightarrow> HookState outcome" where
  "record_current hi boundary st = Record hi boundary (Some (es_policy (hs_state st))) (Some (hi_query hi)) st"

definition refuse_current :: "HookInput \<Rightarrow> Boundary \<Rightarrow> Result \<Rightarrow> HookState \<Rightarrow> HookState outcome" where
  "refuse_current hi boundary r st = record_current hi boundary (update (\<lambda>s. s\<lparr>es_result := r\<rparr>) st)"

definition Authorize_current :: "HookInput \<Rightarrow> ParameterMap option \<Rightarrow> HookState \<Rightarrow> HookState outcome" where
  "Authorize_current hi parameters st =
     (let s = hs_state st
      in case Authorize (Snapshot hi s) parameters (es_unit s) (es_result s) of
           (None, unit, r) \<Rightarrow> (None, update (\<lambda>s. s\<lparr>es_unit := unit, es_result := r, es_authorized := True\<rparr>) st)
         | (Some e, unit, r) \<Rightarrow>
             (let st1 = update (\<lambda>s. s\<lparr>es_unit := unit, es_result := r\<rparr>) st
              in if r_violations r \<noteq> [] \<and> permission_error e then refuse_current hi AUTHORIZE (MarkDenied r) st1
                 else if \<not> es_log_only s then (Some e, st1)
                 else case DescribeError (sc_type_name (hi_session hi)) e True r of
                     (False, r1) \<Rightarrow> (Some e, update (\<lambda>s. s\<lparr>es_result := r1\<rparr>) st1)
                   | (True, r1) \<Rightarrow> refuse_current hi AUTHORIZE (MarkDenied r1) st1))"

text \<open>Whether the hook goes on, and the outcome so far.\<close>

definition CheckParameters :: "HookInput \<Rightarrow> HookState \<Rightarrow> bool \<times> HookState outcome" where
  "CheckParameters hi st =
     (let s = hs_state st
      in case CheckParameterFallbacks (sc_bind (Snapshot hi s)) (u_binding (es_unit s)) None False (es_result s) of
           (None, r) \<Rightarrow> (True, None, update (\<lambda>s. s\<lparr>es_result := r\<rparr>) st)
         | (Some e, r) \<Rightarrow>
             if permission_error e then (False, refuse_current hi BINDING (MarkDenied r) st)
             else (False, Some e, update (\<lambda>s. s\<lparr>es_result := r\<rparr>) st))"

definition admit_unit :: "HookInput \<Rightarrow> Unit \<Rightarrow> HookState \<Rightarrow> HookState outcome" where
  "admit_unit hi unit st =
     (case CheckParameters hi (update (\<lambda>s. s\<lparr>es_admitted := True, es_unit := unit\<rparr>) st) of
        (False, out) \<Rightarrow> out
      | (True, _, st1) \<Rightarrow>
          if (case u_statement unit of Some statement \<Rightarrow> hi_has_parameters hi statement | None \<Rightarrow> False) then (None, st1)
          else Authorize_current hi None st1)"

definition admit_text :: "HookInput \<Rightarrow> TextCheck \<Rightarrow> HookState \<Rightarrow> HookState outcome" where
  "admit_text hi text st =
     (if \<not> r_allowed (tc_result text) then refuse_current hi BINDING (tc_result text) st
      else (case tc_units text of
          [unit] \<Rightarrow>
            if u_pivot_enums unit \<noteq> [] then refuse_current hi BINDING UnsupportedStatement st
            else admit_unit hi unit (update (\<lambda>s. s\<lparr>es_result := tc_result text\<rparr>) st)
        | _ \<Rightarrow> refuse_current hi BINDING UnsupportedStatement st))"

definition begin_snapshot :: "HookInput \<Rightarrow> HookState \<Rightarrow> HookState" where
  "begin_snapshot hi st =
     st\<lparr>hs_state := Reset\<lparr>es_in_statement := True,
        es_statement_id := (case hi_active hi of Some n \<Rightarrow> n | None \<Rightarrow> 0)\<rparr>\<rparr>"

definition begin_text :: "HookInput \<Rightarrow> HookState \<Rightarrow> HookState outcome" where
  "begin_text hi st =
     (let s = hs_state st
      in case CheckText (sc_text (hi_session hi)) (bc_layers (sc_bind (Snapshot hi s))) (hi_query hi) default_limits of
           Inl e \<Rightarrow>
             if text_error e
             then refuse_current hi BINDING (snd (DescribeError (sc_type_name (hi_session hi)) e False (es_result s))) st
             else (Some e, st)
         | Inr text \<Rightarrow> admit_text hi text st)"

definition begin_policy :: "HookInput \<Rightarrow> HookState \<Rightarrow> HookState outcome" where
  "begin_policy hi st =
     (case TryGlobalPolicy (hi_policy hi) of
        Inl e \<Rightarrow> (Some e, st)
      | Inr (Inl r) \<Rightarrow> Record hi BINDING None (Some (hi_query hi)) (update (\<lambda>s. s\<lparr>es_result := r\<rparr>) st)
      | Inr (Inr p) \<Rightarrow>
          (let st1 = update (\<lambda>s. s\<lparr>es_policy := p\<rparr>) st
           in case CheckRemoteScope (hi_session hi) (es_result (hs_state st1)) of
                (False, r) \<Rightarrow> refuse_current hi BINDING (MarkDenied r) st1
              | (True, r) \<Rightarrow> begin_text hi st1))"

definition BeginStatement :: "HookInput \<Rightarrow> HookState \<Rightarrow> HookState outcome" where
  "BeginStatement hi st =
     (let st1 = begin_snapshot hi st
      in if \<not> LogOnlySetting (hi_log_only hi) then begin_policy hi st1
         else case RoutingControl hi of
             Inl e \<Rightarrow> (Some e, st1)
           | Inr routing \<Rightarrow> begin_policy hi (update (\<lambda>s. s\<lparr>es_log_only := \<not> routing\<rparr>) st1))"

section \<open>Hooks\<close>

definition QueryBegin :: "HookInput \<Rightarrow> HookState \<Rightarrow> HookState outcome" where
  "QueryBegin hi st = BeginStatement hi st"

definition QueryEnd :: "HookInput \<Rightarrow> exn option \<Rightarrow> HookState \<Rightarrow> HookState outcome" where
  "QueryEnd hi error st =
     (let s = hs_state st
      in case error of
           Some e \<Rightarrow>
             if es_in_statement s \<and> es_log_only s \<and> \<not> es_decided s then
               (case DescribeError (sc_type_name (hi_session hi)) e True (es_result s) of
                  (False, _) \<Rightarrow> (None, st\<lparr>hs_state := Reset\<rparr>)
                | (True, r) \<Rightarrow>
                    seqO (Record hi AUTHORIZE (Some (es_policy s)) (map_option st_query (u_statement (es_unit s)))
                            (update (\<lambda>s. s\<lparr>es_result := MarkDenied r\<rparr>) st))
                      (\<lambda>st. (None, st\<lparr>hs_state := Reset\<rparr>)))
             else (None, st\<lparr>hs_state := Reset\<rparr>)
         | None \<Rightarrow> (None, st\<lparr>hs_state := Reset\<rparr>))"

definition CanRequestRebind :: "HookInput \<Rightarrow> HookState \<Rightarrow> HookState outcome" where
  "CanRequestRebind hi st =
     (if major_of hi \<ge> 2 \<and> es_in_statement (hs_state st) \<and> hi_active hi \<noteq> None \<and> \<not> CurrentStatement hi (hs_state st)
      then BeginStatement hi st else (None, st))"

definition OnPlanningError :: "HookInput \<Rightarrow> exn \<Rightarrow> HookState \<Rightarrow> HookState outcome" where
  "OnPlanningError hi e st =
     (let s = hs_state st
      in if \<not> es_in_statement s then (None, update (\<lambda>s. s\<lparr>es_prepare_decided := False\<rparr>) st)
         else if es_log_only s \<and> \<not> es_decided s then
           (case DescribeError (sc_type_name (hi_session hi)) e True (es_result s) of
              (False, r) \<Rightarrow> (None, update (\<lambda>s. s\<lparr>es_result := r\<rparr>) st)
            | (True, r) \<Rightarrow> refuse_current hi AUTHORIZE (MarkDenied r) st)
         else (None, st))"

definition OnFinalizePrepare :: "HookState \<Rightarrow> HookState outcome" where
  "OnFinalizePrepare st =
     (None, if \<not> es_in_statement (hs_state st) then update (\<lambda>s. s\<lparr>es_prepare_decided := False\<rparr>) st else st)"

definition ForceRebind :: "HookInput \<Rightarrow> HookState \<Rightarrow> HookState outcome" where
  "ForceRebind hi st =
     (let s = hs_state st
      in seqO (if \<not> es_admitted s \<and> \<not> es_decided s then refuse_current hi BINDING NotAdmitted st else (None, st))
           (\<lambda>st. (None, update (\<lambda>s. s\<lparr>es_executing_prepared := True\<rparr>) st)))"

section \<open>The execution boundary\<close>

record PostBindInput =
  pb_plan :: "LogicalOperator option"
  pb_properties :: StatementProperties
  pb_prepare_mode :: bool
  pb_parameters :: ParameterMap

definition check_plan ::
    "HookInput \<Rightarrow> Policy \<Rightarrow> PlanOrigin \<Rightarrow> PostBindInput \<Rightarrow> LogicalOperator \<Rightarrow> Unit \<Rightarrow> Result \<Rightarrow> exn option \<times> Unit \<times> Result" where
  "check_plan hi p origin pb plan unit r =
     CheckPlan (bc_operator_name (sc_bind (hi_session hi))) (defaults_of (sc_bind (hi_session hi))) (major_of hi)
       \<lparr>ceiling_layer = p, request_layer = p\<rparr> origin (pb_properties pb) plan unit r"

text \<open>A \<open>Prepare()\<close> bind outside any statement: plan structure only, under the policy as it stands.\<close>

definition decide_prepare :: "HookInput \<Rightarrow> Policy option \<Rightarrow> Result \<Rightarrow> HookState \<Rightarrow> HookState outcome" where
  "decide_prepare hi in_force r st =
     (let (e, records) = Decide (hi_audit hi) \<lparr>site_mode = ModeFor (LogOnlySetting (hi_log_only hi)),
             site_boundary = PREPARE, site_policy = in_force, site_statement = None\<rparr> r (hs_log st)
      in (e, st\<lparr>hs_log := records\<rparr>))"

definition prescreen_prepare :: "HookInput \<Rightarrow> PostBindInput \<Rightarrow> LogicalOperator \<Rightarrow> HookState \<Rightarrow> HookState outcome" where
  "prescreen_prepare hi pb plan st =
     (if es_prepare_decided (hs_state st) then (None, update (\<lambda>s. s\<lparr>es_prepare_decided := False\<rparr>) st)
      else case TryGlobalPolicy (hi_policy hi) of
          Inl e \<Rightarrow> (Some e, st)
        | Inr (Inl r) \<Rightarrow> decide_prepare hi None r st
        | Inr (Inr p) \<Rightarrow>
            (case check_plan hi p PRESCREEN pb plan Unattributed (empty_result\<lparr>r_allowed := True\<rparr>) of
               (None, _, _) \<Rightarrow> (None, st)
             | (Some e, _, r) \<Rightarrow>
                 if permission_error e then decide_prepare hi (Some p) (MarkDenied r) st else (Some e, st)))"

definition prescreen_statement :: "HookInput \<Rightarrow> PostBindInput \<Rightarrow> LogicalOperator \<Rightarrow> HookState \<Rightarrow> HookState outcome" where
  "prescreen_statement hi pb plan st =
     (let s = hs_state st
      in if \<not> es_admitted s then refuse_current hi PREPARE NotAdmitted st
         else case check_plan hi (es_policy s) PRESCREEN pb plan Unattributed (es_result s) of
             (None, _, r) \<Rightarrow> (None, update (\<lambda>s. s\<lparr>es_result := r, es_prescreened := True\<rparr>) st)
           | (Some e, _, r) \<Rightarrow>
               if permission_error e then refuse_current hi PREPARE (MarkDenied r) st
               else (Some e, update (\<lambda>s. s\<lparr>es_result := r\<rparr>) st))"

definition is_prepare :: "LogicalOperator \<Rightarrow> bool" where
  "is_prepare plan \<longleftrightarrow> op_type plan = LOGICAL_OTHER ''LOGICAL_PREPARE''"

definition is_wrapper :: "LogicalOperator \<Rightarrow> bool" where
  "is_wrapper plan \<longleftrightarrow> is_prepare plan \<or> op_type plan = LOGICAL_OTHER ''LOGICAL_EXECUTE''"

definition wrapper_plan :: "HookInput \<Rightarrow> LogicalOperator \<Rightarrow> HookState \<Rightarrow> HookState outcome" where
  "wrapper_plan hi plan st =
     (let s = hs_state st
      in if (if is_prepare plan then es_prescreened s else es_decided s \<and> r_allowed (es_result s)) then (None, st)
         else refuse_current hi (if is_prepare plan then PREPARE else EXECUTION) NotAdmitted st)"

text \<open>The plan the engine will execute, once the statement is authorized.\<close>

definition execute_plan :: "HookInput \<Rightarrow> PostBindInput \<Rightarrow> LogicalOperator \<Rightarrow> HookState \<Rightarrow> HookState outcome" where
  "execute_plan hi pb plan st =
     (let s = hs_state st
      in case check_plan hi (es_policy s) ENGINE pb plan (es_unit s) (es_result s) of
           (None, unit, r) \<Rightarrow> refuse_current hi EXECUTION r (update (\<lambda>s. s\<lparr>es_unit := unit\<rparr>) st)
         | (Some e, unit, r) \<Rightarrow>
             if permission_error e
             then refuse_current hi EXECUTION (MarkDenied r) (update (\<lambda>s. s\<lparr>es_unit := unit\<rparr>) st)
             else (Some e, update (\<lambda>s. s\<lparr>es_unit := unit, es_result := r\<rparr>) st))"

definition bind_executed :: "HookInput \<Rightarrow> PostBindInput \<Rightarrow> LogicalOperator \<Rightarrow> HookState \<Rightarrow> HookState outcome" where
  "bind_executed hi pb plan st =
     (if \<not> es_admitted (hs_state st) then refuse_current hi EXECUTION NotAdmitted st
      else if es_authorized (hs_state st) then execute_plan hi pb plan st
      else seqO (Authorize_current hi (Some (pb_parameters pb)) st) (\<lambda>st.
             if es_authorized (hs_state st) then execute_plan hi pb plan st else (None, st)))"

definition PostBind :: "HookInput \<Rightarrow> PostBindInput \<Rightarrow> HookState \<Rightarrow> HookState outcome" where
  "PostBind hi pb st =
     (case pb_plan pb of
        None \<Rightarrow> (None, st)
      | Some plan \<Rightarrow>
          (let s = hs_state st
           in if \<not> es_in_statement s then prescreen_prepare hi pb plan st
              else if \<not> CurrentStatement hi s then refuse_current hi EXECUTION NotAdmitted st
              else if es_log_only s \<and> es_decided s then (None, st)
              else if major_of hi \<ge> 2 \<and> pb_prepare_mode pb \<and> \<not> es_executing_prepared s
              then prescreen_statement hi pb plan st
              else if major_of hi \<ge> 2 \<and> is_wrapper plan then wrapper_plan hi plan st
              else bind_executed hi pb plan st))"

section \<open>The replacement gate\<close>

datatype GateMode = GATE_OPEN | GATE_ENFORCE | GATE_LOG_ONLY

definition ReplacementGate :: "HookInput \<Rightarrow> EnforcementState option \<Rightarrow> GateMode" where
  "ReplacementGate hi state =
     (case state of
        None \<Rightarrow> GATE_OPEN
      | Some s \<Rightarrow>
          if es_in_statement s then
            (if \<not> CurrentStatement hi s \<or> \<not> es_log_only s then GATE_ENFORCE
             else if es_decided s then GATE_OPEN else GATE_LOG_ONLY)
          else if \<not> LogOnlySetting (hi_log_only hi) then GATE_ENFORCE
          else if es_prepare_decided s then GATE_OPEN else GATE_LOG_ONLY)"

definition MarkGateDecided :: "EnforcementState \<Rightarrow> EnforcementState" where
  "MarkGateDecided s = (if es_in_statement s then s\<lparr>es_decided := True\<rparr> else s\<lparr>es_prepare_decided := True\<rparr>)"

definition admitted_now :: "HookInput \<Rightarrow> EnforcementState \<Rightarrow> bool" where
  "admitted_now hi s \<longleftrightarrow> es_admitted s \<and> CurrentStatement hi s"

definition AdmittedQuery :: "HookInput \<Rightarrow> EnforcementState \<Rightarrow> string option" where
  "AdmittedQuery hi s = (if admitted_now hi s then Some (hi_query hi) else None)"

definition AdmittedPolicy :: "HookInput \<Rightarrow> EnforcementState \<Rightarrow> Policy option" where
  "AdmittedPolicy hi s = (if admitted_now hi s then Some (es_policy s) else None)"

definition AdmittedBinding :: "HookInput \<Rightarrow> EnforcementState \<Rightarrow> BindingPolicy option" where
  "AdmittedBinding hi s = (if admitted_now hi s then Some (u_binding (es_unit s)) else None)"

text \<open>What the callback hands back: nothing, so that the engine goes on, or the reader the host produced.\<close>

datatype GateAnswer = EngineContinues | BindReader

definition gate_record ::
    "HookInput \<Rightarrow> DecisionMode \<Rightarrow> Result \<Rightarrow> Policy option \<Rightarrow> GateAnswer \<Rightarrow> HookState \<Rightarrow> (exn + GateAnswer) \<times> HookState" where
  "gate_record hi mode r in_force answer st =
     (let st1 = update MarkGateDecided st
      in case Decide (hi_audit hi) \<lparr>site_mode = mode, site_boundary = REPLACEMENT_SCAN, site_policy = in_force,
               site_statement = AdmittedQuery hi (hs_state st1)\<rparr> r (hs_log st1) of
           (Some e, records) \<Rightarrow> (Inl e, st1\<lparr>hs_log := records\<rparr>)
         | (None, records) \<Rightarrow>
             (if mode = LOG_ONLY then Inr answer else Inl (InternalException ''Gatekeeper enforced denial returned''),
              st1\<lparr>hs_log := records\<rparr>))"

definition gate_policy :: "HookInput \<Rightarrow> EnforcementState \<Rightarrow> exn + Result + Policy" where
  "gate_policy hi s = (case AdmittedPolicy hi s of Some p \<Rightarrow> Inr (Inr p) | None \<Rightarrow> TryGlobalPolicy (hi_policy hi))"

definition gate_reader ::
    "HookInput \<Rightarrow> DecisionMode \<Rightarrow> Policy \<Rightarrow> BindingPolicy option \<Rightarrow> ReplacementScanInput \<Rightarrow> string \<Rightarrow> bool \<Rightarrow> HookState \<Rightarrow>
     (exn + GateAnswer) \<times> HookState" where
  "gate_reader hi mode p binding scan name caller_written st =
     (let inventory = defaults_of (sc_bind (hi_session hi));
          b = (case binding of Some b \<Rightarrow> b | None \<Rightarrow> empty_binding)
      in if caller_written \<and> \<not> FunctionEligible inventory p name
         then gate_record hi mode (MarkDenied (add_violation (replacement_violation rules_FUNCTION
                (''replacement scan function is not allowed: '' @ Lower name) (ReplacementPath (major_of hi) scan) (Lower name)) empty_result))
                (Some p) BindReader st
         else case ri_reader scan of
             Inl e \<Rightarrow> (Inl e, st)
           | Inr entry \<Rightarrow>
               (case authorize_reader inventory (major_of hi) [p] b (Lower name) entry caller_written of
                  (None, _) \<Rightarrow> (Inr BindReader, st)
                | (Some e, r) \<Rightarrow>
                    if permission_error e then gate_record hi mode (MarkDenied r) (Some p) BindReader st else (Inl e, st)))"

definition gate_missing :: "nat \<Rightarrow> DecisionMode \<Rightarrow> ReplacementScanInput \<Rightarrow> exn + GateAnswer" where
  "gate_missing major mode scan =
     (if mode = LOG_ONLY then Inr EngineContinues
      else Inl (case ri_missing scan of Some e \<Rightarrow> e | None \<Rightarrow>
        BinderException (''Table \"'' @ ReplacementPath major scan @ ''\" appeared during binding; retry the statement'')))"

definition gate_scan :: "HookInput \<Rightarrow> DecisionMode \<Rightarrow> ReplacementScanInput \<Rightarrow> HookState \<Rightarrow> (exn + GateAnswer) \<times> HookState" where
  "gate_scan hi mode scan st =
     (let binding = AdmittedBinding hi (hs_state st);
          caller_written = (case binding of Some b \<Rightarrow> ReplacementName (major_of hi) scan \<in> set (caller_table_names b) | None \<Rightarrow> True)
      in case gate_policy hi (hs_state st) of
           Inl e \<Rightarrow> (Inl e, st)
         | Inr (Inl r) \<Rightarrow> gate_record hi mode r None EngineContinues st
         | Inr (Inr p) \<Rightarrow>
             (case ResolveHostReplacement (ReplacementPath (major_of hi) scan) (ri_scans scan) of
                Inl e \<Rightarrow> (Inl e, st)
              | Inr (UnsupportedResolution reason) \<Rightarrow>
                  gate_record hi mode (MarkDenied (add_violation (replacement_violation rules_REPLACEMENT_SCAN reason
                    (ReplacementPath (major_of hi) scan) []) empty_result)) (Some p) BindReader st
              | Inr (ResolvedFunction name) \<Rightarrow> gate_reader hi mode p binding scan name caller_written st
              | Inr Unclaimed \<Rightarrow> (gate_missing (major_of hi) mode scan, st)))"

text \<open>The callback outside a validation, on an enforced connection.\<close>

definition GatekeeperReplacementScan :: "HookInput \<Rightarrow> ReplacementScanInput \<Rightarrow> HookState \<Rightarrow> (exn + GateAnswer) \<times> HookState" where
  "GatekeeperReplacementScan hi scan st =
     (case ReplacementGate hi (Some (hs_state st)) of
        GATE_OPEN \<Rightarrow> (Inr EngineContinues, st)
      | GATE_ENFORCE \<Rightarrow> gate_scan hi ENFORCE scan st
      | GATE_LOG_ONLY \<Rightarrow> gate_scan hi LOG_ONLY scan st)"

text \<open>
  Whether the engine's list of scans can only be appended to: then it is rebuilt with Gatekeeper's in
  front, every other entry forwarded, and replaced whole.
\<close>

definition PrependReplacementScan :: "bool \<Rightarrow> ReplacementScan list \<Rightarrow> ReplacementScan list" where
  "PrependReplacementScan append_only scans =
     (if append_only then [GatekeeperScan] @ map ForwardedScan scans else GatekeeperScan # scans)"

definition InstallReplacementScan :: "bool \<Rightarrow> ReplacementScan list \<Rightarrow> ReplacementScan list" where
  "InstallReplacementScan append_only scans =
     (if list_ex (\<lambda>scan. scan = GatekeeperScan) scans then scans else PrependReplacementScan append_only scans)"

section \<open>Activation\<close>

record Posture =
  po_connected :: bool
  po_autocommit :: bool
  po_external_access :: bool
  po_autoload :: bool
  po_autoinstall :: bool
  po_lock_configuration :: bool

definition PostureWarnings :: "HookInput \<Rightarrow> Posture \<Rightarrow> string list" where
  "PostureWarnings hi po =
     (if LogOnlySetting (hi_log_only hi) then [''gatekeeper_log_only is true: this connection records policy decisions without refusing them; CONNECT/DISCONNECT routing controls remain refused''] else []) @
     (if po_external_access po then [''enable_external_access is true: readers reached through trusted views or macros can open files and URLs while binding''] else []) @
     (if po_autoload po \<or> po_autoinstall po then [''autoload_known_extensions or autoinstall_known_extensions is true: binding can load extensions on demand''] else []) @
     (if \<not> po_lock_configuration po then [''lock_configuration is false: unenforced connections can still change gatekeeper_policy and gatekeeper_log_only''] else []) @
     (if \<not> DenialsRecorded (hi_audit hi) then [''logging does not record Gatekeeper decisions: denials on this connection leave no audit record; CALL enable_logging('' @ [CHR 0x27] @ ''Gatekeeper'' @ [CHR 0x27] @ '')''] else [])"

definition Latch :: "EnforcementState option \<Rightarrow> EnforcementState option" where
  "Latch state = (case state of None \<Rightarrow> Some Reset | Some s \<Rightarrow> Some s)"

definition Enforce :: "OutputEngine \<Rightarrow> HookInput \<Rightarrow> Posture \<Rightarrow> EnforcementState option call" where
  "Enforce oe hi po finished state output =
     (if finished then (None, True, state, output)
      else if major_of hi \<ge> 2 \<and> po_connected po
      then (Some (PermissionException ''gatekeeper_enforce() cannot run on a CONNECT-ed connection: DISCONNECT during trusted setup before activating local enforcement''),
        False, state, output)
      else if \<not> po_autocommit po
      then (Some (PermissionException ''gatekeeper_enforce() cannot run inside an open transaction: an enforced connection cannot COMMIT or ROLLBACK, so end the transaction first''),
        False, state, output)
      else (case AppendResultRow oe [VBool True, VList T_VARCHAR (map VVarchar (PostureWarnings hi po))] output of
          (e, output) \<Rightarrow> (e, e = None, Latch state, output)))"

section \<open>The hooks as a machine\<close>

datatype hook_event =
    BeginQuery | EndQuery "exn option" | AskRebind | PlanningFailed exn | PrepareFinalized | RebindPrepared
  | PlanBound PostBindInput | NameMissing ReplacementScanInput

fun run_hook :: "HookInput \<Rightarrow> hook_event \<Rightarrow> HookState \<Rightarrow> HookState" where
  "run_hook hi BeginQuery st = snd (QueryBegin hi st)"
| "run_hook hi (EndQuery e) st = snd (QueryEnd hi e st)"
| "run_hook hi AskRebind st = snd (CanRequestRebind hi st)"
| "run_hook hi (PlanningFailed e) st = snd (OnPlanningError hi e st)"
| "run_hook hi PrepareFinalized st = snd (OnFinalizePrepare st)"
| "run_hook hi RebindPrepared st = snd (ForceRebind hi st)"
| "run_hook hi (PlanBound pb) st = snd (PostBind hi pb st)"
| "run_hook hi (NameMissing scan) st = snd (GatekeeperReplacementScan hi scan st)"

text \<open>Every state an enforced connection can be in: any hook, in any order, whatever it reads, returning or throwing.\<close>

inductive enforced :: "HookState \<Rightarrow> bool" where
  latched: "enforced \<lparr>hs_state = Reset, hs_log = records\<rparr>"
| hook: "enforced st \<Longrightarrow> enforced (run_hook hi event st)"

definition phases_ok :: "EnforcementState \<Rightarrow> bool" where
  "phases_ok s \<longleftrightarrow> (es_authorized s \<longrightarrow> es_admitted s) \<and> (es_admitted s \<longrightarrow> es_in_statement s) \<and>
     (u_statement (es_unit s) \<noteq> None \<longrightarrow> es_admitted s) \<and> (es_log_only s \<longrightarrow> es_in_statement s) \<and>
     \<not> (es_prepare_decided s \<and> es_in_statement s)"

section \<open>The phases of a statement\<close>

lemma phases_ok_other [simp]:
  "phases_ok (s\<lparr>es_result := r\<rparr>) = phases_ok s" "phases_ok (s\<lparr>es_decided := d\<rparr>) = phases_ok s"
  "phases_ok (s\<lparr>es_policy := p\<rparr>) = phases_ok s" "phases_ok (s\<lparr>es_prescreened := d\<rparr>) = phases_ok s"
  "phases_ok (s\<lparr>es_executing_prepared := d\<rparr>) = phases_ok s"
  by (simp_all add: phases_ok_def)

lemma phases_ok_Reset [simp]: "phases_ok Reset"
  by (simp add: phases_ok_def Reset_def no_unit_def empty_unit_def)

lemma Record_state [simp]: "hs_state (snd (Record hi boundary p sql st)) = (hs_state st)\<lparr>es_decided := True\<rparr>"
  by (simp add: Record_def Let_def split: prod.splits)

lemma record_state [simp]:
  "hs_state (snd (record_current hi boundary st)) = (hs_state st)\<lparr>es_decided := True\<rparr>"
  "hs_state (snd (refuse_current hi boundary r st)) = (hs_state st)\<lparr>es_result := r, es_decided := True\<rparr>"
  by (simp_all add: record_current_def refuse_current_def)

text \<open>A hook keeps the phases: whatever the state was, in order before means in order after.\<close>

lemma Authorize_current_phases:
  assumes "phases_ok (hs_state st)" and "es_admitted (hs_state st)"
  shows "phases_ok (hs_state (snd (Authorize_current hi ps st)))"
proof -
  have u: "phases_ok (s\<lparr>es_unit := u\<rparr>)" "phases_ok (s\<lparr>es_unit := u, es_authorized := True\<rparr>)"
    if "phases_ok s" "es_admitted s" for s u
    using that by (auto simp: phases_ok_def)
  have r: "s\<lparr>es_unit := u, es_result := r, es_authorized := True\<rparr> = s\<lparr>es_unit := u, es_authorized := True, es_result := r\<rparr>"
    for s u r by simp
  show ?thesis
    using assms u by (auto simp: Authorize_current_def Let_def r split: prod.splits option.splits bool.splits)
qed

lemma CheckParameters_state:
  assumes "CheckParameters hi st = (go, out)"
  shows "phases_ok (hs_state (snd out)) = phases_ok (hs_state st) \<and> es_admitted (hs_state (snd out)) = es_admitted (hs_state st)"
  using assms by (auto simp: CheckParameters_def Let_def split: prod.splits option.splits if_splits)

lemma admit_unit_phases:
  assumes "phases_ok (hs_state st)" and "es_in_statement (hs_state st)"
  shows "phases_ok (hs_state (snd (admit_unit hi unit st)))"
proof -
  let ?st = "update (\<lambda>s. s\<lparr>es_admitted := True, es_unit := unit\<rparr>) st"
  have ok: "phases_ok (hs_state ?st)" "es_admitted (hs_state ?st)" using assms by (auto simp: phases_ok_def)
  obtain go out where c: "CheckParameters hi ?st = (go, out)" by (cases "CheckParameters hi ?st")
  from CheckParameters_state [OF c] ok have out: "phases_ok (hs_state (snd out))" "es_admitted (hs_state (snd out))"
    by simp_all
  show ?thesis
    using c out Authorize_current_phases [of "snd out"]
    by (cases go; cases out) (simp_all add: admit_unit_def split: option.splits)
qed

lemma begin_policy_phases:
  assumes "phases_ok (hs_state st)" and "es_in_statement (hs_state st)"
  shows "phases_ok (hs_state (snd (begin_policy hi st)))"
proof -
  have admit: "phases_ok (hs_state (snd (admit_text hi check st)))" if "phases_ok (hs_state st)" "es_in_statement (hs_state st)"
    for check st
    using that admit_unit_phases [of "update (\<lambda>s. s\<lparr>es_result := tc_result check\<rparr>) st"]
    by (auto simp: admit_text_def split: list.splits)
  have "phases_ok (hs_state (snd (begin_text hi st)))" if "phases_ok (hs_state st)" "es_in_statement (hs_state st)" for st
    using that admit by (simp add: begin_text_def Let_def split: sum.splits)
  with assms show ?thesis
    by (auto simp: begin_policy_def Let_def split: sum.splits prod.splits bool.splits)
qed

lemma BeginStatement_phases: "phases_ok (hs_state (snd (BeginStatement hi st)))"
proof -
  have "phases_ok (hs_state (begin_snapshot hi st))" "es_in_statement (hs_state (begin_snapshot hi st))"
    "phases_ok (hs_state (update (\<lambda>s. s\<lparr>es_log_only := b\<rparr>) (begin_snapshot hi st)))" for b
    by (simp_all add: begin_snapshot_def phases_ok_def Reset_def no_unit_def empty_unit_def)
  then show ?thesis
    using begin_policy_phases [of "begin_snapshot hi st"]
      begin_policy_phases [of "update (\<lambda>s. s\<lparr>es_log_only := b\<rparr>) (begin_snapshot hi st)" for b]
    by (auto simp: BeginStatement_def Let_def split: sum.splits)
qed

lemma execute_plan_phases:
  assumes "phases_ok (hs_state st)" and "es_admitted (hs_state st)"
  shows "phases_ok (hs_state (snd (execute_plan hi pb plan st)))"
  using assms by (auto simp: execute_plan_def Let_def phases_ok_def split: prod.splits option.splits)

lemma bind_executed_phases:
  assumes "phases_ok (hs_state st)"
  shows "phases_ok (hs_state (snd (bind_executed hi pb plan st)))"
proof (cases "es_admitted (hs_state st)")
  case True
  obtain e st1 where a: "Authorize_current hi (Some (pb_parameters pb)) st = (e, st1)"
    by (cases "Authorize_current hi (Some (pb_parameters pb)) st")
  with Authorize_current_phases [OF assms True, of hi "Some (pb_parameters pb)"] have st1: "phases_ok (hs_state st1)" by simp
  have "phases_ok (hs_state (snd (execute_plan hi pb plan st1)))" if "es_authorized (hs_state st1)"
    using st1 that by (intro execute_plan_phases) (auto simp: phases_ok_def)
  with True a st1 assms execute_plan_phases show ?thesis
    by (cases e) (simp_all add: bind_executed_def)
qed (use assms in \<open>simp add: bind_executed_def\<close>)

lemma PostBind_phases:
  assumes "phases_ok (hs_state st)"
  shows "phases_ok (hs_state (snd (PostBind hi pb st)))"
proof -
  have prep: "phases_ok (hs_state (snd (prescreen_prepare hi pb plan st)))" for plan
    using assms
    by (auto simp: prescreen_prepare_def decide_prepare_def phases_ok_def Let_def split: sum.splits prod.splits option.splits)
  have pre: "phases_ok (hs_state (snd (prescreen_statement hi pb plan st)))" for plan
    using assms by (auto simp: prescreen_statement_def Let_def split: prod.splits option.splits)
  have wrap: "phases_ok (hs_state (snd (wrapper_plan hi plan st)))" for plan
    using assms by (simp add: wrapper_plan_def Let_def)
  show ?thesis
    using assms prep pre wrap bind_executed_phases [OF assms] by (simp add: PostBind_def Let_def split: option.splits)
qed

lemma gate_phases:
  assumes "phases_ok (hs_state st)"
  shows "phases_ok (hs_state (snd (GatekeeperReplacementScan hi scan st)))"
proof -
  have mark: "phases_ok (MarkGateDecided (hs_state st))"
    using assms by (auto simp: MarkGateDecided_def phases_ok_def)
  have rec: "phases_ok (hs_state (snd (gate_record hi mode r p a st)))" for mode r p a
    using mark by (simp add: gate_record_def Let_def split: prod.splits option.splits)
  have "phases_ok (hs_state (snd (gate_scan hi mode scan st)))" for mode
    using assms rec
    by (auto simp: gate_scan_def gate_reader_def Let_def split: sum.splits option.splits prod.splits Resolution.splits)
  with assms show ?thesis by (simp add: GatekeeperReplacementScan_def split: GateMode.splits)
qed

section \<open>Refusal\<close>

lemma refuse_current_Decide:
  "fst (refuse_current hi boundary r st) = fst (Decide (hi_audit hi) \<lparr>site_mode = ModeFor (es_log_only (hs_state st)),
     site_boundary = boundary, site_policy = Some (es_policy (hs_state st)), site_statement = Some (hi_query hi)\<rparr> r (hs_log st))"
  by (simp add: refuse_current_def record_current_def Record_def Let_def split: prod.splits)

lemma refuse_current_None:
  "refuse_current hi boundary r st = (None, st') \<Longrightarrow> es_log_only (hs_state st) \<or> r_allowed r"
  using refuse_current_Decide [of hi boundary r st, symmetric] by (auto simp: Decide_None_iff ModeFor_def split: if_splits)

text \<open>What a log-only statement sees of a recorded decision is at most that the log did not take it.\<close>

definition sink_error :: "HookInput \<Rightarrow> exn \<Rightarrow> bool" where
  "sink_error hi e \<longleftrightarrow> (\<exists>entry. ae_sink (hi_audit hi) entry = Some e)"

lemma refuse_current_log_only:
  "es_log_only (hs_state st) \<Longrightarrow> fst (refuse_current hi boundary r st) = Some e \<Longrightarrow> sink_error hi e"
  by (auto simp: refuse_current_Decide ModeFor_def sink_error_def dest: Decide_error)

lemma refused [simp]: "\<not> r_allowed NotAdmitted" "\<not> r_allowed (MarkDenied r)"
  by (simp_all add: NotAdmitted_def empty_result_def MarkDenied_def Let_def)

lemma Authorize_current_enforcing:
  assumes "Authorize_current hi ps st = (None, st')" and "\<not> es_log_only (hs_state st)"
  shows "es_authorized (hs_state st') \<and> es_policy (hs_state st') = es_policy (hs_state st) \<and> \<not> es_log_only (hs_state st')"
  using assms
  by (auto simp: Authorize_current_def Let_def split: prod.splits option.splits if_splits dest!: refuse_current_None)

lemma DescribeError_surfaces: "DescribeError name x binding r = (False, r1) \<Longrightarrow> \<not> permission_error x"
  by (cases x)
     (auto simp: DescribeError_def describe_data_def PropagateEngineError_def Let_def simp del: split_paired_All split: if_splits)

lemma Authorize_current_log_only:
  assumes "es_log_only (hs_state st)"
  shows "(fst (Authorize_current hi ps st) = Some e \<longrightarrow> \<not> permission_error e \<or> sink_error hi e) \<and>
    es_log_only (hs_state (snd (Authorize_current hi ps st)))"
proof -
  obtain e1 unit r where a: "Authorize (Snapshot hi (hs_state st)) ps (es_unit (hs_state st)) (es_result (hs_state st)) = (e1, unit, r)"
    by (cases "Authorize (Snapshot hi (hs_state st)) ps (es_unit (hs_state st)) (es_result (hs_state st))")
  show ?thesis
  proof (cases e1)
    case None
    with a assms show ?thesis by (simp add: Authorize_current_def Let_def)
  next
    case (Some x)
    obtain d r1 where "DescribeError (sc_type_name (hi_session hi)) x True r = (d, r1)"
      by (cases "DescribeError (sc_type_name (hi_session hi)) x True r")
    with a assms Some DescribeError_surfaces show ?thesis
      by (cases d) (auto simp: Authorize_current_def Let_def dest: refuse_current_log_only [rotated])
  qed
qed

lemma execute_plan_log_only:
  assumes "es_log_only (hs_state st)" and "fst (execute_plan hi pb plan st) = Some e"
  shows "\<not> permission_error e \<or> sink_error hi e"
  using assms
  by (auto simp: execute_plan_def Let_def dest: refuse_current_log_only [rotated] split: prod.splits option.splits if_splits)

lemma bind_executed_log_only:
  assumes "es_log_only (hs_state st)" and "fst (bind_executed hi pb plan st) = Some e"
  shows "\<not> permission_error e \<or> sink_error hi e"
proof -
  let ?a = "Authorize_current hi (Some (pb_parameters pb)) st"
  have "sink_error hi e \<or> fst ?a = Some e \<or> fst (execute_plan hi pb plan st) = Some e \<or> fst (execute_plan hi pb plan (snd ?a)) = Some e"
    using assms refuse_current_log_only [OF assms(1)]
    by (cases ?a; cases "fst ?a") (simp_all add: bind_executed_def split: if_splits)
  with assms(1) Authorize_current_log_only [OF assms(1)] show ?thesis
    using execute_plan_log_only by blast
qed

section \<open>Properties\<close>

text \<open>C10. The phases of a statement are kept by every hook. In every state an enforced connection can reach,
  whatever the engine calls, in whatever order, and whether the hook returns or throws: what is
  authorized is admitted, what is admitted is in a statement, a statement is on record only while
  admitted, log-only mode belongs to a statement in progress, and a prepare decided at the gate is
  outside every statement.\<close>

theorem enforcement_phases:
  assumes "enforced st"
  shows "(es_authorized (hs_state st) \<longrightarrow> es_admitted (hs_state st)) \<and>
    (es_admitted (hs_state st) \<longrightarrow> es_in_statement (hs_state st)) \<and>
    (u_statement (es_unit (hs_state st)) \<noteq> None \<longrightarrow> es_admitted (hs_state st)) \<and>
    (es_log_only (hs_state st) \<longrightarrow> es_in_statement (hs_state st)) \<and>
    \<not> (es_prepare_decided (hs_state st) \<and> es_in_statement (hs_state st))"
proof -
  from assms have "phases_ok (hs_state st)"
  proof induction
    case (hook st hi event)
    then show ?case
    proof (cases event)
      case (EndQuery e)
      with hook show ?thesis
        by (auto simp: QueryEnd_def Let_def seqO_def split: option.splits prod.splits bool.splits)
    next
      case (PlanningFailed e)
      with hook show ?thesis
        by (auto simp: OnPlanningError_def Let_def phases_ok_def split: prod.splits bool.splits)
    next
      case RebindPrepared
      with hook show ?thesis by (auto simp: ForceRebind_def Let_def seqO_def split: option.splits)
    qed (auto simp: QueryBegin_def CanRequestRebind_def OnFinalizePrepare_def BeginStatement_phases PostBind_phases gate_phases,
         auto simp: phases_ok_def)
  qed simp
  then show ?thesis by (simp add: phases_ok_def)
qed

text \<open>A session with a statement in progress, and one whose policy cannot be read.\<close>

definition sample_hook :: HookInput where
  "sample_hook = \<lparr>hi_session = sample_session, hi_audit = quiet_audit\<lparr>ae_should_log := \<lambda>_. False\<rparr>, hi_policy = None, hi_log_only = None,
     hi_active = Some 7, hi_query = ''SELECT NULL'', hi_has_parameters = (\<lambda>_. False)\<rparr>"

definition sample_running :: HookState where
  "sample_running = \<lparr>hs_state = Reset\<lparr>es_statement_id := 7, es_policy := sample_policy, es_result := allowed_result,
     es_in_statement := True, es_admitted := True, es_authorized := True, es_unit := sample_unit\<rparr>, hs_log = []\<rparr>"

definition sample_bound :: "LogicalOperator \<Rightarrow> PostBindInput" where
  "sample_bound plan = \<lparr>pb_plan = Some plan, pb_properties = sample_properties, pb_prepare_mode = False, pb_parameters = []\<rparr>"

lemma sample_running_sel:
  "es_in_statement (hs_state sample_running)" "\<not> es_log_only (hs_state sample_running)" "major_of sample_hook = 1"
  by (simp_all add: sample_running_def Reset_def sample_hook_def sample_session_def sample_context_def)

definition malformed_hook :: HookInput where
  "malformed_hook = sample_hook\<lparr>hi_policy := Some (VBool True), hi_log_only := Some (VBool True)\<rparr>"

lemma malformed_policy: "\<exists>r. TryGlobalPolicy (hi_policy malformed_hook) = Inr (Inl r)"
proof -
  have "case TryGlobalPolicy (Some (VBool True)) of Inr (Inl r) \<Rightarrow> True | _ \<Rightarrow> False" by code_simp
  then show ?thesis by (simp add: malformed_hook_def split: sum.splits)
qed

lemma malformed_state:
  "es_log_only (hs_state (run_hook malformed_hook BeginQuery \<lparr>hs_state = Reset, hs_log = []\<rparr>))"
proof -
  have "LogOnlySetting (hi_log_only malformed_hook)" "RoutingControl malformed_hook = Inr False"
    by (simp_all add: malformed_hook_def LogOnlySetting_def RoutingControl_def sample_hook_def sample_session_def sample_context_def)
  with malformed_policy show ?thesis
    by (auto simp: QueryBegin_def BeginStatement_def begin_policy_def Let_def)
qed

theorem enforcement_phases_witness:
  "es_log_only (hs_state (run_hook malformed_hook BeginQuery \<lparr>hs_state = Reset, hs_log = []\<rparr>)) \<and>
   es_in_statement (hs_state (run_hook malformed_hook BeginQuery \<lparr>hs_state = Reset, hs_log = []\<rparr>))"
proof -
  have "enforced (run_hook malformed_hook BeginQuery \<lparr>hs_state = Reset, hs_log = []\<rparr>)"
    by (rule enforced.hook [OF enforced.latched])
  from enforcement_phases [OF this] malformed_state show ?thesis by blast
qed

text \<open>C24. Log-only mode refuses nothing: inside a log-only statement, an error the hook on a bound plan raises is
  never a permission error of its own. What surfaces is an error of the engine's, or of inspecting what it
  bound, or the error of a log that does not take the record.\<close>

theorem log_only_refuses_nothing:
  assumes "PostBind hi pb st = (Some e, st')" and "es_in_statement (hs_state st)" and "es_log_only (hs_state st)"
  shows "\<not> permission_error e \<or> (\<exists>entry. ae_sink (hi_audit hi) entry = Some e)"
proof -
  from assms obtain plan where plan: "pb_plan pb = Some plan" by (auto simp: PostBind_def split: option.splits)
  note logged = refuse_current_log_only [OF _, rotated]
  have pre: "\<not> permission_error e \<or> sink_error hi e" if "fst (prescreen_statement hi pb plan st) = Some e"
    using that assms(3)
    by (auto simp: prescreen_statement_def Let_def dest: logged split: prod.splits option.splits if_splits)
  from assms(1) have "fst (PostBind hi pb st) = Some e" by simp
  with plan assms(2,3) have "sink_error hi e \<or> fst (prescreen_statement hi pb plan st) = Some e \<or> fst (bind_executed hi pb plan st) = Some e"
    by (auto simp: PostBind_def Let_def wrapper_plan_def dest: logged split: if_splits)
  with pre bind_executed_log_only [OF assms(3)] show ?thesis unfolding sink_error_def by blast
qed

definition interrupted :: exn where
  "interrupted = EngineError ET_INTERRUPT ''Interrupted!'' None"

definition interrupted_hook :: HookInput where
  "interrupted_hook = sample_hook\<lparr>hi_session := sample_session\<lparr>sc_bind := sample_context\<lparr>bc_bind :=
     (\<lambda>_ _. sample_trace\<lparr>bt_events := [], bt_error := Some interrupted, bt_plan := None\<rparr>)\<rparr>\<rparr>\<rparr>"

definition log_only_running :: HookState where
  "log_only_running = update (\<lambda>s. s\<lparr>es_log_only := True, es_authorized := False\<rparr>) sample_running"

lemma log_only_running_sel:
  "es_in_statement (hs_state log_only_running)" "es_log_only (hs_state log_only_running)"
  by (simp_all add: log_only_running_def sample_running_def Reset_def)

lemma interrupted_bind:
  "case Authorize (Snapshot interrupted_hook (hs_state log_only_running)) (Some []) sample_unit allowed_result of
     (e, u, r) \<Rightarrow> e = Some interrupted"
  by code_simp

lemma interrupted_execution:
  "fst (PostBind interrupted_hook (sample_bound (Operator LOGICAL_DUMMY_SCAN None None [] [])) log_only_running) = Some interrupted"
proof -
  obtain u r where a: "Authorize (Snapshot interrupted_hook (hs_state log_only_running)) (Some []) sample_unit allowed_result =
      (Some interrupted, u, r)"
    using interrupted_bind by (auto split: prod.splits)
  have h: "major_of interrupted_hook = 1" "CurrentStatement interrupted_hook (hs_state log_only_running)"
    by (simp_all add: interrupted_hook_def sample_hook_def sample_session_def sample_context_def CurrentStatement_def
      log_only_running_def sample_running_def)
  have s: "es_unit (hs_state log_only_running) = sample_unit" "es_result (hs_state log_only_running) = allowed_result"
    "es_admitted (hs_state log_only_running)" "\<not> es_authorized (hs_state log_only_running)"
    "\<not> es_decided (hs_state log_only_running)"
    by (simp_all add: log_only_running_def sample_running_def Reset_def)
  have "fst (Authorize_current interrupted_hook (Some []) log_only_running) = Some interrupted"
    using a s log_only_running_sel
    by (simp add: Authorize_current_def Let_def interrupted_def DescribeError_def describe_data_def PropagateEngineError_def)
  with h s log_only_running_sel show ?thesis
    by (cases "Authorize_current interrupted_hook (Some []) log_only_running")
       (simp add: PostBind_def sample_bound_def bind_executed_def seqO_def Let_def)
qed

theorem log_only_refuses_nothing_witness:
  "fst (PostBind interrupted_hook (sample_bound (Operator LOGICAL_DUMMY_SCAN None None [] [])) log_only_running) = Some interrupted \<and>
   \<not> permission_error interrupted"
proof -
  let ?out = "PostBind interrupted_hook (sample_bound (Operator LOGICAL_DUMMY_SCAN None None [] [])) log_only_running"
  obtain st' where "?out = (Some interrupted, st')" using interrupted_execution by (metis prod.collapse)
  moreover have "ae_sink (hi_audit interrupted_hook) entry = None" for entry
    by (simp add: interrupted_hook_def sample_hook_def quiet_audit_def)
  ultimately show ?thesis
    using log_only_refuses_nothing [OF _ log_only_running_sel] interrupted_execution by fastforce
qed

end
