(* ===== verification/Enforced_Execution.thy ===== *)
theory Enforced_Execution
  imports Enforcement_Model "HOL-Library.Code_Target_Nat"
begin

text \<open>
  What an enforcing connection executes: the invariant that ties a statement's authorization to its
  result, for every state the hooks can reach (\<open>src/src/enforcement.cpp\<close>), and the composition of the
  text check, the private bind and the plan check that it gives for the plan the engine runs.
\<close>

text \<open>An authorized statement whose result is still allowed carries no violation.\<close>

definition clean :: "EnforcementState \<Rightarrow> bool" where
  "clean s \<longleftrightarrow> (es_authorized s \<and> r_allowed (es_result s) \<longrightarrow> r_violations (es_result s) = [])"

lemma clean_other [simp]:
  "clean (s\<lparr>es_decided := d\<rparr>) = clean s" "clean (s\<lparr>es_unit := u\<rparr>) = clean s"
  "clean (s\<lparr>es_prescreened := d\<rparr>) = clean s" "clean (s\<lparr>es_executing_prepared := d\<rparr>) = clean s"
  "clean (s\<lparr>es_prepare_decided := d\<rparr>) = clean s"
  by (simp_all add: clean_def)

lemma clean_Reset [simp]: "clean Reset"
  by (simp add: clean_def Reset_def)

lemma clean_unauthorized [intro]: "\<not> es_authorized s \<Longrightarrow> clean s"
  by (simp add: clean_def)

lemma clean_result: "(r_allowed r \<Longrightarrow> r_violations r = []) \<Longrightarrow> clean (s\<lparr>es_result := r\<rparr>)"
  by (simp add: clean_def)

lemma clean_denied [simp]: "\<not> r_allowed r \<Longrightarrow> clean (s\<lparr>es_result := r\<rparr>)"
  by (simp add: clean_def)

lemma clean_refuse: "\<not> r_allowed r \<Longrightarrow> clean (hs_state (snd (refuse_current hi boundary r st)))"
  by (simp add: clean_result)

lemma Authorize_current_clean:
  assumes "\<not> es_authorized (hs_state st)"
  shows "clean (hs_state (snd (Authorize_current hi ps st)))"
proof -
  let ?s = "hs_state st"
  obtain e unit r where a: "Authorize (Snapshot hi ?s) ps (es_unit ?s) (es_result ?s) = (e, unit, r)"
    by (cases "Authorize (Snapshot hi ?s) ps (es_unit ?s) (es_result ?s)")
  show ?thesis
  proof (cases e)
    case None
    with a Authorize_clean [of "Snapshot hi ?s" ps "es_unit ?s" "es_result ?s" unit r] show ?thesis
      by (simp add: Authorize_current_def clean_def Let_def)
  next
    case (Some x)
    obtain d r1 where "DescribeError (sc_type_name (hi_session hi)) x True r = (d, r1)"
      by (cases "DescribeError (sc_type_name (hi_session hi)) x True r")
    with a assms Some show ?thesis
      by (cases d) (auto simp: Authorize_current_def Let_def clean_refuse)
  qed
qed

lemma check_plan_result:
  assumes "check_plan hi p origin pb plan unit r = (e, unit', r')"
  shows "r_allowed r' = r_allowed r"
    and "(\<And>x. e = Some x \<Longrightarrow> \<not> permission_error x) \<Longrightarrow> r_violations r' = r_violations r"
proof -
  note c = assms [unfolded check_plan_def]
  show "r_allowed r' = r_allowed r" by (rule CheckPlan_result(1) [OF c])
  show "r_violations r' = r_violations r" if "\<And>x. e = Some x \<Longrightarrow> \<not> permission_error x"
    using that by (intro CheckPlan_result(2) [OF c]) force
qed

lemma execute_plan_clean:
  assumes "clean (hs_state st)" and "es_authorized (hs_state st)"
  shows "clean (hs_state (snd (execute_plan hi pb plan st)))"
proof -
  let ?s = "hs_state st"
  obtain e unit r where c: "check_plan hi (es_policy ?s) ENGINE pb plan (es_unit ?s) (es_result ?s) = (e, unit, r)"
    by (cases "check_plan hi (es_policy ?s) ENGINE pb plan (es_unit ?s) (es_result ?s)")
  note r = check_plan_result [OF c]
  show ?thesis
  proof (cases e)
    case None
    with r assms have "r_allowed r \<Longrightarrow> r_violations r = []" by (simp add: clean_def)
    with c None show ?thesis by (simp add: execute_plan_def Let_def clean_result)
  next
    case (Some x)
    have "r_allowed r \<Longrightarrow> r_violations r = []" if "\<not> permission_error x"
      using r Some that assms by (simp add: clean_def)
    then have "clean (?s\<lparr>es_unit := unit, es_result := r\<rparr>)" if "\<not> permission_error x"
      using that by (simp add: clean_def)
    with c Some show ?thesis by (simp add: execute_plan_def Let_def clean_result)
  qed
qed

lemma prescreen_statement_clean:
  assumes "clean (hs_state st)"
  shows "clean (hs_state (snd (prescreen_statement hi pb plan st)))"
proof (cases "es_admitted (hs_state st)")
  case True
  let ?s = "hs_state st"
  obtain e unit r where c: "check_plan hi (es_policy ?s) PRESCREEN pb plan Unattributed (es_result ?s) = (e, unit, r)"
    by (cases "check_plan hi (es_policy ?s) PRESCREEN pb plan Unattributed (es_result ?s)")
  note r = check_plan_result [OF c]
  have "clean (?s\<lparr>es_result := r\<rparr>)" if "\<And>x. e = Some x \<Longrightarrow> \<not> permission_error x"
    using r that assms by (simp add: clean_def)
  with c True show ?thesis
    by (cases e) (simp_all add: prescreen_statement_def Let_def clean_result)
qed (use assms in \<open>simp add: prescreen_statement_def clean_result\<close>)

lemma PostBind_clean:
  assumes "clean (hs_state st)"
  shows "clean (hs_state (snd (PostBind hi pb st)))"
proof -
  have prep: "clean (hs_state (snd (prescreen_prepare hi pb plan st)))" for plan
    using assms by (auto simp: prescreen_prepare_def decide_prepare_def Let_def split: sum.splits prod.splits option.splits)
  have bound: "clean (hs_state (snd (bind_executed hi pb plan st)))" for plan
  proof (cases "es_authorized (hs_state st)")
    case False
    obtain e st1 where a: "Authorize_current hi (Some (pb_parameters pb)) st = (e, st1)"
      by (cases "Authorize_current hi (Some (pb_parameters pb)) st")
    with Authorize_current_clean [OF False, of hi "Some (pb_parameters pb)"] have "clean (hs_state st1)" by simp
    with a False execute_plan_clean [of st1] show ?thesis
      by (cases e) (simp_all add: bind_executed_def clean_refuse)
  qed (use assms execute_plan_clean in \<open>simp add: bind_executed_def clean_refuse\<close>)
  show ?thesis
    using assms prep bound prescreen_statement_clean [OF assms]
    by (simp add: PostBind_def Let_def wrapper_plan_def clean_refuse split: option.splits)
qed

lemma BeginStatement_clean: "clean (hs_state (snd (BeginStatement hi st)))"
proof -
  have admit: "clean (hs_state (snd (admit_unit hi unit st)))" if "\<not> es_authorized (hs_state st)" for unit st
  proof -
    let ?st = "update (\<lambda>s. s\<lparr>es_admitted := True, es_unit := unit\<rparr>) st"
    obtain go e st1 where c: "CheckParameters hi ?st = (go, e, st1)" by (cases "CheckParameters hi ?st")
    then have "\<not> es_authorized (hs_state st1)"
      using that by (auto simp: CheckParameters_def Let_def refuse_current_def record_current_def Record_def
          split: prod.splits option.splits if_splits)
    with c Authorize_current_clean show ?thesis by (cases go) (auto simp: admit_unit_def)
  qed
  have beg: "clean (hs_state (snd (begin_text hi st)))" if "\<not> es_authorized (hs_state st)" for st
    using that admit by (auto simp: begin_text_def admit_text_def Let_def split: sum.splits list.splits)
  have pol: "clean (hs_state (snd (begin_policy hi st)))" if "\<not> es_authorized (hs_state st)" for st
    using that beg by (auto simp: begin_policy_def Let_def split: sum.splits prod.splits bool.splits)
  have "\<not> es_authorized (hs_state (begin_snapshot hi st))" by (simp add: begin_snapshot_def Reset_def)
  with pol show ?thesis by (auto simp: BeginStatement_def Let_def split: sum.splits)
qed

lemma DescribeError_undescribed: "DescribeError name x binding r = (False, r1) \<Longrightarrow> r1 = r"
  by (cases x) (auto simp: DescribeError_def describe_data_def Let_def simp del: split_paired_All split: if_splits)

lemma gate_clean:
  assumes "clean (hs_state st)"
  shows "clean (hs_state (snd (GatekeeperReplacementScan hi scan st)))"
proof -
  have mark: "clean (MarkGateDecided (hs_state st))" using assms by (simp add: MarkGateDecided_def)
  have rec: "clean (hs_state (snd (gate_record hi mode r p a st)))" for mode r p a
    using mark by (simp add: gate_record_def Let_def split: prod.splits option.splits)
  have "clean (hs_state (snd (gate_scan hi mode scan st)))" for mode
    using assms rec
    by (auto simp: gate_scan_def gate_reader_def Let_def split: sum.splits option.splits prod.splits Resolution.splits)
  with assms show ?thesis by (simp add: GatekeeperReplacementScan_def split: GateMode.splits)
qed

lemma QueryEnd_clean: "clean (hs_state (snd (QueryEnd hi error st)))"
proof (cases error)
  case (Some e)
  obtain d r where d: "DescribeError (sc_type_name (hi_session hi)) e True (es_result (hs_state st)) = (d, r)"
    by (cases "DescribeError (sc_type_name (hi_session hi)) e True (es_result (hs_state st))")
  let ?st = "update (\<lambda>s. s\<lparr>es_result := MarkDenied r\<rparr>) st"
  obtain x st1 where rec: "Record hi AUTHORIZE (Some (es_policy (hs_state st))) (map_option st_query (u_statement (es_unit (hs_state st)))) ?st = (x, st1)"
    by (cases "Record hi AUTHORIZE (Some (es_policy (hs_state st))) (map_option st_query (u_statement (es_unit (hs_state st)))) ?st")
  then have "hs_state st1 = (hs_state ?st)\<lparr>es_decided := True\<rparr>" using Record_state by (metis snd_conv)
  then have "clean (hs_state st1)" by (simp add: clean_result)
  with Some d rec show ?thesis by (cases d; cases x) (simp_all add: QueryEnd_def Let_def)
qed (simp add: QueryEnd_def Let_def)

lemma OnPlanningError_clean:
  assumes "clean (hs_state st)"
  shows "clean (hs_state (snd (OnPlanningError hi e st)))"
proof -
  obtain d r where d: "DescribeError (sc_type_name (hi_session hi)) e True (es_result (hs_state st)) = (d, r)"
    by (cases "DescribeError (sc_type_name (hi_session hi)) e True (es_result (hs_state st))")
  have "r = es_result (hs_state st)" if "\<not> d" using DescribeError_undescribed d that by simp
  with assms d show ?thesis by (cases d) (simp_all add: OnPlanningError_def Let_def clean_refuse)
qed

lemma enforced_clean: "enforced st \<Longrightarrow> clean (hs_state st)"
proof (induction rule: enforced.induct)
  case (hook st hi event)
  then show ?case
    by (cases event) (simp_all add: QueryBegin_def CanRequestRebind_def OnFinalizePrepare_def ForceRebind_def
      BeginStatement_clean PostBind_clean gate_clean QueryEnd_clean OnPlanningError_clean seqO_def clean_refuse
      Let_def split: prod.splits option.splits)
qed simp

section \<open>The plan that runs\<close>

text \<open>
  A plan the engine may run for a unit under the policy \<open>p\<close>: allowed by it, and scanning no table or
  source more often than the plan the private bind validated.
\<close>

definition plan_within_policy ::
    "FunctionGrant list \<Rightarrow> nat \<Rightarrow> Policy \<Rightarrow> Unit \<Rightarrow> StatementProperties \<Rightarrow> LogicalOperator \<Rightarrow> bool" where
  "plan_within_policy inventory major p unit properties plan \<longleftrightarrow>
     plan_allowed inventory major \<lparr>ceiling_layer = p, request_layer = p\<rparr> ENGINE unit properties plan \<and>
     (\<forall>k. count_list (table_scans ENGINE (plan_operators plan)) k \<le> count_of (validated_scans (u_provenance unit)) k) \<and>
     (\<forall>k. count_list (function_scans ENGINE (plan_operators plan)) k \<le>
        count_of (validated_function_scans (u_provenance unit)) k)"

lemma CheckPlan_within_policy:
  assumes "CheckPlan operator_name inventory major \<lparr>ceiling_layer = p, request_layer = p\<rparr> ENGINE properties plan unit r =
      (None, unit', r')"
    and "r_violations r = []"
  shows "plan_within_policy inventory major p unit properties plan \<and> unit' = unit"
  using CheckPlan_walked [OF assms(2,1)] CheckPlan_allowed [OF assms] by (simp add: plan_within_policy_def)

lemma execute_plan_within_policy:
  assumes "execute_plan hi pb plan st = (None, st')" and "\<not> es_log_only (hs_state st)"
    and "clean (hs_state st)" and "es_authorized (hs_state st)"
  shows "plan_within_policy (defaults_of (sc_bind (hi_session hi))) (major_of hi) (es_policy (hs_state st))
     (es_unit (hs_state st')) (pb_properties pb) plan"
proof -
  let ?s = "hs_state st"
  from assms(1,2) obtain unit r where c: "check_plan hi (es_policy ?s) ENGINE pb plan (es_unit ?s) (es_result ?s) = (None, unit, r)"
    and rec: "refuse_current hi EXECUTION r (update (\<lambda>s. s\<lparr>es_unit := unit\<rparr>) st) = (None, st')"
    by (auto simp: execute_plan_def Let_def split: prod.splits option.splits if_splits dest!: refuse_current_None)
  from refuse_current_None [OF rec] assms(2) have "r_allowed r" by simp
  then have v: "r_violations (es_result ?s) = []"
    using check_plan_result(1) [OF c] assms(3,4) by (simp add: clean_def)
  have "es_unit (hs_state st') = unit"
    using record_state(2) [of hi EXECUTION r "update (\<lambda>s. s\<lparr>es_unit := unit\<rparr>) st"] rec by simp
  with CheckPlan_within_policy [OF c [unfolded check_plan_def] v] show ?thesis by simp
qed

lemma bind_executed_within_policy:
  assumes "bind_executed hi pb plan st = (None, st')" and "\<not> es_log_only (hs_state st)" and "clean (hs_state st)"
  shows "plan_within_policy (defaults_of (sc_bind (hi_session hi))) (major_of hi) (es_policy (hs_state st))
     (es_unit (hs_state st')) (pb_properties pb) plan \<and> es_admitted (hs_state st)"
proof -
  have adm: "es_admitted (hs_state st)"
    using assms(1,2) by (auto simp: bind_executed_def split: if_splits dest!: refuse_current_None)
  show ?thesis
  proof (cases "es_authorized (hs_state st)")
    case True
    with assms adm execute_plan_within_policy [of hi pb plan st st'] show ?thesis by (simp add: bind_executed_def)
  next
    case False
    with assms(1) adm obtain st1 where a: "Authorize_current hi (Some (pb_parameters pb)) st = (None, st1)"
      and x: "(if es_authorized (hs_state st1) then execute_plan hi pb plan st1 else (None, st1)) = (None, st')"
      by (auto simp: bind_executed_def seqO_eq_None)
    note authorized = Authorize_current_enforcing [OF a assms(2)]
    have "clean (hs_state st1)" using Authorize_current_clean [OF False, of hi "Some (pb_parameters pb)"] a by simp
    with authorized x adm execute_plan_within_policy [of hi pb plan st1 st'] show ?thesis by auto
  qed
qed


text \<open>A statement begun under the built-in default policy, and a plan for it that scans nothing.\<close>

definition begun_hook :: HookInput where
  "begun_hook = sample_hook\<lparr>hi_policy := Some (PolicyValue default_policy)\<rparr>"

definition begun_session :: StatementContext where
  "begun_session = with_layers default_policy default_policy sample_session"

lemma begun_text:
  "case CheckText session_engine \<lparr>ceiling_layer = default_policy, request_layer = default_policy\<rparr> ''SELECT NULL'' default_limits of
     Inl _ \<Rightarrow> False
   | Inr check \<Rightarrow> r_allowed (tc_result check) \<and> (case tc_units check of
       [unit] \<Rightarrow> u_pivot_enums unit = [] \<and> (case Authorize begun_session None unit (tc_result check) of
          (e, _, r) \<Rightarrow> e = None \<and> r_allowed r)
     | _ \<Rightarrow> False)"
  by code_simp

definition idle_plan :: LogicalOperator where
  "idle_plan = Operator LOGICAL_DUMMY_SCAN None None [] []"

lemma idle_plan_passes:
  "CheckPlan operator_name inventory 1 layers ENGINE sample_properties idle_plan unit r = (None, unit, r)"
  by (simp add: CheckPlan_def idle_plan_def sample_properties_def check_properties_def ModifiesDatabase_def PivotEnumPlan_def
    plan_operators_def check_operator_def operator_readable_def ReadOperator_def op_scan_def start_accounting_def on_result_def
    AuthorizePlan_def AuthorizePlanAgainst_def plan_steps_def Layers_Each_def get_steps_def plan_expressions_def Let_def)

lemma begun_state:
  "\<exists>unit r. hs_state (run_hook begun_hook BeginQuery \<lparr>hs_state = Reset, hs_log = []\<rparr>) =
     Reset\<lparr>es_in_statement := True, es_statement_id := 7, es_policy := default_policy, es_admitted := True,
       es_unit := unit, es_result := r, es_authorized := True\<rparr> \<and> r_allowed r"
proof -
  obtain check unit unit' r where t: "CheckText session_engine \<lparr>ceiling_layer = default_policy, request_layer = default_policy\<rparr>
      ''SELECT NULL'' default_limits = Inr check" "r_allowed (tc_result check)" "tc_units check = [unit]" "u_pivot_enums unit = []"
    and a: "Authorize begun_session None unit (tc_result check) = (None, unit', r)" "r_allowed r"
    using begun_text by (auto split: sum.splits list.splits prod.splits)
  have p: "TryGlobalPolicy (Some (PolicyValue default_policy)) = Inr (Inr default_policy)"
    by (simp add: TryGlobalPolicy_def GlobalPolicy_def ReadPolicy_PolicyValue default_policy_wf)
  have h: "hi_session begun_hook = sample_session" "hi_policy begun_hook = Some (PolicyValue default_policy)"
    "hi_log_only begun_hook = None" "hi_active begun_hook = Some 7" "hi_query begun_hook = ''SELECT NULL''"
    "hi_has_parameters begun_hook st = False" for st
    by (simp_all add: begun_hook_def sample_hook_def)
  have s: "sc_text sample_session = session_engine" "bc_major (sc_bind sample_session) = 1"
    by (simp_all add: sample_session_def sample_context_def)
  have snap: "Snapshot begun_hook e = with_layers (es_policy e) (es_policy e) sample_session" for e
    by (simp add: Snapshot_def h)
  have l: "bc_layers (sc_bind (with_layers q q sc)) = \<lparr>ceiling_layer = q, request_layer = q\<rparr>"
    "bc_major (sc_bind (with_layers q q sc)) = bc_major (sc_bind sc)" for q sc by (simp_all add: with_layers_def)
  show ?thesis
    using t a
    by (intro exI [of _ unit'] exI [of _ r])
      (simp add: QueryBegin_def BeginStatement_def begin_snapshot_def begin_policy_def begin_text_def admit_text_def admit_unit_def
        CheckParameters_def CheckParameterFallbacks_def Authorize_current_def LogOnlySetting_def CheckRemoteScope_def
        begun_session_def h s p snap l Reset_def Let_def split: option.split)
qed

lemma begun_reachable:
  obtains st unit r where "enforced st" and "r_allowed r" and "hs_state st = Reset\<lparr>es_in_statement := True, es_statement_id := 7,
    es_policy := default_policy, es_admitted := True, es_unit := unit, es_result := r, es_authorized := True\<rparr>"
  using begun_state enforced.hook [OF enforced.latched] by metis

lemma begun_hook_sel:
  "hi_active begun_hook = Some 7" "major_of begun_hook = 1" "defaults_of (sc_bind (hi_session begun_hook)) = sample_inventory"
  by (simp_all add: begun_hook_def sample_hook_def sample_session_def sample_context_def)

lemma sample_bound_sel:
  "pb_plan (sample_bound plan) = Some plan" "pb_properties (sample_bound plan) = sample_properties"
  by (simp_all add: sample_bound_def)

lemma begun_runs:
  obtains st st' where "enforced st" and "PostBind begun_hook (sample_bound idle_plan) st = (None, st')"
    and "es_in_statement (hs_state st)" and "\<not> es_log_only (hs_state st)" and "es_policy (hs_state st) = default_policy"
proof -
  obtain st unit r where reach: "enforced st" and r: "r_allowed r" and st: "hs_state st = Reset\<lparr>es_in_statement := True,
      es_statement_id := 7, es_policy := default_policy, es_admitted := True, es_unit := unit, es_result := r, es_authorized := True\<rparr>"
    by (rule begun_reachable)
  have check: "check_plan begun_hook q ENGINE (sample_bound idle_plan) idle_plan unit r = (None, unit, r)" for q
    using idle_plan_passes by (simp add: check_plan_def sample_bound_sel begun_hook_sel)
  have "Write (hi_audit begun_hook) level event fds records = (None, records)" for level event fds records
    by (simp add: Write_def begun_hook_def sample_hook_def)
  then have "fst (PostBind begun_hook (sample_bound idle_plan) st) = None"
    using r by (simp add: PostBind_def sample_bound_sel st Reset_def begun_hook_sel CurrentStatement_def bind_executed_def
      execute_plan_def check refuse_current_def record_current_def Record_def Decide_def Let_def split: prod.splits)
  then show thesis
    using that [OF reach, of "snd (PostBind begun_hook (sample_bound idle_plan) st)"] st
    by (simp add: prod_eq_iff Reset_def)
qed


end
