(* ===== verification/Decision_Records.thy ===== *)
theory Decision_Records
  imports Enforced_Execution
begin

text \<open>
  The record of a statement's decision (\<open>src/src/enforcement.cpp\<close>, \<open>src/src/audit.cpp\<close>): in log-only mode every hook
  of a statement, from its begin to its end, writes at most one record between them, and no plan runs
  before the decision of its statement is on record.
\<close>

section \<open>At most one record\<close>

text \<open>A log that takes every record.\<close>

definition takes_all :: "AuditEngine \<Rightarrow> bool" where
  "takes_all ae \<longleftrightarrow> (\<forall>level. ae_should_log ae level) \<and> (\<forall>entry. ae_sink ae entry = None)"

text \<open>
  From one state to another the decision was recorded at most once, and only if it had not been; a log
  that takes every record has it exactly when it became decided on the way.
\<close>

definition once :: "bool \<Rightarrow> HookState \<Rightarrow> HookState \<Rightarrow> bool" where
  "once taken st st' \<longleftrightarrow>
     (es_decided (hs_state st) \<longrightarrow> es_decided (hs_state st')) \<and>
     (\<exists>new. hs_log st' = hs_log st @ new \<and>
        (new = [] \<or> length new = 1 \<and> \<not> es_decided (hs_state st) \<and> es_decided (hs_state st')) \<and>
        (taken \<longrightarrow> (new = [] \<longleftrightarrow> es_decided (hs_state st) = es_decided (hs_state st'))))"

lemma once_silent:
  "hs_log st' = hs_log st \<Longrightarrow> es_decided (hs_state st') = es_decided (hs_state st) \<Longrightarrow> once taken st st'"
  by (simp add: once_def)

lemma once_trans: "once taken st st1 \<Longrightarrow> once taken st1 st2 \<Longrightarrow> once taken st st2"
  unfolding once_def by (elim conjE exE) (auto split: if_splits)

text \<open>What \<open>Decide\<close> does to the log, and so every hook that records through it.\<close>

lemma Decide_once:
  assumes "\<not> es_decided (hs_state st)" and "es_decided (hs_state st')"
    and "hs_log st' = snd (Decide ae site r (hs_log st))"
  shows "once (takes_all ae) st st'"
  using assms
  by (cases rule: Write_cases [of ae "if r_allowed r then LOG_DEBUG else LOG_INFO" "''decision''" "decision_fields ae site r" "hs_log st"])
    (auto simp: once_def Decide_log takes_all_def)

lemma Record_once:
  "\<not> es_decided (hs_state st) \<Longrightarrow> once (takes_all (hi_audit hi)) st (snd (Record hi boundary p sql st))"
  by (rule Decide_once [where r = "es_result (hs_state st)" and site = "\<lparr>site_mode = ModeFor (es_log_only (hs_state st)),
        site_boundary = boundary, site_policy = p, site_statement = sql\<rparr>"])
    (simp_all add: Record_def Let_def split: prod.splits)

lemma refuse_current_once:
  assumes "\<not> es_decided (hs_state st)"
  shows "once (takes_all (hi_audit hi)) st (snd (refuse_current hi boundary r st))"
proof (rule once_trans [OF once_silent])
  show "once (takes_all (hi_audit hi)) (update (\<lambda>s. s\<lparr>es_result := r\<rparr>) st) (snd (refuse_current hi boundary r st))"
    unfolding refuse_current_def record_current_def by (rule Record_once) (use assms in simp)
qed simp_all

lemma gate_record_once:
  assumes "\<not> es_decided (hs_state st)" and "es_in_statement (hs_state st)"
  shows "once (takes_all (hi_audit hi)) st (snd (gate_record hi mode r p answer st))"
  by (rule Decide_once [where r = r and site = "\<lparr>site_mode = mode, site_boundary = REPLACEMENT_SCAN, site_policy = p,
        site_statement = AdmittedQuery hi (MarkGateDecided (hs_state st))\<rparr>"])
    (use assms in \<open>auto simp: gate_record_def MarkGateDecided_def Let_def split: prod.splits option.splits\<close>)

section \<open>The hooks of a log-only statement\<close>

lemma Authorize_current_once:
  assumes "\<not> es_decided (hs_state st)" and "\<not> es_authorized (hs_state st)"
  shows "once (takes_all (hi_audit hi)) st (snd (Authorize_current hi ps st)) \<and>
    (es_authorized (hs_state (snd (Authorize_current hi ps st))) \<longrightarrow> \<not> es_decided (hs_state (snd (Authorize_current hi ps st))))"
proof -
  let ?s = "hs_state st"
  obtain e unit r where a: "Authorize (Snapshot hi ?s) ps (es_unit ?s) (es_result ?s) = (e, unit, r)"
    by (cases "Authorize (Snapshot hi ?s) ps (es_unit ?s) (es_result ?s)")
  let ?st = "update (\<lambda>s. s\<lparr>es_unit := unit, es_result := r\<rparr>) st"
  have refuse: "once (takes_all (hi_audit hi)) st (snd (refuse_current hi AUTHORIZE r1 ?st))" for r1
    by (rule once_trans [OF once_silent refuse_current_once]) (use assms in simp_all)
  show ?thesis
  proof (cases e)
    case None
    with a assms show ?thesis by (simp add: Authorize_current_def Let_def once_silent)
  next
    case (Some x)
    obtain d r1 where "DescribeError (sc_type_name (hi_session hi)) x True r = (d, r1)"
      by (cases "DescribeError (sc_type_name (hi_session hi)) x True r")
    with a assms Some refuse show ?thesis
      by (cases d) (auto simp: Authorize_current_def Let_def once_silent)
  qed
qed

lemma execute_plan_once:
  assumes "\<not> es_decided (hs_state st)"
  shows "once (takes_all (hi_audit hi)) st (snd (execute_plan hi pb plan st))"
proof -
  let ?s = "hs_state st"
  obtain e unit r where c: "check_plan hi (es_policy ?s) ENGINE pb plan (es_unit ?s) (es_result ?s) = (e, unit, r)"
    by (cases "check_plan hi (es_policy ?s) ENGINE pb plan (es_unit ?s) (es_result ?s)")
  have refuse: "once (takes_all (hi_audit hi)) st (snd (refuse_current hi EXECUTION r1 (update (\<lambda>s. s\<lparr>es_unit := unit\<rparr>) st)))" for r1
    by (rule once_trans [OF once_silent refuse_current_once]) (use assms in simp_all)
  show ?thesis
    using c refuse by (cases e) (simp_all add: execute_plan_def Let_def once_silent)
qed

lemma bind_executed_once:
  assumes "\<not> es_decided (hs_state st)"
  shows "once (takes_all (hi_audit hi)) st (snd (bind_executed hi pb plan st))"
proof (cases "es_authorized (hs_state st)")
  case True
  with assms execute_plan_once refuse_current_once show ?thesis by (simp add: bind_executed_def)
next
  case False
  obtain e st1 where a: "Authorize_current hi (Some (pb_parameters pb)) st = (e, st1)"
    by (cases "Authorize_current hi (Some (pb_parameters pb)) st")
  with Authorize_current_once [OF assms False, of hi "Some (pb_parameters pb)"]
  have first: "once (takes_all (hi_audit hi)) st st1" and undecided: "es_authorized (hs_state st1) \<Longrightarrow> \<not> es_decided (hs_state st1)"
    by simp_all
  have "once (takes_all (hi_audit hi)) st (snd (execute_plan hi pb plan st1))" if "es_authorized (hs_state st1)"
    by (rule once_trans [OF first execute_plan_once [OF undecided [OF that]]])
  with a first False assms refuse_current_once show ?thesis
    by (cases e) (simp_all add: bind_executed_def)
qed

lemma prescreen_statement_once:
  assumes "\<not> es_decided (hs_state st)"
  shows "once (takes_all (hi_audit hi)) st (snd (prescreen_statement hi pb plan st))"
  using assms refuse_current_once
  by (auto simp: prescreen_statement_def Let_def once_silent split: prod.splits option.splits)

lemma PostBind_once:
  assumes "es_log_only (hs_state st)" and "CurrentStatement hi (hs_state st)"
  shows "once (takes_all (hi_audit hi)) st (snd (PostBind hi pb st))"
proof -
  from assms(2) have "es_in_statement (hs_state st)" by (simp add: CurrentStatement_def)
  with assms show ?thesis
    by (cases "es_decided (hs_state st)")
      (auto simp: PostBind_def Let_def once_silent wrapper_plan_def prescreen_statement_once bind_executed_once
        refuse_current_once split: option.split)
qed

lemma gate_once:
  assumes "es_log_only (hs_state st)" and "CurrentStatement hi (hs_state st)"
  shows "once (takes_all (hi_audit hi)) st (snd (GatekeeperReplacementScan hi scan st))"
proof (cases "es_decided (hs_state st)")
  case True
  with assms show ?thesis
    by (auto simp: GatekeeperReplacementScan_def ReplacementGate_def CurrentStatement_def once_silent)
next
  case False
  from assms(2) have s: "es_in_statement (hs_state st)" by (simp add: CurrentStatement_def)
  have "once (takes_all (hi_audit hi)) st (snd (gate_scan hi mode scan st))" for mode
    using gate_record_once [OF False s, of hi mode]
    by (auto simp: gate_scan_def gate_reader_def Let_def once_silent
        split: sum.splits option.splits prod.splits Resolution.splits)
  then show ?thesis by (simp add: GatekeeperReplacementScan_def once_silent split: GateMode.split)
qed

text \<open>Which statement a state is in, and in which mode: no hook between its begin and its end changes it.\<close>

definition statement_of :: "EnforcementState \<Rightarrow> bool \<times> bool \<times> nat" where
  "statement_of s = (es_in_statement s, es_log_only s, es_statement_id s)"

lemma statement_of_other [simp]:
  "statement_of (s\<lparr>es_result := r\<rparr>) = statement_of s" "statement_of (s\<lparr>es_decided := d\<rparr>) = statement_of s"
  "statement_of (s\<lparr>es_unit := u\<rparr>) = statement_of s" "statement_of (s\<lparr>es_authorized := d\<rparr>) = statement_of s"
  "statement_of (s\<lparr>es_prescreened := d\<rparr>) = statement_of s" "statement_of (s\<lparr>es_executing_prepared := d\<rparr>) = statement_of s"
  "statement_of (s\<lparr>es_prepare_decided := d\<rparr>) = statement_of s" "statement_of (s\<lparr>es_policy := p\<rparr>) = statement_of s"
  "statement_of (s\<lparr>es_admitted := d\<rparr>) = statement_of s"
  by (simp_all add: statement_of_def)

lemma Authorize_current_statement: "statement_of (hs_state (snd (Authorize_current hi ps st))) = statement_of (hs_state st)"
  by (simp add: Authorize_current_def Let_def split: prod.splits option.splits bool.splits)

lemma execute_plan_statement: "statement_of (hs_state (snd (execute_plan hi pb plan st))) = statement_of (hs_state st)"
  by (simp add: execute_plan_def Let_def split: prod.splits option.splits)

lemma PostBind_statement:
  assumes "es_in_statement (hs_state st)"
  shows "statement_of (hs_state (snd (PostBind hi pb st))) = statement_of (hs_state st)"
proof -
  have "statement_of (hs_state (snd (bind_executed hi pb plan st))) = statement_of (hs_state st)" for plan
    using Authorize_current_statement [of hi "Some (pb_parameters pb)" st]
    by (cases "Authorize_current hi (Some (pb_parameters pb)) st"; cases "fst (Authorize_current hi (Some (pb_parameters pb)) st)")
      (simp_all add: bind_executed_def execute_plan_statement)
  moreover have "statement_of (hs_state (snd (prescreen_statement hi pb plan st))) = statement_of (hs_state st)" for plan
    by (simp add: prescreen_statement_def Let_def split: prod.splits option.splits)
  ultimately show ?thesis
    using assms by (simp add: PostBind_def Let_def wrapper_plan_def split: option.split)
qed

lemma gate_statement: "statement_of (hs_state (snd (GatekeeperReplacementScan hi scan st))) = statement_of (hs_state st)"
proof -
  have "statement_of (hs_state (snd (gate_record hi mode r p answer st))) = statement_of (hs_state st)" for mode r p answer
    by (simp add: gate_record_def MarkGateDecided_def Let_def split: prod.splits option.splits)
  then have "statement_of (hs_state (snd (gate_scan hi mode scan st))) = statement_of (hs_state st)" for mode
    by (auto simp: gate_scan_def gate_reader_def Let_def split: sum.splits option.splits prod.splits Resolution.splits)
  then show ?thesis by (simp add: GatekeeperReplacementScan_def split: GateMode.split)
qed

text \<open>The hooks of a statement in progress: all but those that begin and end one.\<close>

fun within_statement :: "hook_event \<Rightarrow> bool" where
  "within_statement BeginQuery \<longleftrightarrow> False"
| "within_statement (EndQuery e) \<longleftrightarrow> False"
| "within_statement _ \<longleftrightarrow> True"

lemma within_statement_once:
  assumes "within_statement event" and "es_log_only (hs_state st)" and "CurrentStatement hi (hs_state st)"
  shows "once (takes_all (hi_audit hi)) st (run_hook hi event st) \<and>
    statement_of (hs_state (run_hook hi event st)) = statement_of (hs_state st)"
proof -
  from assms(3) have s: "es_in_statement (hs_state st)" by (simp add: CurrentStatement_def)
  show ?thesis
  proof (cases event)
    case (PlanningFailed e)
    with s assms(2) refuse_current_once show ?thesis
      by (auto simp: OnPlanningError_def Let_def once_silent split: prod.splits bool.splits)
  next
    case RebindPrepared
    have "once (takes_all (hi_audit hi)) st (snd (ForceRebind hi st))"
    proof (cases "\<not> es_admitted (hs_state st) \<and> \<not> es_decided (hs_state st)")
      case True
      then have first: "once (takes_all (hi_audit hi)) st (snd (refuse_current hi BINDING NotAdmitted st))"
        using refuse_current_once by blast
      have "once (takes_all (hi_audit hi)) st (update (\<lambda>s. s\<lparr>es_executing_prepared := True\<rparr>) (snd (refuse_current hi BINDING NotAdmitted st)))"
        by (rule once_trans [OF first once_silent]) simp_all
      with True first show ?thesis by (simp add: ForceRebind_def Let_def seqO_def split: option.split)
    qed (auto simp: ForceRebind_def Let_def once_silent)
    then show ?thesis using RebindPrepared by (auto simp: ForceRebind_def Let_def seqO_def split: option.split)
  qed (use assms s PostBind_once PostBind_statement gate_once gate_statement in
      \<open>auto simp: CanRequestRebind_def OnFinalizePrepare_def once_silent\<close>)
qed

definition run_hooks :: "(HookInput \<times> hook_event) list \<Rightarrow> HookState \<Rightarrow> HookState" where
  "run_hooks = fold (\<lambda>(hi, event). run_hook hi event)"

text \<open>Each hook runs while the statement \<open>n\<close> is the engine's, on a log that takes every record if \<open>taken\<close> says so.\<close>

definition statement_hooks :: "nat \<Rightarrow> bool \<Rightarrow> (HookInput \<times> hook_event) list \<Rightarrow> bool" where
  "statement_hooks n taken = list_all (\<lambda>(hi, event). hi_active hi = Some n \<and> within_statement event \<and> (taken \<longrightarrow> takes_all (hi_audit hi)))"

lemma once_weaken: "once taken st st' \<Longrightarrow> (taken' \<longrightarrow> taken) \<Longrightarrow> once taken' st st'"
  by (auto simp: once_def)

lemma run_hooks_once:
  assumes "statement_hooks n taken hooks" and "statement_of (hs_state st) = (True, True, n)"
  shows "once taken st (run_hooks hooks st) \<and> statement_of (hs_state (run_hooks hooks st)) = (True, True, n)"
  using assms
proof (induction hooks arbitrary: st)
  case Nil
  then show ?case by (simp add: run_hooks_def once_silent)
next
  case (Cons h hooks)
  obtain hi event where h: "h = (hi, event)" by (cases h)
  with Cons.prems have c: "within_statement event" "es_log_only (hs_state st)" "CurrentStatement hi (hs_state st)"
    "taken \<longrightarrow> takes_all (hi_audit hi)" and rest: "statement_hooks n taken hooks"
    by (simp_all add: statement_hooks_def statement_of_def CurrentStatement_def)
  from within_statement_once [OF c(1-3)] c(4) have one: "once taken st (run_hook hi event st)"
    "statement_of (hs_state (run_hook hi event st)) = (True, True, n)"
    using once_weaken [OF _ c(4)] Cons.prems(2) by (blast, simp)
  from Cons.IH [OF rest one(2)] once_trans [OF one(1)] h show ?case by (simp add: run_hooks_def)
qed

section \<open>The begin and the end\<close>

lemma begin_policy_once:
  assumes "\<not> es_decided (hs_state st)" and "\<not> es_authorized (hs_state st)"
  shows "once (takes_all (hi_audit hi)) st (snd (begin_policy hi st))"
proof -
  let ?once = "once (takes_all (hi_audit hi))"
  have admit: "?once st (snd (admit_unit hi unit st))" if "\<not> es_decided (hs_state st)" "\<not> es_authorized (hs_state st)" for unit st
  proof -
    let ?st = "update (\<lambda>s. s\<lparr>es_admitted := True, es_unit := unit\<rparr>) st"
    obtain e r where p: "CheckParameterFallbacks (sc_bind (Snapshot hi (hs_state ?st))) (u_binding unit) None False
        (es_result (hs_state st)) = (e, r)"
      by (cases "CheckParameterFallbacks (sc_bind (Snapshot hi (hs_state ?st))) (u_binding unit) None False (es_result (hs_state st))")
    have refuse: "?once st (snd (refuse_current hi BINDING (MarkDenied r) ?st))"
      by (rule once_trans [OF once_silent refuse_current_once]) (use that in simp_all)
    have silent: "?once st (update (\<lambda>s. s\<lparr>es_result := r\<rparr>) ?st)" by (simp add: once_silent)
    have "?once st (snd (Authorize_current hi None (update (\<lambda>s. s\<lparr>es_result := r\<rparr>) ?st)))"
      by (rule once_trans [OF silent]) (use that Authorize_current_once in simp)
    with p refuse silent show ?thesis
      by (cases e) (auto simp: admit_unit_def CheckParameters_def Let_def)
  qed
  have whole: "?once st (snd (admit_text hi check st))" if "\<not> es_decided (hs_state st)" "\<not> es_authorized (hs_state st)" for check st
  proof -
    have "?once st (snd (admit_unit hi unit (update (\<lambda>s. s\<lparr>es_result := r\<rparr>) st)))" for unit r
      by (rule once_trans [OF once_silent admit]) (use that in simp_all)
    with that refuse_current_once show ?thesis by (auto simp: admit_text_def split: list.split)
  qed
  have beg: "?once st (snd (begin_text hi st))" if "\<not> es_decided (hs_state st)" "\<not> es_authorized (hs_state st)" for st
    using that whole refuse_current_once by (auto simp: begin_text_def Let_def once_silent split: sum.split)
  have rec: "?once st (snd (Record hi BINDING None sql (update (\<lambda>s. s\<lparr>es_result := r\<rparr>) st)))" for r sql
    by (rule once_trans [OF once_silent Record_once]) (use assms in simp_all)
  have rem: "?once st (snd (refuse_current hi BINDING r (update (\<lambda>s. s\<lparr>es_policy := p\<rparr>) st)))"
    "?once st (snd (begin_text hi (update (\<lambda>s. s\<lparr>es_policy := p\<rparr>) st)))" for r p
    by (rule once_trans [OF once_silent refuse_current_once] once_trans [OF once_silent beg]; use assms in simp)+
  show ?thesis
    by (auto simp: begin_policy_def Let_def once_silent rec rem split: sum.split prod.split bool.split)
qed

lemma begin_policy_statement: "statement_of (hs_state (snd (begin_policy hi st))) = statement_of (hs_state st)"
proof -
  have param: "statement_of (hs_state (snd (snd (CheckParameters hi st)))) = statement_of (hs_state st)" for st
    by (simp add: CheckParameters_def Let_def split: prod.splits option.splits)
  have admit: "statement_of (hs_state (snd (admit_unit hi unit st))) = statement_of (hs_state st)" for unit st
    using param [of "update (\<lambda>s. s\<lparr>es_admitted := True, es_unit := unit\<rparr>) st"]
    by (auto simp: admit_unit_def Authorize_current_statement split: prod.splits bool.splits option.splits)
  have "statement_of (hs_state (snd (begin_text hi st))) = statement_of (hs_state st)" for st
    by (auto simp: begin_text_def admit_text_def Let_def admit split: sum.splits list.splits)
  then show ?thesis by (auto simp: begin_policy_def Let_def split: sum.splits prod.splits bool.splits)
qed

lemma BeginStatement_once:
  assumes "hi_active hi = Some n"
  shows "\<exists>s. \<not> es_decided s \<and> once (takes_all (hi_audit hi)) \<lparr>hs_state = s, hs_log = hs_log st\<rparr> (snd (BeginStatement hi st)) \<and>
    (es_log_only (hs_state (snd (BeginStatement hi st))) \<longrightarrow>
       statement_of (hs_state (snd (BeginStatement hi st))) = (True, True, n))"
proof -
  let ?s = "\<lambda>b. Reset\<lparr>es_in_statement := True, es_statement_id := n, es_log_only := b\<rparr>"
  let ?st = "\<lambda>b. \<lparr>hs_state = ?s b, hs_log = hs_log st\<rparr>"
  have sel: "\<not> es_decided (?s b)" "\<not> es_authorized (?s b)" "statement_of (?s b) = (True, b, n)" for b
    by (simp_all add: Reset_def statement_of_def)
  have snap: "begin_snapshot hi st = ?st False"
    using assms by (simp add: begin_snapshot_def Reset_def)
  have begun: "once (takes_all (hi_audit hi)) (?st b) (snd (begin_policy hi (?st b)))"
    "statement_of (hs_state (snd (begin_policy hi (?st b)))) = (True, b, n)" for b
    using begin_policy_once [of "?st b" hi] begin_policy_statement [of hi "?st b"] sel by simp_all
  consider b where "BeginStatement hi st = begin_policy hi (?st b)" | e where "BeginStatement hi st = (Some e, ?st False)"
  proof (cases "LogOnlySetting (hi_log_only hi)")
    case True
    with that snap show thesis by (cases "RoutingControl hi") (simp_all add: BeginStatement_def)
  qed (use that snap in \<open>simp add: BeginStatement_def\<close>)
  then show ?thesis
  proof cases
    case (1 b)
    with begun [of b] sel(1) [of b] show ?thesis
      by (intro exI [of _ "?s b"]) (auto simp: statement_of_def)
  next
    case (2 e)
    with sel show ?thesis by (intro exI [of _ "?s False"]) (simp add: once_silent statement_of_def)
  qed
qed

lemma QueryEnd_log:
  "\<exists>new. hs_log (snd (QueryEnd hi error st)) = hs_log st @ new \<and> (new = [] \<or> length new = 1 \<and> \<not> es_decided (hs_state st))"
proof -
  have *: "\<exists>new. hs_log (snd (seqO (Record hi b p sql st1) (\<lambda>st. (None, st\<lparr>hs_state := Reset\<rparr>)))) = hs_log st @ new \<and>
      (new = [] \<or> length new = Suc 0)"
    if "\<not> es_decided (hs_state st)" "hs_log st1 = hs_log st" "\<not> es_decided (hs_state st1)" for b p sql st1
    using Record_once [OF that(3), of hi b p sql] that by (auto simp: once_def seqO_def split: option.splits)
  show ?thesis
    by (auto simp: QueryEnd_def Let_def intro!: * split: option.splits prod.splits bool.splits)
qed

section \<open>The record of an execution\<close>

text \<open>The record of a decision on the plan about to run, as the statement's snapshot stands.\<close>

definition execution_entry :: "HookInput \<Rightarrow> EnforcementState \<Rightarrow> Result \<Rightarrow> LogRecord \<Rightarrow> bool" where
  "execution_entry hi s r entry \<longleftrightarrow> lr_level entry = LOG_DEBUG \<and>
     lr_fields entry = decision_fields (hi_audit hi) \<lparr>site_mode = ENFORCE, site_boundary = EXECUTION,
       site_policy = Some (es_policy s), site_statement = Some (hi_query hi)\<rparr> r"

lemma refuse_current_execution:
  assumes "refuse_current hi EXECUTION r st = (None, st')" and "\<not> es_log_only (hs_state st)"
  shows "r_allowed r \<and> (takes_all (hi_audit hi) \<longrightarrow>
    (\<exists>entry. hs_log st' = hs_log st @ [entry] \<and> execution_entry hi (hs_state st) r entry))"
proof -
  have allowed: "r_allowed r" using refuse_current_None [OF assms(1)] assms(2) by simp
  let ?site = "\<lparr>site_mode = ModeFor (es_log_only (hs_state st)), site_boundary = EXECUTION,
     site_policy = Some (es_policy (hs_state st)), site_statement = Some (hi_query hi)\<rparr>"
  have l: "hs_log st' = snd (Decide (hi_audit hi) ?site r (hs_log st))"
    using assms(1) by (auto simp: refuse_current_def record_current_def Record_def Let_def split: prod.splits)
  show ?thesis
  proof (cases rule: Write_cases [of "hi_audit hi" LOG_DEBUG "''decision''" "decision_fields (hi_audit hi) ?site r" "hs_log st"])
    case (written entry)
    with l allowed assms(2) show ?thesis
      by (auto simp: Decide_log ModeFor_def execution_entry_def)
  qed (use allowed in \<open>auto simp: takes_all_def\<close>)
qed

lemma execute_plan_recorded:
  assumes "execute_plan hi pb plan st = (None, st')"
  shows "es_decided (hs_state st') \<and> (\<not> es_log_only (hs_state st) \<longrightarrow> r_allowed (es_result (hs_state st')) \<and>
    (takes_all (hi_audit hi) \<longrightarrow>
       (\<exists>entry. hs_log st' = hs_log st @ [entry] \<and> execution_entry hi (hs_state st) (es_result (hs_state st')) entry)))"
proof -
  from assms obtain unit r where rec: "refuse_current hi EXECUTION r (update (\<lambda>s. s\<lparr>es_unit := unit\<rparr>) st) = (None, st')"
    by (auto simp: execute_plan_def Let_def split: prod.splits option.splits if_splits)
  then have state: "hs_state st' = (hs_state st)\<lparr>es_unit := unit, es_result := r, es_decided := True\<rparr>"
    using record_state(2) [of hi EXECUTION r "update (\<lambda>s. s\<lparr>es_unit := unit\<rparr>) st"] by simp
  from refuse_current_execution [OF rec] state show ?thesis by (auto simp: execution_entry_def)
qed

lemma Authorize_current_None:
  assumes a: "Authorize_current hi ps st = (None, st1)"
  obtains unit r where "st1 = update (\<lambda>s. s\<lparr>es_unit := unit, es_result := r, es_authorized := True\<rparr>) st"
    | "es_log_only (hs_state st)" and "es_decided (hs_state st1)" and "es_authorized (hs_state st1) = es_authorized (hs_state st)"
proof -
  let ?s = "hs_state st"
  obtain e unit r where e: "Authorize (Snapshot hi ?s) ps (es_unit ?s) (es_result ?s) = (e, unit, r)"
    by (cases "Authorize (Snapshot hi ?s) ps (es_unit ?s) (es_result ?s)")
  show thesis
  proof (cases e)
    case None
    with a e have "st1 = update (\<lambda>s. s\<lparr>es_unit := unit, es_result := r, es_authorized := True\<rparr>) st"
      by (simp add: Authorize_current_def Let_def)
    then show thesis by (rule that(1))
  next
    case (Some x)
    let ?st = "update (\<lambda>s. s\<lparr>es_unit := unit, es_result := r\<rparr>) st"
    obtain d r1 where "DescribeError (sc_type_name (hi_session hi)) x True r = (d, r1)"
      by (cases "DescribeError (sc_type_name (hi_session hi)) x True r")
    with a e Some obtain r2 where r: "refuse_current hi AUTHORIZE (MarkDenied r2) ?st = (None, st1)"
      by (cases d) (auto simp: Authorize_current_def Let_def split: if_splits)
    have "es_log_only ?s" using refuse_current_None [OF r] by simp
    moreover have "hs_state st1 = (hs_state ?st)\<lparr>es_result := MarkDenied r2, es_decided := True\<rparr>"
      using record_state(2) [of hi AUTHORIZE "MarkDenied r2" ?st] r by simp
    ultimately show thesis using that(2) by simp
  qed
qed

lemma bind_executed_recorded:
  assumes "bind_executed hi pb plan st = (None, st')"
  shows "es_decided (hs_state st') \<and> (\<not> es_log_only (hs_state st) \<longrightarrow> r_allowed (es_result (hs_state st')) \<and>
    (takes_all (hi_audit hi) \<longrightarrow>
       (\<exists>entry. hs_log st' = hs_log st @ [entry] \<and> execution_entry hi (hs_state st) (es_result (hs_state st')) entry)))"
proof (cases "es_admitted (hs_state st)")
  case False
  with assms have r: "refuse_current hi EXECUTION NotAdmitted st = (None, st')" by (simp add: bind_executed_def)
  from refuse_current_None [OF r] record_state(2) [of hi EXECUTION NotAdmitted st] r show ?thesis by auto
next
  case admitted: True
  show ?thesis
  proof (cases "es_authorized (hs_state st)")
    case True
    with assms admitted execute_plan_recorded show ?thesis by (simp add: bind_executed_def)
  next
    case False
    with assms admitted obtain st1 where a: "Authorize_current hi (Some (pb_parameters pb)) st = (None, st1)"
      and x: "(if es_authorized (hs_state st1) then execute_plan hi pb plan st1 else (None, st1)) = (None, st')"
      by (auto simp: bind_executed_def seqO_eq_None)
    show ?thesis
    proof (rule Authorize_current_None [OF a])
      fix unit r
      assume "st1 = update (\<lambda>s. s\<lparr>es_unit := unit, es_result := r, es_authorized := True\<rparr>) st"
      with x execute_plan_recorded [of hi pb plan st1 st'] show ?thesis by (simp add: execution_entry_def)
    qed (use x False in simp)
  qed
qed

section \<open>Properties\<close>

text \<open>C23. A log-only statement leaves at most one record, whatever hooks the engine calls in it and in whatever
  order, from its begin through any hooks between to its end; if the log takes every record and the
  statement was decided, it leaves exactly one. What is decided is never decided again.\<close>

theorem log_only_recorded_once:
  assumes "QueryBegin hi st0 = (e, st)" and "es_log_only (hs_state st)" and "hi_active hi = Some n"
    and "taken \<longrightarrow> takes_all (hi_audit hi)" and "statement_hooks n taken hooks"
  shows "\<exists>new. hs_log (snd (QueryEnd last_hi error (run_hooks hooks st))) = hs_log st0 @ new \<and> length new \<le> 1 \<and>
    (taken \<and> es_decided (hs_state (run_hooks hooks st)) \<longrightarrow> length new = 1)"
proof -
  let ?last = "run_hooks hooks st"
  from assms(1) have st: "st = snd (BeginStatement hi st0)" by (simp add: QueryBegin_def)
  from BeginStatement_once [OF assms(3), of st0] assms(2) obtain s where s: "\<not> es_decided s"
    "once (takes_all (hi_audit hi)) \<lparr>hs_state = s, hs_log = hs_log st0\<rparr> st" "statement_of (hs_state st) = (True, True, n)"
    unfolding st by blast
  from run_hooks_once [OF assms(5) s(3)] once_trans [OF once_weaken [OF s(2) assms(4)]]
  have "once taken \<lparr>hs_state = s, hs_log = hs_log st0\<rparr> ?last" by blast
  then obtain new where new: "hs_log ?last = hs_log st0 @ new" "new = [] \<or> length new = 1 \<and> es_decided (hs_state ?last)"
    "taken \<longrightarrow> (new = []) = (\<not> es_decided (hs_state ?last))"
    using s(1) by (auto simp: once_def)
  moreover obtain after where "hs_log (snd (QueryEnd last_hi error ?last)) = hs_log ?last @ after"
    "after = [] \<or> length after = 1 \<and> \<not> es_decided (hs_state ?last)"
    using QueryEnd_log by blast
  ultimately show ?thesis by (intro exI [of _ "new @ after"]) auto
qed

text \<open>A log-only statement under a policy that cannot be read, on a log that takes everything.\<close>

definition audited_hook :: HookInput where
  "audited_hook = malformed_hook\<lparr>hi_audit := quiet_audit\<rparr>"

definition audited_start :: HookState where
  "audited_start = \<lparr>hs_state = Reset, hs_log = []\<rparr>"

definition audited_hooks :: "(HookInput \<times> hook_event) list" where
  "audited_hooks = [(audited_hook, RebindPrepared), (audited_hook, AskRebind)]"

lemma audited_begin:
  "es_log_only (hs_state (snd (QueryBegin audited_hook audited_start))) \<and>
   es_decided (hs_state (snd (QueryBegin audited_hook audited_start)))"
proof -
  have "hi_policy audited_hook = hi_policy malformed_hook" by (simp add: audited_hook_def)
  with malformed_policy obtain r where p: "TryGlobalPolicy (hi_policy audited_hook) = Inr (Inl r)" by auto
  have "LogOnlySetting (hi_log_only audited_hook)" "RoutingControl audited_hook = Inr False"
    by (simp_all add: audited_hook_def malformed_hook_def LogOnlySetting_def RoutingControl_def sample_hook_def
      sample_session_def sample_context_def)
  with p show ?thesis by (simp add: QueryBegin_def BeginStatement_def begin_policy_def Let_def)
qed

theorem log_only_recorded_once_witness:
  "\<exists>st. es_log_only (hs_state st) \<and>
     length (hs_log (snd (QueryEnd audited_hook None (run_hooks audited_hooks st)))) = 1"
proof -
  let ?st = "snd (QueryBegin audited_hook audited_start)"
  obtain e where b: "QueryBegin audited_hook audited_start = (e, ?st)" by (metis prod.collapse)
  have a: "hi_active audited_hook = Some 7"
    by (simp add: audited_hook_def malformed_hook_def sample_hook_def)
  have t: "takes_all (hi_audit audited_hook)" by (simp add: takes_all_def audited_hook_def quiet_audit_def)
  then have h: "statement_hooks 7 True audited_hooks" using a by (simp add: statement_hooks_def audited_hooks_def)
  from BeginStatement_once [OF a, of audited_start] audited_begin
  have s: "statement_of (hs_state ?st) = (True, True, 7)" by (auto simp: QueryBegin_def)
  have "es_decided (hs_state (run_hooks audited_hooks ?st))"
    using run_hooks_once [OF h s] audited_begin by (simp add: once_def)
  moreover have "True \<longrightarrow> takes_all (hi_audit audited_hook)" using t by simp
  ultimately show ?thesis
    using log_only_recorded_once [OF b _ a _ h, of audited_hook None] audited_begin
    by (auto simp: audited_start_def intro!: exI [of _ ?st])
qed

text \<open>C3. Nothing runs before its decision is on record, in either mode. If the hook on a bound plan returns inside
  the current statement, for a plan that is neither a prepare's pre-screen nor a wrapper, the statement is
  decided; on an enforcing connection the decision is that it is allowed, it is the one this plan passed
  with, and a log that takes every record ends with it.\<close>

theorem executed_plan_recorded:
  assumes "PostBind hi pb st = (None, st')" and "pb_plan pb = Some plan" and "es_in_statement (hs_state st)"
    and "major_of hi \<ge> 2 \<Longrightarrow> \<not> (pb_prepare_mode pb \<and> \<not> es_executing_prepared (hs_state st)) \<and> \<not> is_wrapper plan"
  shows "es_decided (hs_state st') \<and>
    (\<not> es_log_only (hs_state st) \<longrightarrow> r_allowed (es_result (hs_state st')) \<and>
      (takes_all (hi_audit hi) \<longrightarrow>
         (\<exists>entry. hs_log st' = hs_log st @ [entry] \<and> execution_entry hi (hs_state st) (es_result (hs_state st')) entry)))"
proof -
  have runs: "\<not> (major_of hi \<ge> 2 \<and> pb_prepare_mode pb \<and> \<not> es_executing_prepared (hs_state st))"
    "\<not> (major_of hi \<ge> 2 \<and> is_wrapper plan)"
    using assms(4) by auto
  have "PostBind hi pb st = (if \<not> CurrentStatement hi (hs_state st) then refuse_current hi EXECUTION NotAdmitted st
      else if es_log_only (hs_state st) \<and> es_decided (hs_state st) then (None, st)
      else bind_executed hi pb plan st)"
    using assms(3)
    by (simp only: PostBind_def assms(2) option.case Let_def if_not_P [OF runs(1)] if_not_P [OF runs(2)] not_True_eq_False if_False)
  with assms(1) have "(if \<not> CurrentStatement hi (hs_state st) then refuse_current hi EXECUTION NotAdmitted st
      else if es_log_only (hs_state st) \<and> es_decided (hs_state st) then (None, st)
      else bind_executed hi pb plan st) = (None, st')" by simp
  then consider "refuse_current hi EXECUTION NotAdmitted st = (None, st')"
    | "es_log_only (hs_state st)" "es_decided (hs_state st)" "st' = st" | "bind_executed hi pb plan st = (None, st')"
    by (metis prod.inject)
  then show ?thesis
  proof cases
    case 1
    with refuse_current_None [OF 1] record_state(2) [of hi EXECUTION NotAdmitted st] show ?thesis by auto
  next
    case 2
    then show ?thesis by simp
  next
    case 3
    then show ?thesis by (rule bind_executed_recorded)
  qed
qed

theorem executed_plan_recorded_witness:
  "\<exists>st st'. PostBind begun_hook (sample_bound idle_plan) st = (None, st') \<and> es_decided (hs_state st') \<and>
     r_allowed (es_result (hs_state st'))"
proof -
  obtain st st' where st: "PostBind begun_hook (sample_bound idle_plan) st = (None, st')"
    "es_in_statement (hs_state st)" "\<not> es_log_only (hs_state st)"
    by (rule begun_runs)
  have "major_of begun_hook \<ge> 2 \<Longrightarrow> \<not> (pb_prepare_mode (sample_bound idle_plan) \<and> \<not> es_executing_prepared (hs_state st)) \<and>
      \<not> is_wrapper idle_plan" by (simp add: begun_hook_sel)
  from executed_plan_recorded [OF st(1) sample_bound_sel(1) st(2) this] st show ?thesis by blast
qed

section \<open>What a log-only connection still shows\<close>

text \<open>
  Log-only mode waives refusals, not the errors of inspecting a plan. A list aggregate over a parameter
  whose type is not known yet has no bind data, so the pre-screen of a \<open>Prepare()\<close> of it raises a binder
  error of its own on a log-only connection, where the engine alone would prepare it, and records nothing.
\<close>

definition untyped_plan :: LogicalOperator where
  "untyped_plan = Operator LOGICAL_PROJECTION None None
     [BoundFunctionE \<lparr>bf_name = ''list_aggregate'', bf_catalog_name = ''system'', bf_schema_name = ''main'',
        bf_path = [''system'', ''main'', ''list_aggregate''], bf_definition = None\<rparr> []
        \<lparr>fb_null_input = False, fb_present = False, fb_serializable = True, fb_serialized = None\<rparr> None]
     [Operator LOGICAL_DUMMY_SCAN None None [] []]"

definition log_only_hook :: HookInput where
  "log_only_hook = begun_hook\<lparr>hi_log_only := Some (VBool True), hi_audit := quiet_audit\<rparr>"

lemma log_only_hook_sel:
  "hi_policy log_only_hook = Some (PolicyValue default_policy)" "hi_log_only log_only_hook = Some (VBool True)"
  "hi_audit log_only_hook = quiet_audit" "hi_session log_only_hook = sample_session" "major_of log_only_hook = 1"
  "defaults_of (sc_bind (hi_session log_only_hook)) = sample_inventory"
  by (simp_all add: log_only_hook_def begun_hook_def sample_hook_def sample_session_def sample_context_def)

lemma untyped_plan_steps:
  "plan_steps 1 empty_binding (u_provenance Unattributed) untyped_plan =
     [FunctionStep (occurrence (identity ''system'' [''main''] ''list_aggregate'' ''scalar'' None) False False no_identity),
      RefuseStep (BinderException ''List aggregate requires resolved parameter types'')]"
  by code_simp

lemma untyped_plan_occurrence:
  "fst (authorize_occurrence sample_inventory 1 empty_binding (u_provenance Unattributed) default_policy
     (occurrence (identity ''system'' [''main''] ''list_aggregate'' ''scalar'' None) False False no_identity)
     (empty_result\<lparr>r_allowed := True\<rparr>)) = None"
  by code_simp

lemma untyped_plan_inspected:
  "fst (CheckPlan operator_name sample_inventory 1 \<lparr>ceiling_layer = default_policy, request_layer = default_policy\<rparr> PRESCREEN
     sample_properties untyped_plan Unattributed (empty_result\<lparr>r_allowed := True\<rparr>)) =
   Some (BinderException ''List aggregate requires resolved parameter types'')"
proof -
  let ?o = "occurrence (identity ''system'' [''main''] ''list_aggregate'' ''scalar'' None) False False no_identity"
  obtain r where o: "authorize_occurrence sample_inventory 1 empty_binding (u_provenance Unattributed) default_policy ?o
      (empty_result\<lparr>r_allowed := True\<rparr>) = (None, r)"
    using untyped_plan_occurrence by (metis prod.collapse)
  have b: "u_binding Unattributed = empty_binding" by (simp add: Unattributed_def empty_unit_def)
  have a: "AuthorizePlanAgainst sample_inventory 1 empty_binding (u_provenance Unattributed) untyped_plan default_policy
      (empty_result\<lparr>r_allowed := True\<rparr>) = (Some (BinderException ''List aggregate requires resolved parameter types''), r)"
    by (simp add: AuthorizePlanAgainst_def untyped_plan_steps o del: One_nat_def)
  have "check_properties sample_properties untyped_plan st = (None, st)" for st
    by (simp add: check_properties_def sample_properties_def ModifiesDatabase_def PivotEnumPlan_def untyped_plan_def)
  moreover have "foldO (check_operator operator_name sample_inventory 1 layers PRESCREEN untyped_plan)
      (plan_operators untyped_plan) st = (None, st)" for layers st
    by (simp add: untyped_plan_def plan_operators_def check_operator_def operator_readable_def ReadOperator_def op_scan_def)
  ultimately show ?thesis
    by (simp add: CheckPlan_def start_accounting_def on_result_def AuthorizePlan_def Layers_Each_def a b Let_def del: One_nat_def)
qed


end
