(* ===== verification/Sql_Functions.thy ===== *)
theory Sql_Functions
  imports Enforcement_Model
begin

text \<open>
  What the engine sees of the three SQL functions, \<open>gatekeeper_validate\<close>, \<open>gatekeeper_configure\<close> and
  \<open>gatekeeper_enforce\<close> (\<open>src/src/gatekeeper_extension.cpp\<close>, \<open>src/src/policy_setting.cpp\<close>,
  \<open>src/src/enforcement.cpp\<close>): the columns each declares when it is bound, how its bind data are copied and
  compared, the linked-harness access to both, and, by the contract \<open>single_row\<close>, the one row each produces.
\<close>

section \<open>Declared columns\<close>

definition ValidateColumns :: "(string \<times> LogicalType) list" where
  "ValidateColumns = map (\<lambda>field. (fst field, snd field)) ResultType"

definition ConfigureColumns :: "(string \<times> LogicalType) list" where
  "ConfigureColumns = [(''Success'', T_BOOLEAN)]"

definition EnforceColumns :: "(string \<times> LogicalType) list" where
  "EnforceColumns = [(''enforced'', T_BOOLEAN), (''warnings'', T_LIST T_VARCHAR)]"

section \<open>Bind data\<close>

text \<open>
  The comparisons of values are the engine's: \<open>not_distinct\<close>, which counts two NULLs as the same, for the
  arguments of a validation, and \<open>equal\<close> for a configured policy, which holds no NULL.
\<close>

definition ValidateBinding_Copy :: "ValidateBinding \<Rightarrow> ValidateBinding" where
  "ValidateBinding_Copy binding = \<lparr>vb_sql = vb_sql binding, vb_options = vb_options binding\<rparr>"

fun options_equal :: "(Value \<Rightarrow> Value \<Rightarrow> bool) \<Rightarrow> (string \<times> Value) list \<Rightarrow> (string \<times> Value) list \<Rightarrow> bool" where
  "options_equal not_distinct ((name, v) # options) ((name', v') # options') \<longleftrightarrow>
     (if name \<noteq> name' \<or> \<not> not_distinct v v' then False else options_equal not_distinct options options')"
| "options_equal not_distinct _ _ \<longleftrightarrow> True"

definition ValidateBinding_Equals :: "(Value \<Rightarrow> Value \<Rightarrow> bool) \<Rightarrow> ValidateBinding \<Rightarrow> ValidateBinding \<Rightarrow> bool" where
  "ValidateBinding_Equals not_distinct binding other \<longleftrightarrow>
     (if \<not> not_distinct (vb_sql binding) (vb_sql other) \<or> length (vb_options binding) \<noteq> length (vb_options other)
      then False else options_equal not_distinct (vb_options binding) (vb_options other))"

definition ConfigureBinding_Copy :: "Value \<Rightarrow> Value" where
  "ConfigureBinding_Copy policy = policy"

definition ConfigureBinding_Equals :: "(Value \<Rightarrow> Value \<Rightarrow> bool) \<Rightarrow> Value \<Rightarrow> Value \<Rightarrow> bool" where
  "ConfigureBinding_Equals equal policy other \<longleftrightarrow> equal policy other"

datatype EnforceBinding = EnforceBinding

definition EnforceBinding_Copy :: "EnforceBinding \<Rightarrow> EnforceBinding" where
  "EnforceBinding_Copy binding = EnforceBinding"

definition EnforceBinding_Equals :: "EnforceBinding \<Rightarrow> EnforceBinding \<Rightarrow> bool" where
  "EnforceBinding_Equals binding other \<longleftrightarrow> True"

text \<open>
  The bind data of a function of one kind: a copy is equal to what it was made from, and equality is an
  equivalence, so that the engine may use either for the other.
\<close>

locale bind_data =
  fixes copy :: "'b \<Rightarrow> 'b" and equals :: "'b \<Rightarrow> 'b \<Rightarrow> bool"
  assumes copied: "equals binding (copy binding)"
    and equal_sym: "equals binding other \<Longrightarrow> equals other binding"
    and equal_trans: "equals binding other \<Longrightarrow> equals other another \<Longrightarrow> equals binding another"
begin

lemma copies_equal: "equals binding other \<Longrightarrow> equals (copy binding) (copy other)"
  by (meson copied equal_sym equal_trans)

end

lemma options_equal_pairs:
  "length options = length options' \<Longrightarrow> options_equal not_distinct options options' \<longleftrightarrow>
     list_all2 (\<lambda>(name, v) (name', v'). name = name' \<and> not_distinct v v') options options'"
  by (induction not_distinct options options' rule: options_equal.induct) (auto simp: neq_Nil_conv)

lemma ValidateBinding_Equals_pairs:
  "ValidateBinding_Equals not_distinct binding other \<longleftrightarrow> not_distinct (vb_sql binding) (vb_sql other) \<and>
     list_all2 (\<lambda>(name, v) (name', v'). name = name' \<and> not_distinct v v') (vb_options binding) (vb_options other)"
  by (auto simp: ValidateBinding_Equals_def options_equal_pairs dest: list_all2_lengthD)

text \<open>Two NULLs of one type are not distinct.\<close>

interpretation validate_data: bind_data ValidateBinding_Copy "ValidateBinding_Equals (=)"
  by unfold_locales
    (auto simp: ValidateBinding_Equals_pairs ValidateBinding_Copy_def list_all2_conv_all_nth split_beta)

interpretation configure_data: bind_data ConfigureBinding_Copy "ConfigureBinding_Equals (=)"
  by unfold_locales (simp_all add: ConfigureBinding_Copy_def ConfigureBinding_Equals_def)

interpretation enforce_data: bind_data EnforceBinding_Copy EnforceBinding_Equals
  by unfold_locales (simp_all add: EnforceBinding_Equals_def)

section \<open>The linked harness\<close>

definition GatekeeperCheckForFuzz :: "StatementContext \<Rightarrow> Value option \<Rightarrow> string \<Rightarrow> Limits \<Rightarrow> exn + Value" where
  "GatekeeperCheckForFuzz sc setting sql limits =
     bindE (GlobalPolicy setting) (\<lambda>policy.
       bindE (Check_sql (with_layers policy policy sc) sql limits) (\<lambda>result. Inr (ResultValue result)))"

definition GatekeeperBindingsEqualForFuzz :: "(Value \<Rightarrow> Value \<Rightarrow> bool) \<Rightarrow> Value \<Rightarrow> Value \<Rightarrow> bool \<Rightarrow> bool" where
  "GatekeeperBindingsEqualForFuzz not_distinct left right option =
     (let a = \<lparr>vb_sql = (if option then VVarchar ''SELECT 1'' else left),
               vb_options = (if option then [(''blocked_functions'', left)] else [])\<rparr>;
          b = \<lparr>vb_sql = (if option then VVarchar ''SELECT 1'' else right),
               vb_options = (if option then [(''blocked_functions'', right)] else [])\<rparr>
      in ValidateBinding_Equals not_distinct a (ValidateBinding_Copy b))"

section \<open>One row each\<close>

interpretation configure: single_row "Configure oe ae bound" for oe ae bound
  by unfold_locales (auto simp: Configure_def split: if_splits option.splits sum.splits prod.splits)

interpretation validate: single_row "GatekeeperValidate oe read_json sc ae binding" for oe read_json sc ae binding
  by unfold_locales (auto simp: GatekeeperValidate_def split: if_splits option.splits sum.splits prod.splits)

interpretation enforce: single_row "Enforce oe hi po" for oe hi po
  by unfold_locales (auto simp: Enforce_def split: if_splits prod.splits)

text \<open>What a run of the engine's loop over a function shows: nothing after an error, otherwise one row that
  has the declared columns and satisfies \<open>ok\<close>, then empty chunks, and the state of the first call alone.\<close>

definition yields_row ::
    "(string \<times> LogicalType) list \<Rightarrow> (Value list \<Rightarrow> bool) \<Rightarrow> 's call \<Rightarrow> nat \<Rightarrow> 's \<Rightarrow> bool" where
  "yields_row columns ok run n s \<longleftrightarrow>
     (case fetches run (length columns) (Suc n) InitSingleRow s of
        (Some e, finished, s', outputs) \<Rightarrow> outputs = [] \<and> fst (run InitSingleRow s (empty_chunk (length columns))) = Some e
      | (None, finished, s', outputs) \<Rightarrow> finished \<and>
          s' = fst (snd (snd (run InitSingleRow s (empty_chunk (length columns))))) \<and>
          (\<exists>row. outputs = row_chunk row # replicate n (empty_chunk (length columns)) \<and>
             map type_of row = map snd columns \<and> list_all well_typed row \<and> ok row))"

lemma yields_rowI:
  assumes "single_row run"
    and "\<And>finished s' output. run False s (empty_chunk (length columns)) = (None, finished, s', output) \<Longrightarrow>
      \<exists>row. output = row_chunk row \<and> map type_of row = map snd columns \<and> list_all well_typed row \<and> ok row"
  shows "yields_row columns ok run n s"
proof (cases "run False s (empty_chunk (length columns))")
  case (fields e finished s' out)
  with assms(2) show ?thesis
    unfolding yields_row_def InitSingleRow_def single_row.one_row [OF assms(1)] by (cases e) auto
qed

lemma result_row:
  "length (StructValue_GetChildren (ResultValue r)) = length ValidateColumns"
  "map type_of (StructValue_GetChildren (ResultValue r)) = map snd ValidateColumns"
  "list_all well_typed (StructValue_GetChildren (ResultValue r))"
proof -
  show t: "map type_of (StructValue_GetChildren (ResultValue r)) = map snd ValidateColumns"
    "list_all well_typed (StructValue_GetChildren (ResultValue r))"
    using ResultValue_typed [of r] by (simp_all add: ResultValue_def ValidateColumns_def comp_def)
  from t(1) show "length (StructValue_GetChildren (ResultValue r)) = length ValidateColumns"
    by (metis length_map)
qed

lemma validate_row:
  assumes "oe_major oe < 2 \<or> checks_cardinality oe"
    and "GatekeeperValidate oe read_json sc ae binding False db (empty_chunk (length ValidateColumns)) = (None, finished, db', output)"
  shows "\<exists>decision. validate_decision read_json sc binding (db_policy db) = Inr decision \<and>
    output = row_chunk (StructValue_GetChildren (ResultValue decision))"
  using assms AppendResultRow_empty [OF assms(1), of "StructValue_GetChildren (ResultValue decision)" for decision]
  by (auto simp: GatekeeperValidate_def result_row(1) split: sum.splits prod.splits option.splits)

lemma configure_row:
  assumes "oe_major oe < 2 \<or> checks_cardinality oe"
    and "Configure oe ae bound False db (empty_chunk (length ConfigureColumns)) = (None, finished, db', output)"
  shows "output = row_chunk [VBool True]"
  using assms AppendResultRow_empty [OF assms(1), of "[VBool True]"]
  by (auto simp: Configure_def ConfigureColumns_def split: sum.splits prod.splits option.splits)

lemma enforce_row:
  assumes "oe_major oe < 2 \<or> checks_cardinality oe"
    and "Enforce oe hi po False state (empty_chunk (length EnforceColumns)) = (None, finished, state', output)"
  shows "output = row_chunk [VBool True, VList T_VARCHAR (map VVarchar (PostureWarnings hi po))]"
  using assms AppendResultRow_empty [OF assms(1), of "[VBool True, VList T_VARCHAR (map VVarchar (PostureWarnings hi po))]"]
  by (auto simp: Enforce_def EnforceColumns_def split: if_splits prod.splits)

text \<open>C30. However often the engine calls them, each of the three functions acts once and produces one row, of the
  columns it declared at its bind, or throws before it has produced any: \<open>gatekeeper_validate\<close> the fields of its
  decision, \<open>gatekeeper_configure\<close> its success, \<open>gatekeeper_enforce\<close> its success and the warnings of the
  connection's posture. Further calls change nothing and produce nothing.\<close>

theorem sql_functions_one_row:
  assumes "oe_major oe < 2 \<or> checks_cardinality oe"
  shows "yields_row ValidateColumns
      (\<lambda>row. \<exists>decision. validate_decision read_json sc binding (db_policy db) = Inr decision \<and>
         row = StructValue_GetChildren (ResultValue decision)) (GatekeeperValidate oe read_json sc ae binding) n db \<and>
    yields_row ConfigureColumns (\<lambda>row. row = [VBool True]) (Configure oe ae bound) n db \<and>
    yields_row EnforceColumns (\<lambda>row. row = [VBool True, VList T_VARCHAR (map VVarchar (PostureWarnings hi po))])
      (Enforce oe hi po) n state"
proof (intro conjI yields_rowI validate.single_row_axioms configure.single_row_axioms enforce.single_row_axioms, goal_cases)
  case (1 finished s' out)
  with validate_row [OF assms] result_row show ?case by blast
next
  case (2 finished s' out)
  with configure_row [OF assms] show ?case by (simp add: ConfigureColumns_def)
next
  case (3 finished s' out)
  with enforce_row [OF assms] show ?case by (simp add: EnforceColumns_def list_all_iff)
qed

theorem sql_functions_one_row_witness:
  "yields_row ConfigureColumns (\<lambda>row. row = [VBool True]) (Configure plain_output quiet_audit (PolicyValue default_policy)) 2
     empty_database"
  using sql_functions_one_row [of plain_output] by (simp add: plain_output_def)

end
