(* ===== verification/Nested_Validation.thy ===== *)
theory Nested_Validation
  imports Enforcement_Model
begin

text \<open>
  Validations nested on one thread (\<open>ValidationScope\<close>, \<open>active_scope\<close> and \<open>ScopeGuard\<close> of
  \<open>src/src/check.cpp\<close>). A name the catalog does not have is offered to the host's callbacks; each of them
  can run SQL of its own on the same thread, validations included, before it answers. One thread-local
  pointer tells the replacement-scan callback which validation, if any, is in progress; a guard saves it and
  puts it back. The theorem of this theory is that it is enough: \<open>Private_Bind\<close> models a validation as if nothing
  were nested in it, and a validation with any nesting decides as that.
\<close>

section \<open>A thread\<close>

text \<open>The validations in progress, the innermost last, and the pointer to one of them; a connection is a number.\<close>

record ValidationScope =
  vs_context :: nat
  vs_hook :: HookInput
  vs_cx :: BindContext
  vs_binding :: BindingPolicy
  vs_bind :: BindState

record Thread =
  th_scopes :: "ValidationScope list"
  th_active :: "nat option"
  th_gates :: "nat \<Rightarrow> HookState option"

text \<open>
  What happens on a thread: an event of a bind with the calls the host makes while it is handled, and such a
  call, which validates a statement on a connection or binds one there and misses a name.
\<close>

datatype bind_step = BindStep (step_event: bind_event) "host_call list"
and host_call =
    Validate_on nat HookInput BindContext BindingPolicy Provenance Result "bind_step list"
  | Missing_on nat HookInput ReplacementScanInput "host_call list"

definition ScopeGuard :: "ValidationScope \<Rightarrow> Thread \<Rightarrow> Thread" where
  "ScopeGuard scope th = th\<lparr>th_scopes := th_scopes th @ [scope], th_active := Some (length (th_scopes th))\<rparr>"

definition release_scope :: "nat option \<Rightarrow> Thread \<Rightarrow> Thread" where
  "release_scope previous th = th\<lparr>th_scopes := butlast (th_scopes th), th_active := previous\<rparr>"

text \<open>The scope the replacement-scan callback works in: the active one, unless that is of another connection.\<close>

definition callback_scope :: "nat \<Rightarrow> Thread \<Rightarrow> nat option" where
  "callback_scope context th =
     (case th_active th of
        Some i \<Rightarrow> if context \<noteq> vs_context (th_scopes th ! i) then None else Some i
      | None \<Rightarrow> None)"

definition in_scope :: "nat \<Rightarrow> bind_event \<Rightarrow> Thread \<Rightarrow> Thread outcome" where
  "in_scope i event th =
     (let scope = th_scopes th ! i;
          (e, st) = run_event (vs_cx scope) (vs_binding scope) event (vs_bind scope)
      in (e, th\<lparr>th_scopes := (th_scopes th)[i := scope\<lparr>vs_bind := st\<rparr>]\<rparr>))"

text \<open>Outside every scope the gate of the connection decides, if it is enforced.\<close>

definition at_gate :: "nat \<Rightarrow> HookInput \<Rightarrow> ReplacementScanInput \<Rightarrow> Thread \<Rightarrow> exn option \<times> HookState option" where
  "at_gate context hi scan th =
     (case th_gates th context of
        None \<Rightarrow> (None, None)
      | Some h \<Rightarrow> (case GatekeeperReplacementScan hi scan h of
            (Inl e, h) \<Rightarrow> (Some e, Some h) | (Inr _, h) \<Rightarrow> (None, Some h)))"

definition decided_at_gate :: "nat \<Rightarrow> exn option \<times> HookState option \<Rightarrow> Thread \<Rightarrow> Thread outcome" where
  "decided_at_gate context decision th =
     (fst decision, th\<lparr>th_gates := (th_gates th)(context := snd decision)\<rparr>)"

text \<open>
  The callback reads the scope, or the gate, on entry; then the host's callbacks run; then it decides. A
  bind of a validation is on the connection of its own scope, and its lookups go to that scope directly.
\<close>

fun take_step :: "nat \<Rightarrow> bind_step \<Rightarrow> Thread \<Rightarrow> Thread outcome"
and take_steps :: "nat \<Rightarrow> bind_step list \<Rightarrow> Thread \<Rightarrow> Thread outcome"
and run_validation :: "nat \<Rightarrow> HookInput \<Rightarrow> BindContext \<Rightarrow> BindingPolicy \<Rightarrow> Provenance \<Rightarrow> Result \<Rightarrow> bind_step list \<Rightarrow> Thread \<Rightarrow>
    BindState outcome \<times> Thread"
and run_call :: "host_call \<Rightarrow> Thread \<Rightarrow> Thread"
and run_calls :: "host_call list \<Rightarrow> Thread \<Rightarrow> Thread" where
  "take_step own (BindStep event nested) th =
     (case event of
        Replace scan \<Rightarrow>
          (case callback_scope (vs_context (th_scopes th ! own)) th of
             Some i \<Rightarrow> in_scope i event (run_calls nested th)
           | None \<Rightarrow> (case th_scopes th ! own of scope \<Rightarrow>
               decided_at_gate (vs_context scope) (at_gate (vs_context scope) (vs_hook scope) scan th) (run_calls nested th)))
      | _ \<Rightarrow> in_scope own event (run_calls nested th))"
| "take_steps own [] th = (None, th)"
| "take_steps own (step # steps) th =
     (case take_step own step th of (Some e, th) \<Rightarrow> (Some e, th) | (None, th) \<Rightarrow> take_steps own steps th)"
| "run_validation context hi cx binding pr r steps th =
     (let previous = th_active th;
          (e, th1) = take_steps (length (th_scopes th)) steps
            (ScopeGuard \<lparr>vs_context = context, vs_hook = hi, vs_cx = cx, vs_binding = binding, vs_bind = start_bind pr r\<rparr> th)
      in ((e, vs_bind (last (th_scopes th1))), release_scope previous th1))"
| "run_call (Validate_on context hi cx binding pr r steps) th = snd (run_validation context hi cx binding pr r steps th)"
| "run_call (Missing_on context hi scan nested) th =
     (case callback_scope context th of
        Some i \<Rightarrow> snd (in_scope i (Replace scan) (run_calls nested th))
      | None \<Rightarrow> snd (decided_at_gate context (at_gate context hi scan th) (run_calls nested th)))"
| "run_calls [] th = th"
| "run_calls (call # calls) th = run_calls calls (run_call call th)"

text \<open>
  A connection runs one statement at a time: what the host calls while connections are busy is on others.
\<close>

fun step_apart :: "nat set \<Rightarrow> bind_step \<Rightarrow> bool"
and call_apart :: "nat set \<Rightarrow> host_call \<Rightarrow> bool" where
  "step_apart busy (BindStep event nested) \<longleftrightarrow> list_all (call_apart busy) nested"
| "call_apart busy (Validate_on context hi cx binding pr r steps) \<longleftrightarrow>
     context \<notin> busy \<and> list_all (step_apart (insert context busy)) steps"
| "call_apart busy (Missing_on context hi scan nested) \<longleftrightarrow>
     context \<notin> busy \<and> list_all (call_apart (insert context busy)) nested"

section \<open>What nesting leaves\<close>

text \<open>The active scope, if there is one, is in progress on one of the busy connections.\<close>

definition on_busy :: "nat set \<Rightarrow> Thread \<Rightarrow> bool" where
  "on_busy busy th \<longleftrightarrow>
     (\<forall>i. th_active th = Some i \<longrightarrow> i < length (th_scopes th) \<and> vs_context (th_scopes th ! i) \<in> busy)"

text \<open>Only gates of connections that are not busy may differ.\<close>

definition same_but_gates :: "nat set \<Rightarrow> Thread \<Rightarrow> Thread \<Rightarrow> bool" where
  "same_but_gates busy th th' \<longleftrightarrow> (\<exists>h. th' = th\<lparr>th_gates := h\<rparr> \<and> (\<forall>c\<in>busy. h c = th_gates th c))"

lemma same_but_gates_refl: "same_but_gates busy th th"
  by (auto simp: same_but_gates_def intro!: exI [of _ "th_gates th"])

lemma same_but_gates_trans:
  "same_but_gates busy th th1 \<Longrightarrow> same_but_gates busy th1 th2 \<Longrightarrow> same_but_gates busy th th2"
  by (fastforce simp: same_but_gates_def)

text \<open>A scope after its own events alone, and a thread whose scope \<open>i\<close> is that.\<close>

definition alone :: "ValidationScope \<Rightarrow> bind_step list \<Rightarrow> exn option \<times> ValidationScope" where
  "alone scope steps =
     (case foldO (run_event (vs_cx scope) (vs_binding scope)) (map step_event steps) (vs_bind scope) of
        (e, st) \<Rightarrow> (e, scope\<lparr>vs_bind := st\<rparr>))"

definition own_scope :: "nat set \<Rightarrow> nat \<Rightarrow> Thread \<Rightarrow> bool" where
  "own_scope busy own th \<longleftrightarrow> th_active th = Some own \<and> on_busy busy th"

lemma own_scopeD:
  "own_scope busy own th \<Longrightarrow> th_active th = Some own" "own_scope busy own th \<Longrightarrow> own < length (th_scopes th)"
  "own_scope busy own th \<Longrightarrow> vs_context (th_scopes th ! own) \<in> busy"
  by (simp_all add: own_scope_def on_busy_def)

lemma same_but_gates_mono: "same_but_gates (insert c busy) th th' \<Longrightarrow> same_but_gates busy th th'"
  by (auto simp: same_but_gates_def)

lemma same_but_gates_sel:
  "same_but_gates busy th th' \<Longrightarrow> th_active th' = th_active th \<and> th_scopes th' = th_scopes th"
  by (auto simp: same_but_gates_def)

lemma on_busy_same: "same_but_gates busy' th th' \<Longrightarrow> on_busy busy th' = on_busy busy th"
  by (simp add: on_busy_def same_but_gates_sel)

lemma on_busy_insert: "on_busy busy th \<Longrightarrow> on_busy (insert c busy) th"
  by (auto simp: on_busy_def)

lemma callback_scope_apart: "on_busy busy th \<Longrightarrow> context \<notin> busy \<Longrightarrow> callback_scope context th = None"
  by (auto simp: on_busy_def callback_scope_def split: option.split)

lemma take_step_own:
  "own_scope busy own th \<Longrightarrow> take_step own (BindStep event nested) th = in_scope own event (run_calls nested th)"
  by (cases event) (simp_all add: own_scope_def callback_scope_def)

lemma in_scope_same:
  assumes "same_but_gates busy th th1" and "in_scope own event th1 = (e, th')"
  shows "\<exists>scope. alone (th_scopes th ! own) [BindStep event nested] = (e, scope) \<and>
    same_but_gates busy (th\<lparr>th_scopes := (th_scopes th)[own := scope]\<rparr>) th'"
proof -
  obtain h where h: "th1 = th\<lparr>th_gates := h\<rparr>" "\<forall>c\<in>busy. h c = th_gates th c"
    using assms(1) by (auto simp: same_but_gates_def)
  obtain st where st: "run_event (vs_cx (th_scopes th ! own)) (vs_binding (th_scopes th ! own)) event (vs_bind (th_scopes th ! own)) = (e, st)"
    and th': "th' = th1\<lparr>th_scopes := (th_scopes th)[own := (th_scopes th ! own)\<lparr>vs_bind := st\<rparr>]\<rparr>"
    using assms(2) h by (auto simp: in_scope_def Let_def split: prod.splits)
  have "alone (th_scopes th ! own) [BindStep event nested] = (e, (th_scopes th ! own)\<lparr>vs_bind := st\<rparr>)"
    by (cases e) (simp_all add: alone_def st)
  with th' h show ?thesis by (auto simp: same_but_gates_def intro!: exI [of _ h])
qed

lemma alone_Nil: "alone scope [] = (None, scope)"
  by (simp add: alone_def)

lemma alone_Cons:
  "alone scope (step # steps) = (case alone scope [step] of (Some e, scope) \<Rightarrow> (Some e, scope) | (None, scope) \<Rightarrow> alone scope steps)"
proof (cases "run_event (vs_cx scope) (vs_binding scope) (step_event step) (vs_bind scope)")
  case (Pair e st)
  then show ?thesis by (cases e) (simp_all add: alone_def)
qed

lemma nesting_invisible:
  "\<lbrakk>own_scope busy own th; step_apart busy step; take_step own step th = (e, th')\<rbrakk> \<Longrightarrow>
     \<exists>scope. alone (th_scopes th ! own) [step] = (e, scope) \<and>
       same_but_gates busy (th\<lparr>th_scopes := (th_scopes th)[own := scope]\<rparr>) th'"
  "\<lbrakk>own_scope busy own th; list_all (step_apart busy) steps; take_steps own steps th = (e, th')\<rbrakk> \<Longrightarrow>
     \<exists>scope. alone (th_scopes th ! own) steps = (e, scope) \<and>
       same_but_gates busy (th\<lparr>th_scopes := (th_scopes th)[own := scope]\<rparr>) th'"
  "\<lbrakk>context \<notin> busy; on_busy busy th; list_all (step_apart (insert context busy)) steps\<rbrakk> \<Longrightarrow>
     fst (run_validation context hi cx binding pr r steps th) =
       foldO (run_event cx binding) (map step_event steps) (start_bind pr r) \<and>
     same_but_gates busy th (snd (run_validation context hi cx binding pr r steps th))"
  "\<lbrakk>on_busy busy th; call_apart busy call\<rbrakk> \<Longrightarrow> same_but_gates busy th (run_call call th)"
  "\<lbrakk>on_busy busy th; list_all (call_apart busy) calls\<rbrakk> \<Longrightarrow> same_but_gates busy th (run_calls calls th)"
proof (induction own step th and own steps th and "context" hi cx binding pr r steps th and call th and calls th
    arbitrary: busy e th' and busy e th' and busy and busy and busy
    rule: take_step_take_steps_run_validation_run_call_run_calls.induct)
  case (1 own event nested th)
  have n: "list_all (call_apart busy) nested" and b: "on_busy busy th"
    using "1.prems" by (simp_all add: own_scope_def)
  have "callback_scope (vs_context (th_scopes th ! own)) th = Some own"
    using "1.prems"(1) by (simp add: own_scope_def callback_scope_def)
  then have "same_but_gates busy th (run_calls nested th)"
    using "1.IH" n b by (cases event) blast+
  moreover have "in_scope own event (run_calls nested th) = (e, th')"
    using "1.prems" take_step_own by metis
  ultimately show ?case by (rule in_scope_same)
next
  case (2 own th)
  then show ?case by (auto simp: alone_Nil own_scopeD same_but_gates_refl)
next
  case (3 own step steps th)
  obtain e1 th1 where s: "take_step own step th = (e1, th1)" by (metis surj_pair)
  obtain scope where a: "alone (th_scopes th ! own) [step] = (e1, scope)"
    and g: "same_but_gates busy (th\<lparr>th_scopes := (th_scopes th)[own := scope]\<rparr>) th1"
    using "3.IH"(1) [OF "3.prems"(1) _ s] "3.prems"(2) by auto
  show ?case
  proof (cases e1)
    case (Some x)
    then show ?thesis using "3.prems"(3) s a g by (auto simp: alone_Cons [of _ step steps])
  next
    case None
    have c: "vs_context scope = vs_context (th_scopes th ! own)"
      using a by (auto simp: alone_def split: prod.splits)
    have t: "th_active th1 = th_active th" "th_scopes th1 = (th_scopes th)[own := scope]"
      using same_but_gates_sel [OF g] by simp_all
    have o: "own_scope busy own th1"
      using "3.prems"(1) c by (auto simp: own_scope_def on_busy_def t)
    have r: "take_steps own steps th1 = (e, th')" using "3.prems"(3) s None by simp
    obtain scope' where a': "alone (th_scopes th1 ! own) steps = (e, scope')"
      and g': "same_but_gates busy (th1\<lparr>th_scopes := (th_scopes th1)[own := scope']\<rparr>) th'"
      using "3.IH"(2) [OF s [symmetric] None o _ r] "3.prems"(2) by auto
    have "own < length (th_scopes th)" by (rule own_scopeD(2) [OF "3.prems"(1)])
    then have "alone (th_scopes th ! own) (step # steps) = (e, scope')"
      using a a' None by (simp add: alone_Cons [of _ step steps] t)
    moreover have "same_but_gates busy (th\<lparr>th_scopes := (th_scopes th)[own := scope']\<rparr>) th'"
      using g g' by (auto simp: same_but_gates_def)
    ultimately show ?thesis by blast
  qed
next
  case (4 "context" hi cx binding pr r steps th)
  let ?scope = "\<lparr>vs_context = context, vs_hook = hi, vs_cx = cx, vs_binding = binding, vs_bind = start_bind pr r\<rparr>"
  let ?n = "length (th_scopes th)" and ?th = "ScopeGuard ?scope th"
  obtain e th1 where s: "take_steps ?n steps ?th = (e, th1)" by (metis surj_pair)
  have o: "own_scope (insert context busy) ?n ?th" by (simp add: own_scope_def on_busy_def ScopeGuard_def)
  obtain scope where a: "alone ?scope steps = (e, scope)"
    and g: "same_but_gates (insert context busy) (?th\<lparr>th_scopes := th_scopes th @ [scope]\<rparr>) th1"
    using "4.IH" [OF refl o "4.prems"(3) s] by (auto simp: ScopeGuard_def)
  have "th_scopes th1 = th_scopes th @ [scope]" using same_but_gates_sel [OF g] by simp
  moreover have "same_but_gates busy th (release_scope (th_active th) th1)"
    using g by (auto simp: same_but_gates_def release_scope_def ScopeGuard_def)
  ultimately show ?case using a s by (auto simp: alone_def split: prod.splits)
next
  case (5 "context" hi cx binding pr r steps th)
  then show ?case by simp
next
  case (6 "context" hi scan nested th)
  have o: "callback_scope context th = None" using "6.prems" by (simp add: callback_scope_apart)
  have "same_but_gates (insert context busy) th (run_calls nested th)"
    using "6.IH"(1) [OF o on_busy_insert [OF "6.prems"(1)]] "6.prems"(2) by simp
  with o "6.prems"(2) show ?case by (auto simp: same_but_gates_def decided_at_gate_def)
next
  case (7 th)
  then show ?case by (simp add: same_but_gates_refl)
next
  case (8 call calls th)
  have g: "same_but_gates busy th (run_call call th)" using "8.IH"(1) "8.prems" by simp
  with "8.IH"(2) "8.prems" show ?case
    by (auto simp: on_busy_same [OF g] intro: same_but_gates_trans [OF g])
qed

text \<open>A name missed by a connection that is not being validated is decided at that connection's own gate.\<close>

lemma reentrant_connection_gated:
  assumes "on_busy busy th" and "call_apart busy (Missing_on context hi scan nested)"
  shows "th_gates (run_call (Missing_on context hi scan nested) th) context = snd (at_gate context hi scan th)"
  using assms by (simp add: callback_scope_apart decided_at_gate_def)

text \<open>C25. Nesting is invisible. On a thread where validations are in progress on busy connections, a validation on
  another connection, with any validations and replacement scans nested in it on connections other than
  those busy at that moment, to any depth, decides as its own events alone. It leaves the active scope, every
  scope in progress and the enforcement of every busy connection as they were.\<close>

theorem nested_validation_decides_alone:
  assumes "on_busy busy th" and "call_apart busy (Validate_on context hi cx binding pr r steps)"
  shows "fst (run_validation context hi cx binding pr r steps th) =
      foldO (run_event cx binding) (map step_event steps) (start_bind pr r) \<and>
    th_active (snd (run_validation context hi cx binding pr r steps th)) = th_active th \<and>
    th_scopes (snd (run_validation context hi cx binding pr r steps th)) = th_scopes th \<and>
    (\<forall>c\<in>busy. th_gates (snd (run_validation context hi cx binding pr r steps th)) c = th_gates th c)"
  using nesting_invisible(3) [OF _ assms(1), of "context" steps hi cx binding pr r] assms(2)
  by (auto simp: same_but_gates_def)

text \<open>A host callback that claims no name, and in between validates on another connection.\<close>

definition unclaimed_scan :: ReplacementScanInput where
  "unclaimed_scan = \<lparr>ri_parts = [''t''], ri_catalog_name = [], ri_schema_name = [], ri_table_name = ''t'', ri_full_path = ''t'',
     ri_scans = [GatekeeperScan, HostScan (Inr NoReplacement)], ri_reader = Inl (BinderException []), ri_missing = None\<rparr>"

definition nested_steps :: "bind_step list" where
  "nested_steps = [BindStep (Replace unclaimed_scan) [Validate_on 1 sample_hook sample_context empty_binding empty_provenance
     empty_result [BindStep (Inherit 0) [], BindStep (Replace unclaimed_scan) []]], BindStep (Inherit 0) []]"

theorem nested_validation_decides_alone_witness:
  "\<exists>th :: Thread. on_busy {7} th \<and> th_active th = Some 0 \<and>
     fst (run_validation 0 sample_hook sample_context empty_binding empty_provenance empty_result nested_steps th) =
       foldO (run_event sample_context empty_binding) [Replace unclaimed_scan, Inherit 0] (start_bind empty_provenance empty_result)"
proof -
  let ?th = "\<lparr>th_scopes = [\<lparr>vs_context = 7, vs_hook = sample_hook, vs_cx = sample_context, vs_binding = empty_binding,
    vs_bind = start_bind empty_provenance empty_result\<rparr>], th_active = Some 0, th_gates = (\<lambda>c. None)\<rparr>"
  have b: "on_busy {7} ?th" by (simp add: on_busy_def)
  have a: "call_apart {7} (Validate_on 0 sample_hook sample_context empty_binding empty_provenance empty_result nested_steps)"
    by (simp add: nested_steps_def)
  show ?thesis
    using nested_validation_decides_alone [OF b a] b by (intro exI [of _ ?th]) (simp add: nested_steps_def)
qed

end
