(* ===== verification/Extension_Load.thy ===== *)
theory Extension_Load
  imports Decision_Records Sql_Functions Nested_Validation
begin

text \<open>
  Loading the extension (\<open>LoadInternal\<close> of \<open>src/src/gatekeeper_extension.cpp\<close>) and what each part registers:
  \<open>RegisterPolicySetting\<close>, \<open>RegisterAudit\<close> and \<open>RegisterEnforcement\<close>. The instance is the record of
  what they add to: the settings, the list of replacement scans, the table functions with the named
  options each accepts, the log types and the planner's post-bind hooks.
\<close>

record Instance =
  in_db :: Database
  in_scans :: "ReplacementScan list"
  in_functions :: "(string \<times> string list) list"
  in_log_types :: "string list"
  in_post_bind :: nat

text \<open>A function of the same name is altered.\<close>

definition RegisterFunction :: "string \<Rightarrow> string list \<Rightarrow> Instance \<Rightarrow> Instance" where
  "RegisterFunction name options inst =
     inst\<lparr>in_functions := filter (\<lambda>f. fst f \<noteq> name) (in_functions inst) @ [(name, options)]\<rparr>"

definition RegisterPolicySetting :: "Instance \<Rightarrow> Instance" where
  "RegisterPolicySetting inst =
     RegisterFunction ''gatekeeper_configure'' (RegisterOptions OptionNames)
       (inst\<lparr>in_db := (in_db inst)\<lparr>db_policy := Some (PolicyValue default_policy)\<rparr>\<rparr>)"

definition RegisterValidate :: "Instance \<Rightarrow> Instance" where
  "RegisterValidate inst = RegisterFunction ''gatekeeper_validate'' (RegisterOptions OptionNames) inst"

definition RegisterAudit :: "Instance \<Rightarrow> Instance" where
  "RegisterAudit inst =
     (if ''Gatekeeper'' \<in> set (in_log_types inst) then inst
      else inst\<lparr>in_log_types := in_log_types inst @ [''Gatekeeper'']\<rparr>)"

definition RegisterEnforcement :: "Instance \<Rightarrow> Instance" where
  "RegisterEnforcement inst =
     RegisterFunction ''gatekeeper_enforce'' []
       (inst\<lparr>in_db := (in_db inst)\<lparr>db_log_only := Some (VBool False)\<rparr>, in_post_bind := Suc (in_post_bind inst)\<rparr>)"

text \<open>The loadable artifact checks its engine first; the other parts register in order.\<close>

definition LoadInternal ::
    "bool \<Rightarrow> (string \<Rightarrow> string list) \<Rightarrow> string \<Rightarrow> string \<Rightarrow> string + BuildEngine \<Rightarrow> bool \<Rightarrow> Instance \<Rightarrow> Instance outcome" where
  "LoadInternal loadable split version stamp host append_only inst =
     (case if loadable then CheckBuildEngine split version stamp host else Inr () of
        Inl e \<Rightarrow> (Some e, inst)
      | Inr _ \<Rightarrow>
          (let inst1 = RegisterPolicySetting inst;
               inst2 = inst1\<lparr>in_scans := InstallReplacementScan append_only (in_scans inst1)\<rparr>
           in (None, RegisterEnforcement (RegisterAudit (RegisterValidate inst2)))))"

section \<open>The list of replacement scans\<close>

lemma ResolveHostReplacement_forwarded:
  "ResolveHostReplacement path (map ForwardedScan scans @ rest) = ResolveHostReplacement path (scans @ rest)"
proof (induction scans)
  case (Cons scan scans)
  have "ResolveHostReplacement path (scan # xs) = ResolveHostReplacement path (scan # ys)"
    if "ResolveHostReplacement path xs = ResolveHostReplacement path ys" for xs ys
    using that by (induction scan) (simp_all split: sum.splits Replacement.splits)
  from this [OF Cons.IH] show ?case by simp
qed simp

lemma ResolveHostReplacement_Prepend:
  "ResolveHostReplacement path (PrependReplacementScan append_only scans) = ResolveHostReplacement path scans"
  using ResolveHostReplacement_forwarded [of path scans "[]"] by (simp add: PrependReplacementScan_def)

lemma InstallReplacementScan_present:
  "GatekeeperScan \<in> set scans \<Longrightarrow> InstallReplacementScan append_only scans = scans"
  by (auto simp: InstallReplacementScan_def list_ex_iff)

lemma InstallReplacementScan_absent:
  assumes "GatekeeperScan \<notin> set scans"
  shows "InstallReplacementScan append_only scans = PrependReplacementScan append_only scans \<and>
    (\<exists>rest. PrependReplacementScan append_only scans = GatekeeperScan # rest \<and> GatekeeperScan \<notin> set rest)"
  using assms by (auto simp: InstallReplacementScan_def PrependReplacementScan_def list_ex_iff)

text \<open>The identity an engine is released under: its version tag, or the source id of a development build.\<close>

definition engine_identity :: "BuildEngine \<Rightarrow> bool \<times> string" where
  "engine_identity engine = (release (be_version engine), if release (be_version engine) then be_version engine else be_source_id engine)"

lemma CheckBuildEngine_exact:
  "CheckBuildEngine split version stamp host = Inr () \<longleftrightarrow>
     (\<exists>engine build. host = Inr engine \<and> ParseBuildEngine split version stamp = Inr build \<and>
        engine_identity build = engine_identity engine)"
proof (cases host)
  case (Inr engine)
  have decide: "(if c then Inl x else Inr ()) = Inr () \<longleftrightarrow> \<not> c" for c and x :: exn by simp
  show ?thesis
  proof (cases "ParseBuildEngine split version stamp")
    case (Inr build)
    with \<open>host = Inr engine\<close> show ?thesis
      by (simp only: CheckBuildEngine_def sum.case bindE_simps Let_def decide engine_identity_def prod.inject
          sum.inject simp_thms de_Morgan_disj ex_simps eq_commute [of _ "be_version engine"]) (auto split: if_splits)
  qed (simp add: CheckBuildEngine_def Inr)
qed (simp add: CheckBuildEngine_def)

section \<open>Properties\<close>


definition empty_instance :: Instance where
  "empty_instance = \<lparr>in_db = empty_database, in_scans = [HostScan (Inr NoReplacement), HostScan (Inr (ReplacementFunction ''read_csv''))],
     in_functions = [], in_log_types = [], in_post_bind = 0\<rparr>"

definition stamp_parts :: "string \<Rightarrow> string list" where
  "stamp_parts text = [''GATEKEEPER_BUILD_ENGINE'', ''v1.5.0'', ''abc'']"

lemma sample_load:
  "fst (LoadInternal True stamp_parts ''1'' [] (Inr \<lparr>be_version = ''v1.5.0'', be_source_id = ''def''\<rparr>) True empty_instance) = None"
proof -
  have "CheckBuildEngine stamp_parts ''1'' [] (Inr \<lparr>be_version = ''v1.5.0'', be_source_id = ''def''\<rparr>) = Inr ()"
    by code_simp
  then show ?thesis by (simp add: LoadInternal_def Let_def)
qed


end
